(* ===== verification/Prelude.thy ===== *)
theory Prelude
  imports Main "HOL-Library.Word"
begin

text \<open>
  What every component of the model shares: bytes and addresses, the ways a C
  execution can leave the program (\<open>fault\<close>), the sequencing of steps that can fault
  (\<open>and_then\<close>), the predicate \<open>sat\<close> that states a contract of such a step, and the
  big-endian 16-bit fields of the TFTP wire format.
\<close>

section \<open>Bytes, addresses, faults\<close>

text \<open>A byte is an 8-bit \<open>char\<close>, so that a C string is an Isabelle string.\<close>

type_synonym byte = char
type_synonym addr = nat

abbreviation NUL :: byte where
  "NUL \<equiv> CHR 0x00"

text \<open>The null pointer. No allocation returns it.\<close>

abbreviation (input) NULL :: addr where
  "NULL \<equiv> 0"

text \<open>
  The ways an execution stops being a normal one. \<open>Exit_failure\<close> is a call of
  \<open>exit(EXIT_FAILURE)\<close>, \<open>Assert_failed\<close> a failed \<open>assert\<close>; the others are
  undefined behaviour of C that the model detects.
\<close>

datatype fault =
    Exit_failure
  | Assert_failed
  | Null_deref
  | Use_after_free
  | Invalid_free
  | Out_of_bounds
  | Uninitialised_read
  | Signed_overflow

fun memory_error :: "fault \<Rightarrow> bool" where
  "memory_error Exit_failure = False"
| "memory_error Assert_failed = False"
| "memory_error Null_deref = True"
| "memory_error Use_after_free = True"
| "memory_error Invalid_free = True"
| "memory_error Out_of_bounds = True"
| "memory_error Uninitialised_read = True"
| "memory_error Signed_overflow = True"

section \<open>Sequencing\<close>

fun and_then :: "fault + 'a \<Rightarrow> ('a \<Rightarrow> fault + 'b) \<Rightarrow> fault + 'b" where
  "and_then (Inl e) f = Inl e"
| "and_then (Inr x) f = f x"

lemma and_then_eq_Inr:
  "and_then m f = Inr y \<longleftrightarrow> (\<exists>x. m = Inr x \<and> f x = Inr y)"
  by (cases m) auto

lemma and_then_eq_Inl:
  "and_then m f = Inl e \<longleftrightarrow> m = Inl e \<or> (\<exists>x. m = Inr x \<and> f x = Inl e)"
  by (cases m) auto

lemma and_then_assoc [simp]:
  "and_then (and_then m f) g = and_then m (\<lambda>x. and_then (f x) g)"
  by (cases m) auto

lemma and_then_if [simp]:
  "and_then (if b then m else n) f = (if b then and_then m f else and_then n f)"
  by simp

text \<open>A loop over a list whose body can fault.\<close>

fun fold_res :: "('a \<Rightarrow> 's \<Rightarrow> fault + 's) \<Rightarrow> 'a list \<Rightarrow> 's \<Rightarrow> fault + 's" where
  "fold_res f [] s = Inr s"
| "fold_res f (x # xs) s = and_then (f x s) (fold_res f xs)"

lemma fold_res_append [simp]:
  "fold_res f (xs @ ys) s = and_then (fold_res f xs s) (fold_res f ys)"
proof (induction xs arbitrary: s)
  case (Cons x xs)
  then have "fold_res f (xs @ ys) = (\<lambda>s. and_then (fold_res f xs s) (fold_res f ys))"
    by (simp add: fun_eq_iff)
  then show ?case by simp
qed simp

section \<open>Contracts\<close>

text \<open>
  \<open>sat E P m\<close>: the step \<open>m\<close> either faults with a fault allowed by \<open>E\<close> or returns a
  value satisfying \<open>P\<close>. With \<open>E = (\<lambda>_. True)\<close> it is partial correctness, with
  \<open>E = (\<lambda>_. False)\<close> total correctness, and with \<open>E = (\<lambda>e. \<not> memory_error e)\<close> it says
  that the step has no undefined behaviour.
\<close>

definition sat :: "(fault \<Rightarrow> bool) \<Rightarrow> ('a \<Rightarrow> bool) \<Rightarrow> fault + 'a \<Rightarrow> bool" where
  "sat E P m = (case m of Inl e \<Rightarrow> E e | Inr x \<Rightarrow> P x)"

abbreviation partial :: "('a \<Rightarrow> bool) \<Rightarrow> fault + 'a \<Rightarrow> bool" where
  "partial P m \<equiv> sat (\<lambda>_. True) P m"

abbreviation total :: "('a \<Rightarrow> bool) \<Rightarrow> fault + 'a \<Rightarrow> bool" where
  "total P m \<equiv> sat (\<lambda>_. False) P m"

lemma sat_Inl [simp]: "sat E P (Inl e) = E e"
  by (simp add: sat_def)

lemma sat_Inr [simp]: "sat E P (Inr x) = P x"
  by (simp add: sat_def)

lemma sat_and_then [simp]:
  "sat E P (and_then m f) = sat E (\<lambda>x. sat E P (f x)) m"
  by (cases m) auto

lemma sat_if:
  "sat E P (if b then m else n) \<longleftrightarrow> (b \<longrightarrow> sat E P m) \<and> (\<not> b \<longrightarrow> sat E P n)"
  by simp

lemma sat_mono:
  assumes "sat E P m" and "\<And>x. P x \<Longrightarrow> Q x"
  shows "sat E Q m"
  using assms by (cases m) auto

lemma sat_bind:
  assumes "sat E Q m" and "\<And>x. Q x \<Longrightarrow> sat E P (f x)"
  shows "sat E P (and_then m f)"
  using assms by (cases m) auto

lemma sat_conj:
  "sat E (\<lambda>x. P x \<and> Q x) m \<longleftrightarrow> sat E P m \<and> sat E Q m"
  by (cases m) auto

lemma sat_weaken_fault:
  assumes "sat E P m" and "\<And>e. E e \<Longrightarrow> F e"
  shows "sat F P m"
  using assms by (cases m) auto

lemma sat_InrD: "sat E P m \<Longrightarrow> m = Inr x \<Longrightarrow> P x"
  by simp

lemma total_ex: "total P m \<longleftrightarrow> (\<exists>x. m = Inr x \<and> P x)"
  by (cases m) auto

lemma sat_fold_res:
  assumes "I s" and "\<And>x s. x \<in> set xs \<Longrightarrow> I s \<Longrightarrow> sat E I (f x s)"
  shows "sat E I (fold_res f xs s)"
  using assms
proof (induction xs arbitrary: s)
  case (Cons x xs)
  then have "sat E I (f x s)" by simp
  with Cons show ?case by (auto intro: sat_mono)
qed simp

section \<open>Big-endian 16-bit fields\<close>

text \<open>
  The packet structures hold \<open>htons(x)\<close>. Stored to memory by any host, that is the two
  bytes of \<open>x\<close>, high byte first; reading them back through \<open>ntohs\<close> gives \<open>x\<close>.
\<close>

definition be16 :: "16 word \<Rightarrow> byte list" where
  "be16 x = [char_of (unat x div 256), char_of (unat x mod 256)]"

definition of_be16 :: "byte \<Rightarrow> byte \<Rightarrow> 16 word" where
  "of_be16 a b = word_of_nat (of_char a * 256 + of_char b)"

lemma length_be16 [simp]: "length (be16 x) = 2"
  by (simp add: be16_def)

lemma unat_16_less: "unat (x :: 16 word) < 65536"
  using unsigned_less [of x] by simp

lemma of_char_nat_less: "(of_char c :: nat) < 256"
  by (metis of_char_mod_256 mod_less_divisor zero_less_numeral)

lemma unat_of_be16: "unat (of_be16 a b) = of_char a * 256 + of_char b"
proof -
  have "(of_char a :: nat) * 256 + of_char b < 65536"
    using of_char_nat_less [of a] of_char_nat_less [of b] by linarith
  then show ?thesis
    unfolding of_be16_def by (subst unat_of_nat) simp
qed

lemma of_be16_bytes [simp]:
  "of_be16 (char_of (unat x div 256)) (char_of (unat x)) = x"
proof -
  have "unat x div 256 < 256"
    using unat_16_less [of x] by simp
  then have "of_be16 (char_of (unat x div 256)) (char_of (unat x))
      = word_of_nat (unat x div 256 * 256 + unat x mod 256)"
    unfolding of_be16_def of_char_of by simp
  also have "\<dots> = x"
    unfolding div_mult_mod_eq by simp
  finally show ?thesis .
qed

lemma of_be16_be16: "be16 x = [a, b] \<Longrightarrow> of_be16 a b = x"
  by (auto simp: be16_def)

lemma be16_inject [simp]: "be16 x = be16 y \<longleftrightarrow> x = y"
  by (metis be16_def of_be16_be16)

lemma be16_of_be16: "be16 (of_be16 a b) = [a, b]"
  using of_char_nat_less [of b] by (simp add: be16_def unat_of_be16)

section \<open>Signed 16-bit values\<close>

lemma sint_16_range: "- 32768 \<le> sint (x :: 16 word)" "sint x < 32768"
  using sint_greater_eq [of x] sint_less [of x] by simp_all

lemma sint_16_eq: "sint (x :: 16 word) = sint y \<longleftrightarrow> x = y"
  by (rule word_eq_iff_signed [symmetric])

text \<open>Negation in short agrees with negation in int but for the least value.\<close>

lemma sint_uminus_16:
  fixes x :: "16 word"
  assumes "x \<noteq> 0x8000"
  shows "sint (- x) = - sint x"
proof -
  have "sint x \<noteq> - 32768"
  proof
    assume "sint x = - 32768"
    then have "word_of_int (sint x) = (word_of_int (- 32768) :: 16 word)" by simp
    then show False using assms by simp
  qed
  moreover have "- x = word_of_int (- sint x)"
    by simp
  ultimately show ?thesis
    using sint_16_range [of x]
    by (simp add: signed_of_int signed_take_bit_int_eq_self del: of_int_minus of_int_sint)
qed

section \<open>List lemmas\<close>

lemma take_list_update_append:
  "n < length xs \<Longrightarrow> take (Suc n) (xs[n := x]) = take n xs @ [x]"
  by (simp add: take_Suc_conv_app_nth)

lemma find_snoc: "\<forall>x \<in> set xs. \<not> P x \<Longrightarrow> find P (xs @ [y]) = (if P y then Some y else None)"
  by (induction xs) auto

end
