(* ===== verification/Text.thy ===== *)
theory Text
  imports Prelude
begin

text \<open>
  C strings: the functions of the C library the program applies to them
  (\<open>strcasecmp\<close>, \<open>strtol\<close>, decimal conversion), and the string code of the program
  itself: \<open>FixPath\<close> of src/src/filesystem.c, \<open>SizeReduce\<close> of src/src/misc.c and the
  macro \<open>GetNext\<close> of src/src/process.c. A C string is the list of its bytes before the
  terminating NUL; \<open>cstring\<close> says that a list of bytes is one.
\<close>

definition cstring :: "string \<Rightarrow> bool" where
  "cstring s \<longleftrightarrow> NUL \<notin> set s"

lemma cstring_simps [simp]:
  "cstring []" "cstring (c # s) \<longleftrightarrow> c \<noteq> NUL \<and> cstring s" "cstring (s @ t) \<longleftrightarrow> cstring s \<and> cstring t"
  by (auto simp: cstring_def)

lemma takeWhile_cstring [simp]: "cstring s \<Longrightarrow> takeWhile (\<lambda>c. c \<noteq> NUL) (s @ NUL # t) = s"
  by (induction s) auto

lemma takeWhile_is_cstring [simp]: "cstring (takeWhile (\<lambda>c. c \<noteq> NUL) s)"
  by (induction s) auto

section \<open>Comparison without case\<close>

definition lower :: "char \<Rightarrow> char" where
  "lower c = (if 65 \<le> (of_char c :: nat) \<and> of_char c \<le> (90 :: nat)
     then char_of (of_char c + 32 :: nat) else c)"

fun strcasecmp :: "string \<Rightarrow> string \<Rightarrow> int" where
  "strcasecmp [] [] = 0"
| "strcasecmp [] (b # bs) = - of_char (lower b)"
| "strcasecmp (a # as) [] = of_char (lower a)"
| "strcasecmp (a # as) (b # bs) =
     (if lower a = lower b then strcasecmp as bs else of_char (lower a) - of_char (lower b))"

lemma of_char_int_0 [simp]: "(of_char c :: int) = 0 \<longleftrightarrow> c = NUL"
  using of_char_eq_iff [where 'a = int, of c NUL] by simp

lemma lower_NUL [simp]: "lower c = NUL \<longleftrightarrow> c = NUL"
proof -
  have "of_char (char_of (of_char c + 32 :: nat)) = (of_char c + 32) mod (256 :: nat)"
    by simp
  then show ?thesis
    by (auto simp: lower_def dest: arg_cong [where f = "of_char :: char \<Rightarrow> nat"])
qed

lemma strcasecmp_0_iff:
  "cstring s \<Longrightarrow> cstring t \<Longrightarrow> strcasecmp s t = 0 \<longleftrightarrow> map lower s = map lower t"
  by (induction s t rule: strcasecmp.induct) auto

section \<open>Numbers in decimal\<close>

definition digit_char :: "nat \<Rightarrow> char" where
  "digit_char d = char_of (48 + d)"

definition is_digit :: "char \<Rightarrow> bool" where
  "is_digit c \<longleftrightarrow> 48 \<le> (of_char c :: nat) \<and> of_char c \<le> (57 :: nat)"

definition digit_value :: "char \<Rightarrow> nat" where
  "digit_value c = of_char c - 48"

text \<open>The conversion \<open>%zu\<close> of \<open>printf\<close>, and \<open>%ld\<close> on top of it.\<close>

fun dec_nat :: "nat \<Rightarrow> string" where
  "dec_nat n = (if n < 10 then [digit_char n] else dec_nat (n div 10) @ [digit_char (n mod 10)])"

declare dec_nat.simps [simp del]

definition dec_int :: "int \<Rightarrow> string" where
  "dec_int i = (if i < 0 then ''-'' @ dec_nat (nat (- i)) else dec_nat (nat i))"

definition is_space :: "char \<Rightarrow> bool" where
  "is_space c \<longleftrightarrow> c = CHR '' '' \<or> (9 \<le> (of_char c :: nat) \<and> of_char c \<le> (13 :: nat))"

fun digits_value :: "nat \<Rightarrow> string \<Rightarrow> nat" where
  "digits_value acc [] = acc"
| "digits_value acc (c # cs) =
     (if is_digit c then digits_value (10 * acc + digit_value c) cs else acc)"

text \<open>
  \<open>strtol(s, NULL, 10)\<close> with 64-bit \<open>long\<close>: leading white space, an optional sign,
  digits up to the first other character; out of range it saturates and sets \<open>errno\<close> to
  \<open>ERANGE\<close>, which the boolean reports.
\<close>

definition LONG_MAX :: int where "LONG_MAX = 2 ^ 63 - 1"
definition LONG_MIN :: int where "LONG_MIN = - (2 ^ 63)"

definition strtol :: "string \<Rightarrow> int \<times> bool" where
  "strtol s =
     (let t = dropWhile is_space s;
          v = (case t of
                 [] \<Rightarrow> 0
               | c # cs \<Rightarrow>
                   if c = CHR ''-'' then - int (digits_value 0 cs)
                   else if c = CHR ''+'' then int (digits_value 0 cs)
                   else int (digits_value 0 t))
      in if v > LONG_MAX then (LONG_MAX, True)
         else if v < LONG_MIN then (LONG_MIN, True)
         else (v, False))"

lemma of_char_digit_char: "d < 10 \<Longrightarrow> (of_char (digit_char d) :: nat) = 48 + d"
  by (simp add: digit_char_def)

lemma is_digit_digit_char [simp]: "d < 10 \<Longrightarrow> is_digit (digit_char d)"
  by (simp add: is_digit_def of_char_digit_char)

lemma digit_value_digit_char [simp]: "d < 10 \<Longrightarrow> digit_value (digit_char d) = d"
  by (simp add: digit_value_def of_char_digit_char)

lemma digits_value_append:
  "(\<And>c. c \<in> set s \<Longrightarrow> is_digit c) \<Longrightarrow> digits_value acc (s @ t) = digits_value (digits_value acc s) t"
  by (induction s arbitrary: acc) auto

lemma dec_nat_digits: "c \<in> set (dec_nat n) \<Longrightarrow> is_digit c"
proof (induction n rule: dec_nat.induct)
  case (1 n)
  then show ?case
    by (subst (asm) (2) dec_nat.simps) (auto split: if_splits)
qed

lemma dec_nat_nonempty [simp]: "dec_nat n \<noteq> []"
  by (subst dec_nat.simps) simp

lemma digits_value_dec_nat: "digits_value 0 (dec_nat n) = n"
proof (induction n rule: dec_nat.induct)
  case (1 n)
  show ?case
  proof (cases "n < 10")
    case True
    then show ?thesis by (subst dec_nat.simps) simp
  next
    case False
    with 1 show ?thesis
      by (subst dec_nat.simps) (simp add: digits_value_append dec_nat_digits)
  qed
qed

lemma digit_not_special:
  assumes "is_digit c"
  shows "\<not> is_space c" "c \<noteq> CHR ''-''" "c \<noteq> CHR ''+''" "c \<noteq> NUL"
  using assms by (auto simp: is_digit_def is_space_def)

lemma strtol_dec_nat:
  assumes "int n \<le> LONG_MAX"
  shows "strtol (dec_nat n) = (int n, False)"
proof -
  obtain c cs where c: "dec_nat n = c # cs"
    by (metis dec_nat_nonempty list.exhaust)
  then have "is_digit c"
    using dec_nat_digits [of c n] by simp
  then have "strtol (dec_nat n) = (if int n > LONG_MAX then (LONG_MAX, True)
      else if int n < LONG_MIN then (LONG_MIN, True) else (int n, False))"
    using c digit_not_special [of c] digits_value_dec_nat [of n]
    by (simp add: strtol_def Let_def)
  then show ?thesis
    using assms by (simp add: LONG_MIN_def)
qed

lemma strtol_bounds: "LONG_MIN \<le> fst (strtol s) \<and> fst (strtol s) \<le> LONG_MAX"
  by (auto simp: strtol_def Let_def LONG_MAX_def LONG_MIN_def)

lemma cstring_dec_nat [simp]: "cstring (dec_nat n)"
  using dec_nat_digits [of NUL n] digit_not_special(4) by (auto simp: cstring_def)

lemma length_dec_nat: "n < 10 ^ k \<Longrightarrow> 0 < k \<Longrightarrow> length (dec_nat n) \<le> k"
proof (induction n arbitrary: k rule: dec_nat.induct)
  case (1 n)
  show ?case
  proof (cases "n < 10")
    case True
    with "1.prems" show ?thesis by (subst dec_nat.simps) simp
  next
    case False
    then obtain j where k: "k = Suc j" "0 < j"
      using "1.prems" by (cases k; cases "k - 1") auto
    with "1.prems" have "n div 10 < 10 ^ j"
      by (simp add: div_less_iff_less_mult mult.commute)
    with "1.IH" False k have "length (dec_nat (n div 10)) \<le> j"
      by simp
    with False k show ?thesis by (subst dec_nat.simps) simp
  qed
qed

lemma length_dec_int:
  assumes "LONG_MIN \<le> i" "i \<le> LONG_MAX"
  shows "length (dec_int i) \<le> 20"
proof -
  have "nat \<bar>i\<bar> < 10 ^ 19"
    using assms by (simp add: LONG_MIN_def LONG_MAX_def nat_less_iff)
  from length_dec_nat [OF this] have "length (dec_nat (nat \<bar>i\<bar>)) \<le> 19" by simp
  then show ?thesis by (cases "i < 0") (simp_all add: dec_int_def)
qed

section \<open>FixPath\<close>

text \<open>
  src/src/filesystem.c, \<open>FixPath\<close>: the loop \<open>while (len--)\<close> runs over the string from
  its end and turns each backslash into a slash.
\<close>

fun fix_path_from :: "nat \<Rightarrow> string \<Rightarrow> string" where
  "fix_path_from 0 s = s"
| "fix_path_from (Suc n) s =
     fix_path_from n (if s ! n = CHR 0x5C then s[n := CHR ''/''] else s)"

definition FixPath :: "string \<Rightarrow> string" where
  "FixPath s = fix_path_from (length s) s"

definition fix_char :: "char \<Rightarrow> char" where
  "fix_char c = (if c = CHR 0x5C then CHR ''/'' else c)"

lemma fix_path_from_spec:
  "n \<le> length s \<Longrightarrow> fix_path_from n s = map fix_char (take n s) @ drop n s"
proof (induction n arbitrary: s)
  case (Suc n)
  let ?t = "s[n := fix_char (s ! n)]"
  have "(if s ! n = CHR 0x5C then s[n := CHR ''/''] else s) = ?t"
    by (simp add: fix_char_def)
  then have "fix_path_from (Suc n) s = map fix_char (take n ?t) @ drop n ?t"
    using Suc by simp
  also have "drop n ?t = fix_char (s ! n) # drop (Suc n) s"
    using Suc.prems by (simp add: drop_update_swap flip: Cons_nth_drop_Suc)
  finally show ?case
    using Suc.prems by (simp add: take_Suc_conv_app_nth)
qed simp

lemma FixPath_map: "FixPath s = map fix_char s"
  by (simp add: FixPath_def fix_path_from_spec)

lemma FixPath_idem: "FixPath (FixPath s) = FixPath s"
  by (simp add: FixPath_map fix_char_def)

lemma cstring_FixPath [simp]: "cstring (FixPath s) \<longleftrightarrow> cstring s"
  by (auto simp: FixPath_map cstring_def fix_char_def image_iff)

section \<open>SizeReduce\<close>

definition size_names :: "string list" where
  "size_names = [''B'', ''KB'', ''MB'', ''GB'', ''TB'', ''PB'', ''EB'', ''ZB'', ''YB'']"

text \<open>src/src/misc.c: \<open>for (sz = 0; size > 1024; size >>= 10, sz++)\<close>.\<close>

lemma unat_drop_10: "unat (drop_bit 10 (n :: 64 word)) = unat n div 1024"
  by (simp add: drop_bit_eq_div unat_div)

function size_reduce_loop :: "64 word \<Rightarrow> nat \<Rightarrow> 64 word \<times> nat" where
  "size_reduce_loop n sz = (if 1024 < n then size_reduce_loop (drop_bit 10 n) (Suc sz) else (n, sz))"
  by pat_completeness auto
termination
  by (relation "measure (\<lambda>(n, _). unat n)")
    (auto simp: unat_drop_10 word_less_nat_alt)

declare size_reduce_loop.simps [simp del]

definition SizeReduce :: "64 word \<Rightarrow> string" where
  "SizeReduce n =
     (case size_reduce_loop n 0 of (m, sz) \<Rightarrow>
       dec_nat (unat m) @ '' '' @
       (if length size_names \<le> sz then ''(Hello Future!)'' else size_names ! sz))"

lemma size_reduce_loop_bound:
  "unat n < 1024 ^ Suc k \<Longrightarrow> unat (fst (size_reduce_loop n sz)) \<le> 1024
    \<and> snd (size_reduce_loop n sz) \<le> sz + k"
proof (induction k arbitrary: n sz)
  case 0
  then show ?case
    by (subst (1 2) size_reduce_loop.simps) (simp add: word_less_nat_alt)
next
  case (Suc k)
  show ?case
  proof (cases "1024 < n")
    case True
    have "unat (drop_bit 10 n) < 1024 ^ Suc k"
      using Suc.prems by (simp add: unat_drop_10 div_less_iff_less_mult mult.commute)
    from Suc.IH [OF this, of "Suc sz"] True show ?thesis
      by (subst (1 2) size_reduce_loop.simps) simp
  next
    case False
    then show ?thesis
      by (subst (1 2) size_reduce_loop.simps) (simp add: word_less_nat_alt)
  qed
qed

lemma size_reduce_loop_64:
  "unat (fst (size_reduce_loop n 0)) \<le> 1024 \<and> snd (size_reduce_loop n 0) \<le> 6"
proof -
  have "unat n < 2 ^ 64"
    by (rule order_less_le_trans [OF unsigned_less]) simp
  then have "unat n < 1024 ^ Suc 6"
    by simp
  from size_reduce_loop_bound [OF this, of 0] show ?thesis
    by simp
qed

lemma SizeReduce_length: "length (SizeReduce n) \<le> 7"
proof -
  obtain m sz where ms: "size_reduce_loop n 0 = (m, sz)"
    by (meson surj_pair)
  then have "unat m < 10 ^ 4" "sz \<le> 6"
    using size_reduce_loop_64 [of n] by simp_all
  from length_dec_nat [OF this(1)] have "length (dec_nat (unat m)) \<le> 4"
    by simp
  moreover have "length (size_names ! sz) \<le> 2"
    using \<open>sz \<le> 6\<close> by (auto simp: size_names_def nth_Cons split: nat.split)
  ultimately show ?thesis
    using \<open>sz \<le> 6\<close> by (simp add: SizeReduce_def ms size_names_def)
qed

section \<open>GetNext\<close>

text \<open>
  The macro \<open>GetNext(str, data, mlen)\<close> on the buffer \<open>buf\<close> and the offset \<open>off\<close> of
  \<open>data\<close> in it: \<open>strndupa\<close> reads up to \<open>mlen\<close> bytes, stopping at a NUL, which has to
  happen inside the buffer; the pointer then moves past the string and one byte more.
\<close>

definition GetNext :: "byte list \<Rightarrow> nat \<Rightarrow> nat \<Rightarrow> fault + string \<times> nat" where
  "GetNext buf off mlen =
     (let s = takeWhile (\<lambda>c. c \<noteq> NUL) (take mlen (drop off buf))
      in if length s < mlen \<and> length buf \<le> off + length s then Inl Out_of_bounds
         else Inr (s, off + length s + 1))"

lemma GetNext_cstring: "GetNext buf off mlen = Inr (s, off') \<Longrightarrow> cstring s \<and> off' = off + length s + 1"
  by (auto simp: GetNext_def Let_def split: if_splits)

lemma GetNext_at:
  assumes buf: "drop off buf = s @ NUL # t" and "cstring s" "length s < mlen"
  shows "GetNext buf off mlen = Inr (s, off + length s + 1)"
proof -
  obtain k where k: "mlen = length s + Suc k"
    using assms(3) less_iff_Suc_add by auto
  have s: "takeWhile (\<lambda>c. c \<noteq> NUL) (take mlen (drop off buf)) = s"
    unfolding buf k using assms(2) by simp
  have "length (drop off buf) = length s + Suc (length t)"
    unfolding buf by simp
  then have "off + length s < length buf"
    by simp
  then show ?thesis
    unfolding GetNext_def s by simp
qed

text \<open>
  In a buffer that is zero from \<open>n\<close> on, \<open>GetNext\<close> stops at or before \<open>n\<close>, so it never
  leaves the buffer while the offset is inside it.
\<close>

lemma GetNext_zero_tail:
  assumes tail: "\<And>i. n \<le> i \<Longrightarrow> i < length buf \<Longrightarrow> buf ! i = NUL"
    and off: "off < length buf" and n: "n < length buf"
  shows "\<exists>s. GetNext buf off mlen = Inr (s, off + length s + 1) \<and> off + length s \<le> max off n"
proof -
  let ?s = "takeWhile (\<lambda>c. c \<noteq> NUL) (take mlen (drop off buf))"
  let ?k = "max off n - off"
  have le: "off + length ?s \<le> max off n"
  proof (rule ccontr)
    assume "\<not> off + length ?s \<le> max off n"
    then have k: "?k < length ?s" by simp
    then have "?k < length (take mlen (drop off buf))"
      using length_takeWhile_le less_le_trans by blast
    moreover from k have "?s ! ?k = take mlen (drop off buf) ! ?k"
      by (rule takeWhile_nth)
    ultimately have "?s ! ?k = buf ! (off + ?k)"
      using off by (simp del: max.absorb1 max.absorb2 max.absorb3 max.absorb4)
    moreover have "buf ! (off + ?k) = NUL"
      using tail [of "off + ?k"] off n by simp
    ultimately have "NUL \<in> set ?s"
      using nth_mem [OF k] by simp
    then show False
      by (auto dest: set_takeWhileD)
  qed
  with off n have "off + length ?s < length buf"
    by (simp add: max_def split: if_splits)
  then show ?thesis
    using le by (auto simp: GetNext_def Let_def)
qed

end
