(* ===== verification/Memory.thy ===== *)
theory Memory
  imports Prelude
begin

text \<open>
  The C heap as the program uses it: blocks of bytes behind addresses, with
  \<open>malloc\<close>, \<open>free\<close>, \<open>memset\<close>, \<open>memcpy\<close> and \<open>strdup\<close> of the C library, and
  \<open>nmalloc\<close> of src/src/misc.c on top of them. Every access checks that the pointer is
  not null, that its block is alive and that the bytes lie inside the block; an access
  that fails the check is a fault of the model, where C has undefined behaviour.

  The locale \<open>block_memory\<close> is the interface the packet builders of src/src/packet.c
  rely on (allocate a zeroed block, then fill it part by part); it is interpreted on
  \<open>nmalloc\<close> and \<open>store\<close>.
\<close>

section \<open>Heap\<close>

text \<open>
  \<open>blocks\<close> are the live blocks. \<open>brk\<close> counts the allocations made so far and is the
  next address handed out, so that an address is never reused and a stale pointer is
  always recognised. \<open>oom k\<close> says that the allocation number \<open>k\<close> finds no memory:
  the theorems hold for every choice of it. \<open>junk\<close> is what fresh memory holds.
\<close>

record heap =
  blocks :: "addr \<rightharpoonup> byte list"
  brk :: addr
  oom :: "nat \<Rightarrow> bool"
  junk :: byte

definition heap_wf :: "heap \<Rightarrow> bool" where
  "heap_wf h \<longleftrightarrow> 0 < brk h \<and> (\<forall>p. blocks h p \<noteq> None \<longrightarrow> 0 < p \<and> p < brk h)"

text \<open>No allocation fails: the hypothesis of the total-correctness theorems.\<close>

definition mem_ok :: "heap \<Rightarrow> bool" where
  "mem_ok h \<longleftrightarrow> (\<forall>k. \<not> oom h k)"

section \<open>The C library's memory functions\<close>

definition malloc :: "nat \<Rightarrow> heap \<Rightarrow> addr \<times> heap" where
  "malloc sz h =
     (if oom h (brk h) then (NULL, h\<lparr>brk := Suc (brk h)\<rparr>)
      else (brk h, h\<lparr>blocks := (blocks h)(brk h \<mapsto> replicate sz (junk h)),
                     brk := Suc (brk h)\<rparr>))"

definition load :: "addr \<Rightarrow> nat \<Rightarrow> nat \<Rightarrow> heap \<Rightarrow> fault + byte list" where
  "load p off n h =
     (if p = NULL then Inl Null_deref
      else case blocks h p of
        None \<Rightarrow> Inl Use_after_free
      | Some b \<Rightarrow>
          if off + n \<le> length b then Inr (take n (drop off b)) else Inl Out_of_bounds)"

definition store :: "addr \<Rightarrow> nat \<Rightarrow> byte list \<Rightarrow> heap \<Rightarrow> fault + heap" where
  "store p off bs h =
     (if p = NULL then Inl Null_deref
      else case blocks h p of
        None \<Rightarrow> Inl Use_after_free
      | Some b \<Rightarrow>
          if off + length bs \<le> length b
          then Inr (h\<lparr>blocks := (blocks h)(p \<mapsto> take off b @ bs @ drop (off + length bs) b)\<rparr>)
          else Inl Out_of_bounds)"

definition memset :: "addr \<Rightarrow> byte \<Rightarrow> nat \<Rightarrow> heap \<Rightarrow> fault + heap" where
  "memset p c n = store p 0 (replicate n c)"

text \<open>\<open>free(NULL)\<close> does nothing; freeing anything but a live block is undefined.\<close>

definition free :: "addr \<Rightarrow> heap \<Rightarrow> fault + heap" where
  "free p h =
     (if p = NULL then Inr h
      else if blocks h p = None then Inl Invalid_free
      else Inr (h\<lparr>blocks := (blocks h)(p := None)\<rparr>))"

text \<open>Reading a C string: the bytes up to the first NUL, which must lie in the block.\<close>

definition load_cstr :: "addr \<Rightarrow> heap \<Rightarrow> fault + string" where
  "load_cstr p h =
     (if p = NULL then Inl Null_deref
      else case blocks h p of
        None \<Rightarrow> Inl Use_after_free
      | Some b \<Rightarrow>
          if NUL \<in> set b then Inr (takeWhile (\<lambda>c. c \<noteq> NUL) b) else Inl Out_of_bounds)"

text \<open>\<open>strdup\<close> returns a null pointer when there is no memory.\<close>

definition strdup :: "string \<Rightarrow> heap \<Rightarrow> addr \<times> heap" where
  "strdup s h =
     (case malloc (length s + 1) h of
        (p, h1) \<Rightarrow>
          if p = NULL then (NULL, h1)
          else (p, h1\<lparr>blocks := (blocks h1)(p \<mapsto> s @ [NUL])\<rparr>))"

text \<open>
  src/src/misc.c, \<open>vasprintf\<close> and \<open>stringify\<close>, on the text the format and its arguments
  expand to, \<open>None\<close> when \<open>vsnprintf\<close> reports an error: the length or -1, the pointer that is
  stored, and the heap.
\<close>

definition vasprintf :: "string option \<Rightarrow> heap \<Rightarrow> int \<times> addr \<times> heap" where
  "vasprintf out h =
     (case out of
        None \<Rightarrow> (- 1, NULL, h)
      | Some s \<Rightarrow>
          (case malloc (length s + 1) h of
             (p, h1) \<Rightarrow>
               if p = NULL then (- 1, NULL, h1)
               else (int (length s), p, h1\<lparr>blocks := (blocks h1)(p \<mapsto> s @ [NUL])\<rparr>)))"

definition stringify :: "string option \<Rightarrow> heap \<Rightarrow> addr \<times> heap" where
  "stringify out h = (case vasprintf out h of (_, ret, h1) \<Rightarrow> (ret, h1))"

lemma vasprintf_strdup:
  "vasprintf (Some s) h =
     (case strdup s h of (p, h1) \<Rightarrow> (if p = NULL then - 1 else int (length s), p, h1))"
  by (auto simp: vasprintf_def strdup_def split: prod.splits)

section \<open>nmalloc\<close>

text \<open>
  src/src/misc.c, \<open>nmalloc\<close>: one byte is requested when the size is 0; failure ends the
  program; the \<open>sz\<close> bytes are zeroed.
\<close>

definition nmalloc :: "nat \<Rightarrow> heap \<Rightarrow> fault + addr \<times> heap" where
  "nmalloc sz h =
     (case malloc (if sz \<noteq> 0 then sz else 1) h of
        (p, h1) \<Rightarrow>
          if p = NULL then Inl Exit_failure
          else and_then (memset p NUL sz h1) (\<lambda>h2. Inr (p, h2)))"

lemma nmalloc_eq:
  "0 < brk h \<Longrightarrow> nmalloc sz h =
     (if oom h (brk h) then Inl Exit_failure
      else Inr (brk h,
        h\<lparr>blocks := (blocks h)(brk h \<mapsto> (if sz = 0 then [junk h] else replicate sz NUL)),
          brk := Suc (brk h)\<rparr>))"
  by (simp add: nmalloc_def malloc_def memset_def store_def)

lemma strdup_eq:
  "0 < brk h \<Longrightarrow> strdup s h =
     (if oom h (brk h) then (NULL, h\<lparr>brk := Suc (brk h)\<rparr>)
      else (brk h, h\<lparr>blocks := (blocks h)(brk h \<mapsto> s @ [NUL]), brk := Suc (brk h)\<rparr>))"
  by (simp add: strdup_def malloc_def)

section \<open>Frames\<close>

text \<open>
  \<open>extends h h'\<close>: everything \<open>h\<close> had is still there, unchanged; \<open>h'\<close> may only have
  new blocks behind addresses \<open>h\<close> had not handed out.
\<close>

definition extends :: "heap \<Rightarrow> heap \<Rightarrow> bool" where
  "extends h h' \<longleftrightarrow>
     brk h \<le> brk h' \<and> oom h' = oom h \<and> junk h' = junk h
     \<and> (\<forall>p < brk h. blocks h' p = blocks h p)"

lemma extends_refl [simp, intro]: "extends h h"
  by (simp add: extends_def)

lemma extends_trans [trans]: "extends h h' \<Longrightarrow> extends h' h'' \<Longrightarrow> extends h h''"
  by (simp add: extends_def)

lemma extends_mem_ok: "extends h h' \<Longrightarrow> mem_ok h' = mem_ok h"
  by (simp add: extends_def mem_ok_def)

lemma heap_wf_brk: "heap_wf h \<Longrightarrow> 0 < brk h"
  by (simp add: heap_wf_def)

lemma heap_wf_live: "heap_wf h \<Longrightarrow> blocks h p = Some b \<Longrightarrow> 0 < p \<and> p < brk h"
  by (simp add: heap_wf_def)

lemma heap_wf_fresh: "heap_wf h \<Longrightarrow> brk h \<le> p \<Longrightarrow> blocks h p = None"
  by (meson heap_wf_def leD not_None_eq)

lemma extends_live:
  "heap_wf h \<Longrightarrow> extends h h' \<Longrightarrow> blocks h p = Some b \<Longrightarrow> blocks h' p = Some b"
  by (metis extends_def heap_wf_live)

section \<open>The interface: allocate, then fill\<close>

text \<open>Writing parts one behind the other, as the packet builders do.\<close>

fun write_parts ::
  "(addr \<Rightarrow> nat \<Rightarrow> byte list \<Rightarrow> 'h \<Rightarrow> fault + 'h) \<Rightarrow> addr \<Rightarrow> nat \<Rightarrow> byte list list \<Rightarrow> 'h \<Rightarrow> fault + 'h"
where
  "write_parts put p off [] h = Inr h"
| "write_parts put p off (x # xs) h =
     and_then (put p off x h) (write_parts put p (off + length x) xs)"

locale block_memory =
  fixes get :: "'h \<Rightarrow> addr \<Rightarrow> byte list option"
    and ok :: "'h \<Rightarrow> bool"
    and alloc :: "nat \<Rightarrow> 'h \<Rightarrow> fault + addr \<times> 'h"
    and put :: "addr \<Rightarrow> nat \<Rightarrow> byte list \<Rightarrow> 'h \<Rightarrow> fault + 'h"
  assumes alloc_law:
      "ok h \<Longrightarrow> 0 < n \<Longrightarrow> alloc n h = Inr (p, h') \<Longrightarrow>
         ok h' \<and> get h p = None \<and> get h' p = Some (replicate n NUL)
         \<and> (\<forall>q. q \<noteq> p \<longrightarrow> get h' q = get h q)"
    and put_law:
      "ok h \<Longrightarrow> get h p = Some b \<Longrightarrow> off + length bs \<le> length b \<Longrightarrow>
         \<exists>h'. put p off bs h = Inr h' \<and> ok h'
           \<and> get h' p = Some (take off b @ bs @ drop (off + length bs) b)
           \<and> (\<forall>q. q \<noteq> p \<longrightarrow> get h' q = get h q)"
begin

lemma write_parts_block:
  assumes "ok h" "get h p = Some (done @ replicate n NUL)" "length (concat xs) \<le> n"
  shows "\<exists>h'. write_parts put p (length done) xs h = Inr h' \<and> ok h'
    \<and> get h' p = Some (done @ concat xs @ replicate (n - length (concat xs)) NUL)
    \<and> (\<forall>q. q \<noteq> p \<longrightarrow> get h' q = get h q)"
  using assms
proof (induction xs arbitrary: h "done" n)
  case Nil
  then show ?case by simp
next
  case (Cons x xs)
  from Cons.prems(3) have fits: "length done + length x \<le> length (done @ replicate n NUL)"
    and rest: "length (concat xs) \<le> n - length x"
    by auto
  from put_law [OF Cons.prems(1,2) fits] obtain h1 where h1:
    "put p (length done) x h = Inr h1" "ok h1"
    "get h1 p = Some ((done @ x) @ replicate (n - length x) NUL)"
    "\<forall>q. q \<noteq> p \<longrightarrow> get h1 q = get h q"
    by auto
  from Cons.IH [OF h1(2,3) rest] h1 show ?case
    by auto
qed

text \<open>
  A block allocated with room for the parts ends up holding them, followed by the zero
  bytes that were left over; no other block changes.
\<close>

lemma alloc_write_parts:
  assumes "ok h" "0 < n" "alloc n h = Inr (p, h1)" "length (concat xs) \<le> n"
  shows "\<exists>h'. write_parts put p 0 xs h1 = Inr h' \<and> ok h' \<and> get h p = None
    \<and> get h' p = Some (concat xs @ replicate (n - length (concat xs)) NUL)
    \<and> (\<forall>q. q \<noteq> p \<longrightarrow> get h' q = get h q)"
proof -
  from alloc_law [OF assms(1,2,3)] have "ok h1" "get h p = None"
    "get h1 p = Some ([] @ replicate n NUL)" "\<forall>q. q \<noteq> p \<longrightarrow> get h1 q = get h q"
    by auto
  with write_parts_block [of h1 p "[]" n xs] assms(4) show ?thesis
    by auto
qed

end

lemma heap_wf_nmalloc: "heap_wf h \<Longrightarrow> nmalloc n h = Inr (p, h') \<Longrightarrow> heap_wf h'"
  by (auto simp: nmalloc_eq heap_wf_def less_Suc_eq split: if_splits)

lemma heap_wf_store: "heap_wf h \<Longrightarrow> store p off bs h = Inr h' \<Longrightarrow> heap_wf h'"
  by (auto simp: store_def heap_wf_def split: if_splits option.splits)

lemma heap_wf_free: "heap_wf h \<Longrightarrow> free p h = Inr h' \<Longrightarrow> heap_wf h'"
  by (auto simp: free_def heap_wf_def split: if_splits)

interpretation cheap: block_memory blocks heap_wf nmalloc store
proof unfold_locales
  fix h n p h'
  assume "heap_wf h" "0 < n" "nmalloc n h = Inr (p, h')"
  moreover from this have "heap_wf h'"
    by (blast intro: heap_wf_nmalloc)
  ultimately show "heap_wf h' \<and> blocks h p = None \<and> blocks h' p = Some (replicate n NUL)
      \<and> (\<forall>q. q \<noteq> p \<longrightarrow> blocks h' q = blocks h q)"
    by (auto simp: nmalloc_eq heap_wf_brk heap_wf_fresh split: if_splits)
next
  fix h p b off and bs :: "byte list"
  assume *: "heap_wf h" "blocks h p = Some b" "off + length bs \<le> length b"
  then have "p \<noteq> 0"
    using heap_wf_live by blast
  with * have "store p off bs h =
      Inr (h\<lparr>blocks := (blocks h)(p \<mapsto> take off b @ bs @ drop (off + length bs) b)\<rparr>)"
    by (simp add: store_def)
  with * show "\<exists>h'. store p off bs h = Inr h' \<and> heap_wf h'
      \<and> blocks h' p = Some (take off b @ bs @ drop (off + length bs) b)
      \<and> (\<forall>q. q \<noteq> p \<longrightarrow> blocks h' q = blocks h q)"
    using heap_wf_store by fastforce
qed

lemma store_frame:
  "store p off bs h = Inr h' \<Longrightarrow>
     brk h' = brk h \<and> oom h' = oom h \<and> junk h' = junk h
     \<and> (\<forall>q. q \<noteq> p \<longrightarrow> blocks h' q = blocks h q)"
  by (auto simp: store_def split: if_splits option.splits)

lemma write_parts_frame:
  "write_parts store p off xs h = Inr h' \<Longrightarrow> brk h' = brk h \<and> oom h' = oom h \<and> junk h' = junk h"
proof (induction xs arbitrary: off h)
  case (Cons x xs)
  then obtain h1 where "store p off x h = Inr h1"
      "write_parts store p (off + length x) xs h1 = Inr h'"
    by (auto simp: and_then_eq_Inr)
  with Cons.IH store_frame show ?case by metis
qed simp

text \<open>What the packet builders use: a fresh block, filled, in an otherwise unchanged heap.\<close>

lemma nmalloc_write_parts:
  assumes "heap_wf h" "0 < n" "nmalloc n h = Inr (p, h1)" "length (concat xs) \<le> n"
  shows "\<exists>h'. write_parts store p 0 xs h1 = Inr h' \<and> heap_wf h' \<and> extends h h'
    \<and> p = brk h \<and> brk h' = Suc (brk h)
    \<and> blocks h' p = Some (concat xs @ replicate (n - length (concat xs)) NUL)"
proof -
  from assms(1,3) have p: "p = brk h" and frame: "brk h1 = Suc (brk h)" "oom h1 = oom h"
      "junk h1 = junk h"
    by (auto simp: nmalloc_eq heap_wf_brk split: if_splits)
  from cheap.alloc_write_parts [OF assms] obtain h' where h':
    "write_parts store p 0 xs h1 = Inr h'" "heap_wf h'"
    "blocks h' p = Some (concat xs @ replicate (n - length (concat xs)) NUL)"
    "\<forall>q. q \<noteq> p \<longrightarrow> blocks h' q = blocks h q"
    by blast
  from write_parts_frame [OF h'(1)] h' p frame show ?thesis
    by (auto simp: extends_def)
qed

lemma strdup_brk: "strdup s h = (p, h') \<Longrightarrow> brk h' = Suc (brk h) \<and> oom h' = oom h"
  by (auto simp: strdup_def malloc_def split: if_splits)

lemma nmalloc_brk: "nmalloc n h = Inr (p, h') \<Longrightarrow> brk h' = Suc (brk h) \<and> oom h' = oom h"
  by (auto simp: nmalloc_def malloc_def memset_def and_then_eq_Inr split: if_splits dest!: store_frame)

lemma nmalloc_extends:
  "heap_wf h \<Longrightarrow> nmalloc n h = Inr (p, h') \<Longrightarrow> extends h h' \<and> p = brk h"
  by (auto simp: nmalloc_eq heap_wf_brk extends_def split: if_splits)

lemma nmalloc_total:
  "heap_wf h \<Longrightarrow> mem_ok h \<Longrightarrow> \<exists>h'. nmalloc n h = Inr (brk h, h')"
  by (simp add: nmalloc_eq heap_wf_brk mem_ok_def)

end
