(* ===== verification/Vec.thy ===== *)
theory Vec
  imports Memory
begin

text \<open>
  The growable vector of src/include/vec.h and src/src/vec.c, and \<open>reallocarray\<close> of
  src/src/reallocarray.c. A vector is the block \<open>data\<close> points to (a list of cells,
  \<open>None\<close> for a cell never written, the empty list for a null pointer), its \<open>length\<close> and
  its \<open>capacity\<close>, which the C code keeps apart from the real size of the block: after a
  failed reallocation the two differ, and a write through the stale capacity is the
  fault \<open>Out_of_bounds\<close>.

  The operations take the allocator's answer \<open>avail\<close> (does a request of that many bytes
  succeed?) and the element size \<open>memsz\<close>, and work on \<open>errno\<close> and the vector. The
  abstraction of a vector is the list of its elements (\<open>contents\<close>); the locale \<open>pool\<close>
  is what the rest of the program relies on, interpreted here on the vector and on the
  lists by which the rest of the model represents its vectors.
\<close>

section \<open>errno\<close>

text \<open>The values of Linux for the error numbers the program looks at.\<close>

definition ENOENT :: nat where "ENOENT = 2"
definition EINTR :: nat where "EINTR = 4"
definition EAGAIN :: nat where "EAGAIN = 11"
definition ENOMEM :: nat where "ENOMEM = 12"
definition EACCES :: nat where "EACCES = 13"
definition EISDIR :: nat where "EISDIR = 21"
definition ERANGE :: nat where "ERANGE = 34"

lemmas errno_defs = ENOENT_def EINTR_def EAGAIN_def ENOMEM_def EACCES_def EISDIR_def ERANGE_def

section \<open>reallocarray\<close>

text \<open>\<open>1UL << (sizeof(size_t) * 4)\<close> with 64-bit \<open>size_t\<close>.\<close>

definition MUL_NO_OVERFLOW :: "64 word" where
  "MUL_NO_OVERFLOW = push_bit 32 1"

text \<open>
  The result is the number of bytes \<open>realloc\<close> was asked for and delivered, or \<open>None\<close>
  for a null pointer.
\<close>

definition reallocarray :: "(64 word \<Rightarrow> bool) \<Rightarrow> 64 word \<Rightarrow> 64 word \<Rightarrow> 64 word option" where
  "reallocarray avail nmemb sz =
     (if (MUL_NO_OVERFLOW \<le> nmemb \<or> MUL_NO_OVERFLOW \<le> sz)
          \<and> 0 < nmemb \<and> (- 1) div nmemb < sz
      then None
      else if avail (sz * nmemb) then Some (sz * nmemb) else None)"

lemma unat_mult_small:
  "unat (a :: 64 word) * unat b < 2 ^ 64 \<Longrightarrow> unat (a * b) = unat a * unat b"
  by (simp add: unat_word_ariths)

lemma reallocarray_bytes:
  assumes "reallocarray avail nmemb sz = Some b"
  shows "unat b = unat nmemb * unat sz"
proof -
  have no: "\<not> ((MUL_NO_OVERFLOW \<le> nmemb \<or> MUL_NO_OVERFLOW \<le> sz)
      \<and> 0 < nmemb \<and> (- 1) div nmemb < sz)" and b: "b = sz * nmemb"
    using assms by (auto simp: reallocarray_def split: if_splits)
  have "unat sz * unat nmemb < 2 ^ 64"
  proof (cases "unat nmemb < 2 ^ 32 \<and> unat sz < 2 ^ 32")
    case True
    then have "unat sz * unat nmemb < 2 ^ 32 * 2 ^ 32"
      by (intro mult_strict_mono') auto
    then show ?thesis by simp
  next
    case False
    have mno: "unat MUL_NO_OVERFLOW = 2 ^ 32"
      by (simp add: MUL_NO_OVERFLOW_def)
    have "MUL_NO_OVERFLOW \<le> nmemb \<or> MUL_NO_OVERFLOW \<le> sz"
      using False by (auto simp: word_le_nat_alt mno not_less)
    with no have "nmemb = 0 \<or> sz \<le> (- 1) div nmemb"
      by (auto simp: not_less word_greater_zero_iff)
    then show ?thesis
    proof
      assume "sz \<le> (- 1) div nmemb"
      then have "unat sz \<le> unat (- 1 :: 64 word) div unat nmemb"
        by (simp add: word_le_nat_alt unat_div)
      then have "unat sz * unat nmemb \<le> unat (- 1 :: 64 word)"
        by (metis div_times_less_eq_dividend le_trans mult_le_mono1)
      also have "\<dots> < 2 ^ 64"
        using unsigned_less [of "- 1 :: 64 word"] by simp
      finally show ?thesis .
    qed simp
  qed
  then show ?thesis
    by (simp add: b unat_mult_small mult.commute)
qed

section \<open>Vectors\<close>

definition VEC_MIN_CAPACITY :: int where
  "VEC_MIN_CAPACITY = 4"

record 'a vec =
  vdata :: "'a option list"
  vlength :: int
  vcapacity :: int

definition contents :: "'a vec \<Rightarrow> 'a list" where
  "contents v = map the (take (nat (vlength v)) (vdata v))"

text \<open>
  A well-formed vector: the length is within the capacity, the capacity is the size of
  the block, and the cells below the length have been written.
\<close>

definition vec_wf :: "'a vec \<Rightarrow> bool" where
  "vec_wf v \<longleftrightarrow> 0 \<le> vlength v \<and> vlength v \<le> vcapacity v
     \<and> vcapacity v = int (length (vdata v))
     \<and> None \<notin> set (take (nat (vlength v)) (vdata v))"

subsection \<open>Cells\<close>

definition read_cell :: "int \<Rightarrow> 'a vec \<Rightarrow> fault + 'a" where
  "read_cell i v =
     (if 0 \<le> i \<and> i < int (length (vdata v))
      then (case vdata v ! nat i of None \<Rightarrow> Inl Uninitialised_read | Some x \<Rightarrow> Inr x)
      else Inl Out_of_bounds)"

definition write_cell :: "int \<Rightarrow> 'a \<Rightarrow> 'a vec \<Rightarrow> fault + 'a vec" where
  "write_cell i x v =
     (if 0 \<le> i \<and> i < int (length (vdata v))
      then Inr (v\<lparr>vdata := (vdata v)[nat i := Some x]\<rparr>)
      else Inl Out_of_bounds)"

text \<open>\<open>memmove\<close> of \<open>n\<close> elements, in units of elements.\<close>

definition move_cells :: "int \<Rightarrow> int \<Rightarrow> int \<Rightarrow> 'a vec \<Rightarrow> fault + 'a vec" where
  "move_cells dst src n v =
     (if 0 \<le> dst \<and> 0 \<le> src \<and> 0 \<le> n
          \<and> dst + n \<le> int (length (vdata v)) \<and> src + n \<le> int (length (vdata v))
      then Inr (v\<lparr>vdata := take (nat dst) (vdata v) @ take (nat n) (drop (nat src) (vdata v))
                          @ drop (nat (dst + n)) (vdata v)\<rparr>)
      else Inl Out_of_bounds)"

text \<open>
  The lines \<open>ndata = reallocarray(*data, *capacity, memsz)\<close> and the two after it: on
  success the block has \<open>capacity\<close> cells, on failure it is the old one and \<open>errno\<close> is set.
\<close>

definition realloc_cells ::
  "(64 word \<Rightarrow> bool) \<Rightarrow> int \<Rightarrow> nat \<times> 'a vec \<Rightarrow> nat \<times> 'a vec" where
  "realloc_cells avail memsz st =
     (case st of (e, v) \<Rightarrow>
       (case reallocarray avail (word_of_int (vcapacity v)) (word_of_int memsz) of
          None \<Rightarrow> (ENOMEM, v)
        | Some _ \<Rightarrow>
            (e, v\<lparr>vdata := take (nat (vcapacity v)) (vdata v)
                          @ replicate (nat (vcapacity v) - length (vdata v)) None\<rparr>)))"

subsection \<open>Operations of vec.c\<close>

definition vec_expand ::
  "(64 word \<Rightarrow> bool) \<Rightarrow> int \<Rightarrow> nat \<times> 'a vec \<Rightarrow> fault + nat \<times> 'a vec" where
  "vec_expand avail memsz st =
     (case st of (e, v) \<Rightarrow>
       if memsz = 0 then Inl Assert_failed
       else if vlength v + 1 > vcapacity v then
         (if vcapacity v = 0
          then Inr (realloc_cells avail memsz (e, v\<lparr>vcapacity := VEC_MIN_CAPACITY\<rparr>))
          else if vcapacity v < 0 \<or> 2 ^ 30 \<le> vcapacity v then Inl Signed_overflow
          else Inr (realloc_cells avail memsz (e, v\<lparr>vcapacity := push_bit 1 (vcapacity v)\<rparr>)))
       else Inr (e, v))"

definition vec_reserve ::
  "(64 word \<Rightarrow> bool) \<Rightarrow> int \<Rightarrow> int \<Rightarrow> nat \<times> 'a vec \<Rightarrow> fault + nat \<times> 'a vec" where
  "vec_reserve avail memsz n st =
     (case st of (e, v) \<Rightarrow>
       if memsz = 0 then Inl Assert_failed
       else if n > vcapacity v then Inr (realloc_cells avail memsz (e, v\<lparr>vcapacity := n\<rparr>))
       else Inr (e, v))"

definition vec_compact ::
  "(64 word \<Rightarrow> bool) \<Rightarrow> int \<Rightarrow> nat \<times> 'a vec \<Rightarrow> fault + nat \<times> 'a vec" where
  "vec_compact avail memsz st =
     (case st of (e, v) \<Rightarrow>
       if memsz = 0 then Inl Assert_failed
       else if vlength v = 0 then Inr (e, v\<lparr>vdata := [], vcapacity := 0\<rparr>)
       else Inr (realloc_cells avail memsz (e, v\<lparr>vcapacity := vlength v\<rparr>)))"

definition vec_splice_cells :: "int \<Rightarrow> int \<Rightarrow> int \<Rightarrow> 'a vec \<Rightarrow> fault + 'a vec" where
  "vec_splice_cells memsz start cnt v =
     (if memsz = 0 \<or> cnt = 0 then Inl Assert_failed
      else move_cells start (start + cnt) (vlength v - start - cnt) v)"

definition vec_insert_cells ::
  "(64 word \<Rightarrow> bool) \<Rightarrow> int \<Rightarrow> int \<Rightarrow> nat \<times> 'a vec \<Rightarrow> fault + nat \<times> 'a vec" where
  "vec_insert_cells avail memsz idx st =
     and_then (vec_expand avail memsz st) (\<lambda>(e, v).
       if e = ENOMEM then Inr (e, v)
       else and_then (move_cells (idx + 1) idx (vlength v - idx) v) (\<lambda>v'. Inr (e, v')))"

definition vec_swap ::
  "(64 word \<Rightarrow> bool) \<Rightarrow> int \<Rightarrow> int \<Rightarrow> int \<Rightarrow> nat \<times> 'a vec \<Rightarrow> fault + nat \<times> 'a vec" where
  "vec_swap avail memsz idx1 idx2 st =
     and_then (vec_expand avail memsz st) (\<lambda>(e, v).
       if e = ENOMEM then Inr (e, v)
       else and_then (move_cells (vlength v) idx1 1 v) (\<lambda>v1.
            and_then (move_cells idx1 idx2 1 v1) (\<lambda>v2.
            and_then (move_cells idx2 (vlength v) 1 v2) (\<lambda>v3. Inr (e, v3)))))"

subsection \<open>Macros of vec.h\<close>

definition vec_init :: "'a vec" where
  "vec_init = \<lparr>vdata = [], vlength = 0, vcapacity = 0\<rparr>"

text \<open>\<open>vec_deinit\<close> frees the block and zeroes the structure.\<close>

definition vec_deinit :: "'a vec \<Rightarrow> 'a vec" where
  "vec_deinit v = vec_init"

definition vec_push ::
  "(64 word \<Rightarrow> bool) \<Rightarrow> int \<Rightarrow> 'a \<Rightarrow> nat \<times> 'a vec \<Rightarrow> fault + nat \<times> 'a vec" where
  "vec_push avail memsz val st =
     and_then (vec_expand avail memsz st) (\<lambda>(e, v).
     and_then (write_cell (vlength v) val v) (\<lambda>v'.
       Inr (e, v'\<lparr>vlength := vlength v + 1\<rparr>)))"

definition vec_pop :: "'a vec \<Rightarrow> fault + 'a \<times> 'a vec" where
  "vec_pop v =
     (let v' = v\<lparr>vlength := vlength v - 1\<rparr>
      in and_then (read_cell (vlength v') v') (\<lambda>x. Inr (x, v')))"

definition vec_splice :: "int \<Rightarrow> int \<Rightarrow> int \<Rightarrow> 'a vec \<Rightarrow> fault + 'a vec" where
  "vec_splice memsz start cnt v =
     and_then (vec_splice_cells memsz start cnt v) (\<lambda>v'.
       Inr (v'\<lparr>vlength := vlength v' - cnt\<rparr>))"

definition vec_insert ::
  "(64 word \<Rightarrow> bool) \<Rightarrow> int \<Rightarrow> int \<Rightarrow> 'a \<Rightarrow> nat \<times> 'a vec \<Rightarrow> fault + nat \<times> 'a vec" where
  "vec_insert avail memsz idx val st =
     and_then (vec_insert_cells avail memsz idx st) (\<lambda>(e, v).
     and_then (write_cell idx val v) (\<lambda>v'.
       Inr (e, v'\<lparr>vlength := vlength v' + 1\<rparr>)))"

definition vec_truncate :: "int \<Rightarrow> 'a vec \<Rightarrow> 'a vec" where
  "vec_truncate len v = v\<lparr>vlength := if len < vlength v then len else vlength v\<rparr>"

definition vec_clear :: "'a vec \<Rightarrow> 'a vec" where
  "vec_clear v = v\<lparr>vlength := 0\<rparr>"

definition vec_first :: "'a vec \<Rightarrow> fault + 'a" where
  "vec_first v = read_cell 0 v"

definition vec_last :: "'a vec \<Rightarrow> fault + 'a" where
  "vec_last v = read_cell (vlength v - 1) v"

function vec_extend_from ::
  "(64 word \<Rightarrow> bool) \<Rightarrow> int \<Rightarrow> int \<Rightarrow> 'a vec \<Rightarrow> nat \<times> 'a vec \<Rightarrow> fault + nat \<times> 'a vec" where
  "vec_extend_from avail memsz i v2 st =
     (if i < vlength v2
      then and_then (read_cell i v2) (\<lambda>x.
           and_then (vec_push avail memsz x st) (vec_extend_from avail memsz (i + 1) v2))
      else Inr st)"
  by pat_completeness auto
termination
  by (relation "measure (\<lambda>(_, _, i, v2, _). nat (vlength v2 - i))") auto

definition vec_extend ::
  "(64 word \<Rightarrow> bool) \<Rightarrow> int \<Rightarrow> 'a vec \<Rightarrow> nat \<times> 'a vec \<Rightarrow> fault + nat \<times> 'a vec" where
  "vec_extend avail memsz v2 st = vec_extend_from avail memsz 0 v2 st"

function vec_find_from :: "int \<Rightarrow> 'a \<Rightarrow> 'a vec \<Rightarrow> fault + int" where
  "vec_find_from i val v =
     (if i < vlength v
      then and_then (read_cell i v) (\<lambda>x. if x = val then Inr i else vec_find_from (i + 1) val v)
      else Inr (- 1))"
  by pat_completeness auto
termination
  by (relation "measure (\<lambda>(i, _, v). nat (vlength v - i))") auto

definition vec_find :: "'a \<Rightarrow> 'a vec \<Rightarrow> fault + int" where
  "vec_find val v = vec_find_from 0 val v"

definition vec_remove :: "int \<Rightarrow> 'a \<Rightarrow> 'a vec \<Rightarrow> fault + 'a vec" where
  "vec_remove memsz val v =
     and_then (vec_find val v) (\<lambda>i. if i \<noteq> - 1 then vec_splice memsz i 1 v else Inr v)"

fun vec_reverse_from ::
  "(64 word \<Rightarrow> bool) \<Rightarrow> int \<Rightarrow> nat \<Rightarrow> nat \<times> 'a vec \<Rightarrow> fault + nat \<times> 'a vec" where
  "vec_reverse_from avail memsz 0 st = Inr st"
| "vec_reverse_from avail memsz (Suc i) st =
     and_then (vec_swap avail memsz (int i) (vlength (snd st) - (int i + 1)) st)
       (vec_reverse_from avail memsz i)"

definition vec_reverse ::
  "(64 word \<Rightarrow> bool) \<Rightarrow> int \<Rightarrow> nat \<times> 'a vec \<Rightarrow> fault + nat \<times> 'a vec" where
  "vec_reverse avail memsz st = vec_reverse_from avail memsz (nat (vlength (snd st)) div 2) st"

text \<open>\<open>vec_foreach\<close> with a body that leaves the vector alone.\<close>

function vec_foreach_from :: "int \<Rightarrow> 'a vec \<Rightarrow> ('a \<Rightarrow> 's \<Rightarrow> fault + 's) \<Rightarrow> 's \<Rightarrow> fault + 's" where
  "vec_foreach_from i v body s =
     (if i < vlength v
      then and_then (read_cell i v) (\<lambda>x. and_then (body x s) (vec_foreach_from (i + 1) v body))
      else Inr s)"
  by pat_completeness auto
termination
  by (relation "measure (\<lambda>(i, v, _, _). nat (vlength v - i))") auto

definition vec_foreach :: "'a vec \<Rightarrow> ('a \<Rightarrow> 's \<Rightarrow> fault + 's) \<Rightarrow> 's \<Rightarrow> fault + 's" where
  "vec_foreach v body s =
     (if vlength v > 0 then vec_foreach_from 0 v body s else Inr s)"

declare vec_extend_from.simps [simp del] vec_find_from.simps [simp del]
  vec_foreach_from.simps [simp del]

section \<open>Vectors refine lists\<close>

text \<open>\<open>vec_rep v xs\<close>: the vector \<open>v\<close> is well-formed and holds the elements \<open>xs\<close>.\<close>

definition vec_rep :: "'a vec \<Rightarrow> 'a list \<Rightarrow> bool" where
  "vec_rep v xs \<longleftrightarrow> (\<exists>rest. vdata v = map Some xs @ rest)
     \<and> vlength v = int (length xs) \<and> vcapacity v = int (length (vdata v))"

lemma vec_repE:
  assumes "vec_rep v xs"
  obtains rest where "vdata v = map Some xs @ rest" "vlength v = int (length xs)"
    "vcapacity v = int (length xs + length rest)"
  using assms by (auto simp: vec_rep_def)

lemma vec_repI:
  "vdata v = map Some xs @ rest \<Longrightarrow> vlength v = int (length xs)
    \<Longrightarrow> vcapacity v = int (length xs + length rest) \<Longrightarrow> vec_rep v xs"
  by (auto simp: vec_rep_def)

lemma map_Some_the: "None \<notin> set ys \<Longrightarrow> map Some (map the ys) = ys"
  by (induction ys) auto

lemma vec_rep_iff: "vec_rep v xs \<longleftrightarrow> vec_wf v \<and> contents v = xs"
proof
  assume "vec_rep v xs"
  then show "vec_wf v \<and> contents v = xs"
    by (elim vec_repE) (auto simp: vec_wf_def contents_def comp_def)
next
  assume wf: "vec_wf v \<and> contents v = xs"
  let ?n = "nat (vlength v)"
  from wf have "map Some xs = take ?n (vdata v)"
    using map_Some_the unfolding vec_wf_def contents_def by metis
  moreover from this wf have "length xs = ?n"
    by (auto simp: vec_wf_def contents_def)
  ultimately have "vdata v = map Some xs @ drop ?n (vdata v)"
    by simp
  with wf \<open>length xs = ?n\<close> show "vec_rep v xs"
    unfolding vec_rep_def vec_wf_def by auto
qed

lemma vec_rep_contents: "vec_wf v \<Longrightarrow> vec_rep v (contents v)"
  by (simp add: vec_rep_iff)

lemma vec_rep_init [simp]: "vec_rep vec_init []"
  by (simp add: vec_rep_def vec_init_def)

lemma vec_rep_clear: "vec_rep v xs \<Longrightarrow> vec_rep (vec_clear v) []"
  by (auto simp: vec_rep_def vec_clear_def)

lemma vec_rep_truncate:
  assumes "vec_rep v xs" "0 \<le> n"
  shows "vec_rep (vec_truncate n v) (take (nat n) xs)"
proof -
  from assms(1) obtain rest where rest: "vdata v = map Some xs @ rest"
      "vlength v = int (length xs)" "vcapacity v = int (length xs + length rest)"
    by (rule vec_repE)
  have "map Some xs = map Some (take (nat n) xs) @ map Some (drop (nat n) xs)"
    by (simp flip: map_append)
  with rest assms(2) show ?thesis
    by (intro vec_repI [where rest = "map Some (drop (nat n) xs) @ rest"])
      (auto simp: vec_truncate_def)
qed

lemma read_cell_rep:
  "vec_rep v xs \<Longrightarrow> 0 \<le> i \<Longrightarrow> i < int (length xs) \<Longrightarrow> read_cell i v = Inr (xs ! nat i)"
  by (elim vec_repE) (simp add: read_cell_def nth_append nat_less_iff)

lemma vec_last_rep:
  assumes "vec_rep v xs" "xs \<noteq> []"
  shows "vec_last v = Inr (last xs)"
proof -
  from assms have len: "vlength v = int (length xs)" "0 < length xs"
    by (auto simp: vec_rep_def)
  then have "nat (int (length xs) - 1) = length xs - 1"
    by simp
  with assms len show ?thesis
    by (simp add: vec_last_def read_cell_rep last_conv_nth)
qed

subsection \<open>Growing\<close>

text \<open>
  The outcome of \<open>vec_expand\<close> on a vector in order: room for one more element and an
  untouched \<open>errno\<close>; or no memory, with \<open>errno\<close> set and the block as small as before.
\<close>

lemma vec_expand_cases:
  assumes rep: "vec_rep v xs" and res: "vec_expand avail memsz (e, v) = Inr (e', v')"
  shows "(e' = e \<and> vec_rep v' xs \<and> length xs < length (vdata v'))
    \<or> (e' = ENOMEM \<and> vdata v' = vdata v \<and> vlength v' = vlength v
        \<and> length (vdata v) = length xs)"
proof -
  from rep obtain rest where rest: "vdata v = map Some xs @ rest"
      "vlength v = int (length xs)" "vcapacity v = int (length xs + length rest)"
    by (rule vec_repE)
  have grow: "(e' = e \<and> vec_rep v' xs \<and> length xs < length (vdata v'))
      \<or> (e' = ENOMEM \<and> vdata v' = vdata v \<and> vlength v' = vlength v)"
    if "realloc_cells avail memsz (e, v\<lparr>vcapacity := c\<rparr>) = (e', v')"
      and "int (length xs + length rest) < c" for c
    using that rest
    by (auto simp: realloc_cells_def nat_le_iff intro!: vec_repI split: option.splits)
  show ?thesis
  proof (cases "rest = []")
    case True
    with res rest have "\<exists>c. realloc_cells avail memsz (e, v\<lparr>vcapacity := c\<rparr>) = (e', v')
        \<and> int (length xs + length rest) < c"
      by (auto simp: vec_expand_def VEC_MIN_CAPACITY_def push_bit_eq_mult split: if_splits)
    with grow True rest show ?thesis by auto
  next
    case False
    with res rest rep have "e' = e" "v' = v"
      by (auto simp: vec_expand_def split: if_splits)
    with rep rest False show ?thesis by auto
  qed
qed

lemma vec_push_rep:
  assumes rep: "vec_rep v xs" and res: "vec_push avail memsz x (e, v) = Inr (e', v')"
  shows "e' = e \<and> vec_rep v' (xs @ [x])"
proof -
  from res obtain v1 where ex: "vec_expand avail memsz (e, v) = Inr (e', v1)"
    and wr: "and_then (write_cell (vlength v1) x v1) (\<lambda>v'. Inr (v'\<lparr>vlength := vlength v1 + 1\<rparr>))
        = Inr v'"
    by (auto simp: vec_push_def and_then_eq_Inr)
  from vec_expand_cases [OF rep ex] show ?thesis
  proof (elim disjE conjE)
    assume *: "e' = e" "vec_rep v1 xs" "length xs < length (vdata v1)"
    then obtain r rest where "vdata v1 = map Some xs @ r # rest"
        "vlength v1 = int (length xs)" "vcapacity v1 = int (length xs + Suc (length rest))"
      by (elim vec_repE) (metis append_Nil2 length_Cons length_map list.exhaust order_less_irrefl)
    with wr * show ?thesis
      by (auto simp: write_cell_def list_update_append intro!: vec_repI [where rest = rest])
  next
    assume "vdata v1 = vdata v" "vlength v1 = vlength v" "length (vdata v) = length xs"
    with wr rep show ?thesis
      by (auto simp: write_cell_def vec_rep_def)
  qed
qed

text \<open>When the reallocation fails, the element is written past the end of the block.\<close>

lemma vec_push_no_memory:
  assumes "vec_rep v xs" "length (vdata v) = length xs" "memsz \<noteq> 0" "length xs < 2 ^ 30"
    and "\<And>b. \<not> avail b"
  shows "vec_push avail memsz x (e, v) = Inl Out_of_bounds"
  using assms
  by (auto simp: vec_push_def vec_expand_def realloc_cells_def reallocarray_def write_cell_def
      vec_rep_def split: option.splits)

text \<open>
  Element sizes are those of C objects, far below \<open>2 ^ 31\<close>; with memory available, every
  request of up to \<open>2 ^ 31\<close> elements is then granted.
\<close>

definition granted :: "(64 word \<Rightarrow> bool) \<Rightarrow> int \<Rightarrow> bool" where
  "granted avail memsz \<longleftrightarrow> 0 < memsz \<and> memsz < 2 ^ 31 \<and> (\<forall>b. avail b)"

lemma reallocarray_granted:
  assumes "granted avail memsz" "0 \<le> n" "n \<le> 2 ^ 31"
  shows "reallocarray avail (word_of_int n) (word_of_int memsz) \<noteq> None"
proof -
  have small: "(word_of_int k :: 64 word) < MUL_NO_OVERFLOW" if "0 \<le> k" "k \<le> 2 ^ 31" for k
    using that by (simp add: word_less_def MUL_NO_OVERFLOW_def uint_word_of_int_eq take_bit_int_eq_self)
  show ?thesis
    using assms small [of n] small [of memsz]
    by (auto simp: reallocarray_def granted_def not_le)
qed

lemma vec_expand_granted:
  assumes rep: "vec_rep v xs" and "granted avail memsz" "length xs < 2 ^ 30"
  shows "\<exists>v'. vec_expand avail memsz (e, v) = Inr (e, v') \<and> vec_rep v' xs
    \<and> length xs < length (vdata v')"
proof (cases "length (vdata v) = length xs")
  case True
  with rep have v: "vcapacity v = int (length xs)" "vlength v = int (length xs)"
      "vdata v = map Some xs"
    by (auto simp: vec_rep_def)
  let ?c = "if xs = [] then VEC_MIN_CAPACITY else 2 * int (length xs)"
  have c: "vec_expand avail memsz (e, v) = Inr (realloc_cells avail memsz (e, v\<lparr>vcapacity := ?c\<rparr>))"
    "int (length xs) < ?c" "?c \<le> 2 ^ 31"
    using assms v
    by (auto simp: vec_expand_def granted_def VEC_MIN_CAPACITY_def push_bit_eq_mult mult.commute)
  with reallocarray_granted [OF assms(2), of ?c] v show ?thesis
    by (auto simp: realloc_cells_def nat_le_iff vec_rep_def zless_nat_eq_int_zless)
next
  case False
  with rep have "int (length xs) < vcapacity v" "vlength v = int (length xs)"
    by (auto elim!: vec_repE)
  with assms show ?thesis
    by (auto simp: vec_expand_def granted_def vec_rep_def)
qed

lemma vec_push_total:
  assumes "vec_rep v xs" "granted avail memsz" "length xs < 2 ^ 30"
  shows "\<exists>v'. vec_push avail memsz x (e, v) = Inr (e, v') \<and> vec_rep v' (xs @ [x])"
proof -
  from vec_expand_granted [OF assms] obtain v1 where
    ex: "vec_expand avail memsz (e, v) = Inr (e, v1)" "vec_rep v1 xs" "length xs < length (vdata v1)"
    by blast
  then have "\<exists>v'. vec_push avail memsz x (e, v) = Inr (e, v')"
    by (auto simp: vec_push_def write_cell_def vec_rep_def)
  then show ?thesis
    using vec_push_rep [OF assms(1)] by blast
qed

subsection \<open>Deleting and searching\<close>

lemma move_cells_down:
  assumes "vdata v = map Some (xs @ ys @ zs) @ rest"
  shows "move_cells (int (length xs)) (int (length xs) + int (length ys)) (int (length zs)) v
    = Inr (v\<lparr>vdata := map Some (xs @ zs) @ drop (length xs + length zs) (vdata v)\<rparr>)"
  using assms by (simp add: move_cells_def nat_int_add)

lemma vec_splice_rep:
  assumes rep: "vec_rep v (xs @ ys @ zs)" and "ys \<noteq> []" "memsz \<noteq> 0"
  shows "\<exists>v'. vec_splice memsz (int (length xs)) (int (length ys)) v = Inr v' \<and> vec_rep v' (xs @ zs)"
proof -
  from rep obtain rest where rest: "vdata v = map Some (xs @ ys @ zs) @ rest"
      "vlength v = int (length (xs @ ys @ zs))"
      "vcapacity v = int (length (xs @ ys @ zs) + length rest)"
    by (rule vec_repE)
  have "vlength v - int (length xs) - int (length ys) = int (length zs)"
    using rest by simp
  then have "vec_splice memsz (int (length xs)) (int (length ys)) v
      = Inr (v\<lparr>vdata := map Some (xs @ zs) @ drop (length xs + length zs) (vdata v),
             vlength := vlength v - int (length ys)\<rparr>)" (is "_ = Inr ?v'")
    using assms(2,3) move_cells_down [OF rest(1)] by (simp add: vec_splice_def vec_splice_cells_def)
  moreover have "vec_rep ?v' (xs @ zs)"
    using rest by (intro vec_repI) (auto simp: of_nat_diff)
  ultimately show ?thesis by blast
qed

text \<open>Deleting the element at a position, the only use the program makes of \<open>vec_splice\<close>.\<close>

lemma vec_splice_at:
  assumes "vec_rep v xs" "i < length xs" "memsz \<noteq> 0"
  shows "\<exists>v'. vec_splice memsz (int i) 1 v = Inr v' \<and> vec_rep v' (take i xs @ drop (Suc i) xs)"
proof -
  have "vec_rep v (take i xs @ [xs ! i] @ drop (Suc i) xs)"
    using assms by (simp add: id_take_nth_drop [symmetric])
  from vec_splice_rep [OF this _ assms(3)] show ?thesis
    using assms(2) by (simp add: min_def)
qed

text \<open>The position of the first occurrence, as the search loop finds it.\<close>

fun first_index :: "'a \<Rightarrow> 'a list \<Rightarrow> nat option" where
  "first_index x [] = None"
| "first_index x (y # ys) = (if y = x then Some 0 else map_option Suc (first_index x ys))"

lemma first_index_None: "first_index x xs = None \<longleftrightarrow> x \<notin> set xs"
  by (induction xs) auto

lemma first_index_Some:
  "first_index x xs = Some i \<Longrightarrow> i < length xs \<and> xs ! i = x \<and> x \<notin> set (take i xs)"
  by (induction xs arbitrary: i) (auto split: if_splits)

lemma first_index_remove1:
  "first_index x xs = Some i \<Longrightarrow> take i xs @ drop (Suc i) xs = remove1 x xs"
  by (induction xs arbitrary: i) (auto split: if_splits)

definition index_code :: "nat option \<Rightarrow> int" where
  "index_code r = (case r of None \<Rightarrow> - 1 | Some i \<Rightarrow> int i)"

lemma vec_find_from_rep:
  assumes "vec_rep v xs" "i \<le> length xs"
  shows "vec_find_from (int i) x v
    = Inr (index_code (map_option ((+) i) (first_index x (drop i xs))))"
  using assms
proof (induction "length xs - i" arbitrary: i)
  case 0
  then show ?case
    by (subst vec_find_from.simps) (simp add: vec_rep_def index_code_def)
next
  case (Suc n)
  then have i: "i < length xs" by simp
  then have "drop i xs = xs ! i # drop (Suc i) xs"
    by (simp add: Cons_nth_drop_Suc)
  moreover have "vec_find_from (int (Suc i)) x v
      = Inr (index_code (map_option ((+) (Suc i)) (first_index x (drop (Suc i) xs))))"
    using Suc.hyps(2) Suc.prems i by (intro Suc.hyps(1)) auto
  ultimately show ?case
    using Suc.prems i
    by (subst vec_find_from.simps)
      (auto simp: vec_rep_def [of v xs] read_cell_rep [OF Suc.prems(1)] index_code_def
        option.map_comp comp_def add.commute split: option.split)
qed

lemma vec_find_rep: "vec_rep v xs \<Longrightarrow> vec_find x v = Inr (index_code (first_index x xs))"
  using vec_find_from_rep [of v xs 0 x] by (cases "first_index x xs") (simp_all add: vec_find_def)

lemma vec_remove_rep:
  assumes "vec_rep v xs" "memsz \<noteq> 0"
  shows "\<exists>v'. vec_remove memsz x v = Inr v' \<and> vec_rep v' (remove1 x xs)"
proof (cases "first_index x xs")
  case None
  then have "x \<notin> set xs"
    by (simp add: first_index_None)
  with None assms show ?thesis
    by (simp add: vec_remove_def vec_find_rep index_code_def remove1_idem)
next
  case (Some i)
  with assms first_index_Some [OF Some] vec_splice_at [of v xs i memsz]
  show ?thesis
    by (auto simp: vec_remove_def vec_find_rep index_code_def first_index_remove1)
qed

subsection \<open>Inserting, swapping, reversing\<close>

lemma vec_insert_rep:
  assumes rep: "vec_rep v (xs @ ys)" and "e \<noteq> ENOMEM"
    and "granted avail memsz" "length (xs @ ys) < 2 ^ 30"
  shows "\<exists>v'. vec_insert avail memsz (int (length xs)) x (e, v) = Inr (e, v')
    \<and> vec_rep v' (xs @ x # ys)"
proof -
  from vec_expand_granted [OF rep assms(3,4)] obtain v1 where
    ex: "vec_expand avail memsz (e, v) = Inr (e, v1)" "vec_rep v1 (xs @ ys)"
      "length (xs @ ys) < length (vdata v1)"
    by blast
  then obtain r rest where rest: "vdata v1 = map Some (xs @ ys) @ r # rest"
      "vlength v1 = int (length (xs @ ys))" "vcapacity v1 = int (length (xs @ ys) + Suc (length rest))"
    by (elim vec_repE) (metis append_Nil2 length_Cons length_map list.exhaust order_less_irrefl)
  let ?v2 = "v1\<lparr>vdata := map Some xs @ take 1 (map Some ys @ [r]) @ map Some ys @ rest\<rparr>"
  have "move_cells (int (length xs) + 1) (int (length xs)) (vlength v1 - int (length xs)) v1 = Inr ?v2"
    using rest by (cases ys) (auto simp: move_cells_def nat_add_distrib)
  then have "vec_insert avail memsz (int (length xs)) x (e, v)
      = Inr (e, ?v2\<lparr>vdata := map Some (xs @ x # ys) @ rest, vlength := vlength v1 + 1\<rparr>)"
    using ex assms(2) by (cases ys)
      (auto simp: vec_insert_def vec_insert_cells_def write_cell_def list_update_append)
  moreover have "vec_rep (?v2\<lparr>vdata := map Some (xs @ x # ys) @ rest, vlength := vlength v1 + 1\<rparr>)
      (xs @ x # ys)"
    using rest by (intro vec_repI) auto
  ultimately show ?thesis by blast
qed

text \<open>
  A stale \<open>ENOMEM\<close> in \<open>errno\<close>, left by any earlier call, makes \<open>vec_insert\<close> skip the
  shift although there is room: the element at the index is overwritten.
\<close>

lemma vec_insert_stale_errno:
  assumes rep: "vec_rep v (xs @ y # ys)" and room: "length (xs @ y # ys) < length (vdata v)"
    and "memsz \<noteq> 0"
  shows "\<exists>v'. vec_insert avail memsz (int (length xs)) x (ENOMEM, v) = Inr (ENOMEM, v')
    \<and> take (length (xs @ y # ys)) (vdata v') = map Some (xs @ x # ys)
    \<and> vlength v' = vlength v + 1"
proof -
  from rep obtain rest where "vdata v = map Some (xs @ y # ys) @ rest"
      "vlength v = int (length (xs @ y # ys))"
      "vcapacity v = int (length (xs @ y # ys) + length rest)"
    by (rule vec_repE)
  with room assms(3) show ?thesis
    by (auto simp: vec_insert_def vec_insert_cells_def vec_expand_def write_cell_def
        list_update_append)
qed

lemma vec_swap_rep:
  assumes rep: "vec_rep v xs" and "e \<noteq> ENOMEM" "granted avail memsz" "length xs < 2 ^ 30"
    and ij: "i < length xs" "j < length xs"
  shows "\<exists>v'. vec_swap avail memsz (int i) (int j) (e, v) = Inr (e, v')
    \<and> vec_rep v' (xs[i := xs ! j, j := xs ! i])"
proof -
  from vec_expand_granted [OF rep assms(3,4)] obtain v1 where
    ex: "vec_expand avail memsz (e, v) = Inr (e, v1)" "vec_rep v1 xs" "length xs < length (vdata v1)"
    by blast
  then obtain r rest where rest: "vdata v1 = map Some xs @ r # rest"
      "vlength v1 = int (length xs)" "vcapacity v1 = int (length xs + Suc (length rest))"
    by (elim vec_repE) (metis append_Nil2 length_Cons length_map list.exhaust order_less_irrefl)
  have one: "move_cells (int d) (int c) 1 w = Inr (w\<lparr>vdata := (vdata w)[d := vdata w ! c]\<rparr>)"
    if "d < length (vdata w)" "c < length (vdata w)" for d c and w :: "'a vec"
    using that
    by (simp add: move_cells_def take_Suc_conv_app_nth [of 0, simplified] hd_drop_conv_nth
        upd_conv_take_nth_drop nat_add_distrib take_Suc)
  let ?n = "length xs"
  let ?d1 = "map Some xs @ Some (xs ! i) # rest"
  let ?d2 = "map Some (xs[i := xs ! j]) @ Some (xs ! i) # rest"
  let ?d3 = "map Some (xs[i := xs ! j, j := xs ! i]) @ Some (xs ! i) # rest"
  have "move_cells (int ?n) (int i) 1 v1 = Inr (v1\<lparr>vdata := ?d1\<rparr>)"
    using rest ij one [of ?n v1 i] by (simp add: nth_append list_update_append)
  moreover have "move_cells (int i) (int j) 1 (v1\<lparr>vdata := ?d1\<rparr>) = Inr (v1\<lparr>vdata := ?d2\<rparr>)"
    using rest ij one [of i "v1\<lparr>vdata := ?d1\<rparr>" j]
    by (simp add: nth_append list_update_append map_update)
  moreover have "move_cells (int j) (int ?n) 1 (v1\<lparr>vdata := ?d2\<rparr>) = Inr (v1\<lparr>vdata := ?d3\<rparr>)"
    using rest ij one [of j "v1\<lparr>vdata := ?d2\<rparr>" ?n]
    by (simp add: nth_append list_update_append map_update)
  ultimately have "vec_swap avail memsz (int i) (int j) (e, v) = Inr (e, v1\<lparr>vdata := ?d3\<rparr>)"
    using ex(1) rest assms(2) by (simp add: vec_swap_def)
  moreover have "vec_rep (v1\<lparr>vdata := ?d3\<rparr>) (xs[i := xs ! j, j := xs ! i])"
    using rest by (intro vec_repI) auto
  ultimately show ?thesis by blast
qed

text \<open>The list with its first and last \<open>k\<close> elements exchanged end for end.\<close>

definition rev_ends :: "nat \<Rightarrow> 'a list \<Rightarrow> 'a list" where
  "rev_ends k xs =
     map (\<lambda>p. if p < k \<or> length xs - k \<le> p then xs ! (length xs - 1 - p) else xs ! p)
       [0..<length xs]"

lemma rev_ends_0 [simp]: "rev_ends 0 xs = xs"
  by (auto simp: rev_ends_def intro!: nth_equalityI)

lemma rev_ends_half: "rev_ends (length xs div 2) xs = rev xs"
proof (rule nth_equalityI)
  fix p assume "p < length (rev_ends (length xs div 2) xs)"
  then have p: "p < length xs" by (simp add: rev_ends_def)
  show "rev_ends (length xs div 2) xs ! p = rev xs ! p"
  proof (cases "p < length xs div 2 \<or> length xs - length xs div 2 \<le> p")
    case False
    with p have "length xs - 1 - p = p" by linarith
    with p False show ?thesis by (simp add: rev_ends_def rev_nth)
  qed (use p in \<open>auto simp: rev_ends_def rev_nth\<close>)
qed (simp add: rev_ends_def)

lemma rev_ends_swap:
  assumes "2 * Suc k \<le> length xs"
  shows "rev_ends k (xs[k := xs ! (length xs - Suc k), length xs - Suc k := xs ! k])
    = rev_ends (Suc k) xs"
  using assms
  by (intro nth_equalityI) (auto simp: rev_ends_def nth_list_update)

lemma vec_reverse_from_rep:
  assumes "vec_rep v xs" "2 * k \<le> length xs" "e \<noteq> ENOMEM" "granted avail memsz"
    "length xs < 2 ^ 30"
  shows "\<exists>v'. vec_reverse_from avail memsz k (e, v) = Inr (e, v') \<and> vec_rep v' (rev_ends k xs)"
  using assms
proof (induction k arbitrary: v xs)
  case (Suc k)
  let ?j = "length xs - Suc k"
  let ?ys = "xs[k := xs ! ?j, ?j := xs ! k]"
  from Suc.prems have j: "vlength v - (int k + 1) = int ?j"
    by (auto simp: vec_rep_def of_nat_diff)
  from Suc.prems(2) have kj: "k < length xs" "?j < length xs"
    by simp_all
  from vec_swap_rep [OF Suc.prems(1,3,4,5) kj] obtain v1 where
    v1: "vec_swap avail memsz (int k) (int ?j) (e, v) = Inr (e, v1)" "vec_rep v1 ?ys"
    by blast
  with Suc.IH [OF v1(2)] Suc.prems obtain v' where
    "vec_reverse_from avail memsz k (e, v1) = Inr (e, v')" "vec_rep v' (rev_ends k ?ys)"
    by auto
  with v1(1) j rev_ends_swap [OF Suc.prems(2)] show ?case
    by auto
qed simp

lemma vec_reverse_rep:
  assumes "vec_rep v xs" "e \<noteq> ENOMEM" "granted avail memsz" "length xs < 2 ^ 30"
  shows "\<exists>v'. vec_reverse avail memsz (e, v) = Inr (e, v') \<and> vec_rep v' (rev xs)"
proof -
  have "nat (vlength v) div 2 = length xs div 2"
    using assms(1) by (simp add: vec_rep_def)
  with vec_reverse_from_rep [of v xs "length xs div 2" e avail memsz] assms show ?thesis
    by (auto simp: vec_reverse_def rev_ends_half)
qed

subsection \<open>Iterating\<close>

lemma vec_foreach_from_rep:
  assumes "vec_rep v xs" "i \<le> length xs"
  shows "vec_foreach_from (int i) v body s = fold_res body (drop i xs) s"
  using assms
proof (induction "length xs - i" arbitrary: i s)
  case 0
  then show ?case by (subst vec_foreach_from.simps) (simp add: vec_rep_def)
next
  case (Suc n)
  then have i: "i < length xs" by simp
  then have "drop i xs = xs ! i # drop (Suc i) xs"
    by (simp add: Cons_nth_drop_Suc)
  moreover have "vec_foreach_from (int (Suc i)) v body = fold_res body (drop (Suc i) xs)"
    using Suc.hyps(2) Suc.prems i by (intro ext Suc.hyps(1)) auto
  moreover have "vlength v = int (length xs)"
    using Suc.prems by (simp add: vec_rep_def)
  ultimately show ?case
    using i by (subst vec_foreach_from.simps) (simp add: read_cell_rep [OF Suc.prems(1)] add.commute)
qed

lemma vec_foreach_rep: "vec_rep v xs \<Longrightarrow> vec_foreach v body s = fold_res body xs s"
  using vec_foreach_from_rep [of v xs 0 body s]
  by (auto simp: vec_foreach_def vec_rep_def)

lemma vec_extend_from_rep:
  assumes "vec_rep v2 ys" "i \<le> length ys" "vec_rep v xs" "granted avail memsz"
    "length xs + (length ys - i) < 2 ^ 30"
  shows "\<exists>v'. vec_extend_from avail memsz (int i) v2 (e, v) = Inr (e, v')
    \<and> vec_rep v' (xs @ drop i ys)"
  using assms
proof (induction "length ys - i" arbitrary: i v xs)
  case 0
  then show ?case by (subst vec_extend_from.simps) (simp add: vec_rep_def)
next
  case (Suc n)
  then have i: "i < length ys" by simp
  then have d: "drop i ys = ys ! i # drop (Suc i) ys"
    by (simp add: Cons_nth_drop_Suc)
  from vec_push_total [OF Suc.prems(3,4), of "ys ! i" e] Suc.prems(5) obtain v1 where
    v1: "vec_push avail memsz (ys ! i) (e, v) = Inr (e, v1)" "vec_rep v1 (xs @ [ys ! i])"
    by auto
  have "\<exists>v'. vec_extend_from avail memsz (int (Suc i)) v2 (e, v1) = Inr (e, v')
      \<and> vec_rep v' ((xs @ [ys ! i]) @ drop (Suc i) ys)"
    using Suc.hyps(2) Suc.prems i v1(2) by (intro Suc.hyps(1)) auto
  moreover have "vlength v2 = int (length ys)"
    using Suc.prems by (simp add: vec_rep_def)
  ultimately show ?case
    using v1 i d
    by (subst vec_extend_from.simps) (simp add: read_cell_rep [OF Suc.prems(1)] add.commute)
qed

lemma vec_extend_rep:
  assumes "vec_rep v2 ys" "vec_rep v xs" "granted avail memsz" "length xs + length ys < 2 ^ 30"
  shows "\<exists>v'. vec_extend avail memsz v2 (e, v) = Inr (e, v') \<and> vec_rep v' (xs @ ys)"
  using vec_extend_from_rep [of v2 ys 0 v xs avail memsz e] assms by (simp add: vec_extend_def)

section \<open>The interface the rest of the program uses\<close>

text \<open>
  What socket.c, client.c and module.c rely on: appending, deleting a position, deleting
  the first occurrence of a value. Nothing else of the vector is visible to them.
\<close>

locale pool =
  fixes items :: "'p \<Rightarrow> 'a list"
    and ok :: "'p \<Rightarrow> bool"
    and push :: "'a \<Rightarrow> 'p \<Rightarrow> fault + 'p"
    and delete_at :: "nat \<Rightarrow> 'p \<Rightarrow> fault + 'p"
  assumes push_law: "ok p \<Longrightarrow> push x p = Inr p' \<Longrightarrow> ok p' \<and> items p' = items p @ [x]"
    and delete_law: "ok p \<Longrightarrow> i < length (items p) \<Longrightarrow>
          \<exists>p'. delete_at i p = Inr p' \<and> ok p' \<and> items p' = take i (items p) @ drop (Suc i) (items p)"
begin

lemma push_distinct:
  "ok p \<Longrightarrow> push x p = Inr p' \<Longrightarrow> distinct (items p) \<Longrightarrow> x \<notin> set (items p) \<Longrightarrow> distinct (items p')"
  using push_law [of p x p'] by simp

text \<open>Searching, then deleting what was found, is \<open>remove1\<close>; it always succeeds.\<close>

lemma delete_found:
  assumes "ok p" "first_index x (items p) = Some i"
  shows "\<exists>p'. delete_at i p = Inr p' \<and> ok p' \<and> items p' = remove1 x (items p)"
  using delete_law [OF assms(1)] first_index_Some [OF assms(2)] first_index_remove1 [OF assms(2)]
  by metis

lemma push_then_delete:
  assumes "ok p" "push x p = Inr p1" "x \<notin> set (items p)"
  shows "\<exists>p2. delete_at (length (items p)) p1 = Inr p2 \<and> ok p2 \<and> items p2 = items p"
  using push_law [OF assms(1,2)] delete_law [of p1 "length (items p)"] by auto

end

interpretation cvec: pool
    "\<lambda>st. contents (snd st)" "\<lambda>st. vec_wf (snd st)"
    "vec_push avail 8" "\<lambda>i st. and_then (vec_splice 8 (int i) 1 (snd st)) (\<lambda>v. Inr (fst st, v))"
  for avail
proof unfold_locales
  fix p :: "nat \<times> 'a vec" and x p'
  assume wf: "vec_wf (snd p)" and push: "vec_push avail 8 x p = Inr p'"
  obtain e v e' v' where p: "p = (e, v)" "p' = (e', v')"
    by (metis surj_pair)
  with vec_push_rep [OF vec_rep_contents, of v avail 8 x e e' v'] wf push
  show "vec_wf (snd p') \<and> contents (snd p') = contents (snd p) @ [x]"
    by (simp add: vec_rep_iff)
next
  fix p :: "nat \<times> 'a vec" and i
  assume "vec_wf (snd p)" and i: "i < length (contents (snd p))"
  then have "vec_rep (snd p) (contents (snd p))"
    by (simp add: vec_rep_contents)
  from vec_splice_at [OF this i, of 8]
  show "\<exists>p'. and_then (vec_splice 8 (int i) 1 (snd p)) (\<lambda>v. Inr (fst p, v)) = Inr p'
      \<and> vec_wf (snd p') \<and> contents (snd p') = take i (contents (snd p)) @ drop (Suc i) (contents (snd p))"
    by (auto simp: vec_rep_iff)
qed

text \<open>
  In the rest of the model a vector is the list of its elements. Pushing takes one of the
  numbered allocations; when it is refused, the push is the fault of
  \<open>vec_push_no_memory\<close>. Deleting is the list operation \<open>vec_splice\<close> implements.
\<close>

definition list_push :: "'a \<Rightarrow> 'a list \<times> heap \<Rightarrow> fault + 'a list \<times> heap" where
  "list_push x st =
     (case st of (xs, h) \<Rightarrow>
       if oom h (brk h) then Inl Out_of_bounds
       else Inr (xs @ [x], h\<lparr>brk := Suc (brk h)\<rparr>))"

definition list_delete_at :: "nat \<Rightarrow> 'a list \<Rightarrow> fault + 'a list" where
  "list_delete_at i xs =
     (if i < length xs then Inr (take i xs @ drop (Suc i) xs) else Inl Out_of_bounds)"

interpretation lpool: pool fst "\<lambda>_. True" list_push
    "\<lambda>i st. and_then (list_delete_at i (fst st)) (\<lambda>xs. Inr (xs, snd st))"
  by unfold_locales (auto simp: list_push_def list_delete_at_def split: if_splits)

lemma list_push_extends:
  "list_push x (xs, h) = Inr (xs', h') \<Longrightarrow>
     xs' = xs @ [x] \<and> extends h h' \<and> blocks h' = blocks h \<and> brk h' = Suc (brk h)"
  by (auto simp: list_push_def extends_def split: if_splits)

text \<open>
  The two providers agree: a vector and a list with the same elements still have the same
  elements after a push both accept and after a deletion.
\<close>

lemma vec_push_refines_list:
  assumes "vec_wf v" "vec_push avail 8 x (e, v) = Inr (e', v')"
    "list_push x (contents v, h) = Inr (xs', h')"
  shows "vec_wf v' \<and> contents v' = xs' \<and> e' = e"
  using vec_push_rep [OF vec_rep_contents [OF assms(1)] assms(2)] list_push_extends [OF assms(3)]
  by (simp add: vec_rep_iff)

end
