(* ===== verification/Files.thy ===== *)
theory Files
  imports Vec
begin

text \<open>
  The file system and the streams of the C library as far as the program uses them, and
  \<open>FileExists\<close> and \<open>IsDirectory\<close> of src/src/filesystem.c. What the operating system
  decides (permissions, the size a directory stream reports) is data of the state that
  no operation changes. Streams are unbuffered: what \<open>fwrite\<close> writes is in the file.

  The locale \<open>byte_source\<close> is the interface by which the server reads the file it
  sends; it is interpreted on \<open>fread\<close>.
\<close>

section \<open>Files and streams\<close>

datatype fnode = Reg "byte list" | Dir

record ofile =
  of_path :: string
  of_pos :: nat
  of_writing :: bool

text \<open>
  \<open>r_perm\<close>, \<open>w_perm\<close> and \<open>c_perm\<close> give the error number with which reading, writing and
  creating a path is refused, 0 where it is allowed.
\<close>

record filesys =
  nodes :: "string \<rightharpoonup> fnode"
  handles :: "nat \<rightharpoonup> ofile"
  next_handle :: nat
  r_perm :: "string \<Rightarrow> nat"
  w_perm :: "string \<Rightarrow> nat"
  c_perm :: "string \<Rightarrow> nat"
  dir_size :: nat

definition fs_wf :: "filesys \<Rightarrow> bool" where
  "fs_wf fs \<longleftrightarrow> 0 < next_handle fs
     \<and> (\<forall>f. handles fs f \<noteq> None \<longrightarrow> 0 < f \<and> f < next_handle fs)"

definition open_handle :: "string \<Rightarrow> bool \<Rightarrow> filesys \<Rightarrow> nat \<times> filesys" where
  "open_handle path writing fs =
     (next_handle fs,
      fs\<lparr>handles := (handles fs)(next_handle fs \<mapsto>
             \<lparr>of_path = path, of_pos = 0, of_writing = writing\<rparr>),
         next_handle := Suc (next_handle fs)\<rparr>)"

text \<open>
  \<open>fopen(path, "rb")\<close> and \<open>fopen(path, "wb")\<close> (the text modes are the same on POSIX
  systems): the stream, 0 for a null pointer, and the new \<open>errno\<close>. A directory can be
  opened for reading.
\<close>

definition fopen_read :: "string \<Rightarrow> nat \<times> filesys \<Rightarrow> nat \<times> nat \<times> filesys" where
  "fopen_read path st =
     (case st of (e, fs) \<Rightarrow>
       (case nodes fs path of
          None \<Rightarrow> (0, ENOENT, fs)
        | Some _ \<Rightarrow>
            if r_perm fs path \<noteq> 0 then (0, r_perm fs path, fs)
            else (case open_handle path False fs of (f, fs') \<Rightarrow> (f, e, fs'))))"

definition fopen_write :: "string \<Rightarrow> nat \<times> filesys \<Rightarrow> nat \<times> nat \<times> filesys" where
  "fopen_write path st =
     (case st of (e, fs) \<Rightarrow>
       (let created = (case open_handle path True (fs\<lparr>nodes := (nodes fs)(path \<mapsto> Reg [])\<rparr>) of
                         (f, fs') \<Rightarrow> (f, e, fs'))
        in case nodes fs path of
             Some Dir \<Rightarrow> (0, EISDIR, fs)
           | Some (Reg _) \<Rightarrow> if w_perm fs path \<noteq> 0 then (0, w_perm fs path, fs) else created
           | None \<Rightarrow> if c_perm fs path \<noteq> 0 then (0, c_perm fs path, fs) else created))"

definition stream :: "nat \<Rightarrow> filesys \<Rightarrow> fault + ofile" where
  "stream f fs =
     (if f = 0 then Inl Null_deref
      else case handles fs f of None \<Rightarrow> Inl Use_after_free | Some o' \<Rightarrow> Inr o')"

definition file_bytes :: "string \<Rightarrow> filesys \<Rightarrow> byte list" where
  "file_bytes path fs = (case nodes fs path of Some (Reg bs) \<Rightarrow> bs | _ \<Rightarrow> [])"

definition fread :: "nat \<Rightarrow> nat \<Rightarrow> filesys \<Rightarrow> fault + byte list \<times> filesys" where
  "fread n f fs =
     and_then (stream f fs) (\<lambda>o'.
       if of_writing o' then Inr ([], fs)
       else let bs = take n (drop (of_pos o') (file_bytes (of_path o') fs))
            in Inr (bs, fs\<lparr>handles := (handles fs)(f \<mapsto> o'\<lparr>of_pos := of_pos o' + length bs\<rparr>)\<rparr>))"

definition overwrite :: "nat \<Rightarrow> byte list \<Rightarrow> byte list \<Rightarrow> byte list" where
  "overwrite pos bs old =
     take pos old @ replicate (pos - length old) NUL @ bs @ drop (pos + length bs) old"

definition fwrite :: "byte list \<Rightarrow> nat \<Rightarrow> filesys \<Rightarrow> fault + nat \<times> filesys" where
  "fwrite bs f fs =
     and_then (stream f fs) (\<lambda>o'.
       if \<not> of_writing o' then Inr (0, fs)
       else Inr (length bs,
              fs\<lparr>nodes := (nodes fs)(of_path o' \<mapsto>
                     Reg (overwrite (of_pos o') bs (file_bytes (of_path o') fs))),
                 handles := (handles fs)(f \<mapsto> o'\<lparr>of_pos := of_pos o' + length bs\<rparr>)\<rparr>))"

definition fclose :: "nat \<Rightarrow> filesys \<Rightarrow> fault + filesys" where
  "fclose f fs = and_then (stream f fs) (\<lambda>_. Inr (fs\<lparr>handles := (handles fs)(f := None)\<rparr>))"

text \<open>\<open>fseek(f, 0, SEEK_END); ftell(f)\<close>, and \<open>rewind(f)\<close>.\<close>

definition ftell_end :: "nat \<Rightarrow> filesys \<Rightarrow> fault + nat" where
  "ftell_end f fs =
     and_then (stream f fs) (\<lambda>o'.
       Inr (case nodes fs (of_path o') of
              Some (Reg bs) \<Rightarrow> length bs | Some Dir \<Rightarrow> dir_size fs | None \<Rightarrow> 0))"

definition rewind :: "nat \<Rightarrow> filesys \<Rightarrow> fault + filesys" where
  "rewind f fs =
     and_then (stream f fs) (\<lambda>o'. Inr (fs\<lparr>handles := (handles fs)(f \<mapsto> o'\<lparr>of_pos := 0\<rparr>)\<rparr>))"

text \<open>\<open>access(path, R_OK)\<close> and \<open>access(path, W_OK)\<close>: the result is 0 or the error number.\<close>

definition access_read :: "string \<Rightarrow> filesys \<Rightarrow> nat" where
  "access_read path fs = (if nodes fs path = None then ENOENT else r_perm fs path)"

definition access_write :: "string \<Rightarrow> filesys \<Rightarrow> nat" where
  "access_write path fs = (if nodes fs path = None then ENOENT else w_perm fs path)"

section \<open>filesystem.c\<close>

definition FileExists :: "string \<Rightarrow> nat \<times> filesys \<Rightarrow> fault + bool \<times> nat \<times> filesys" where
  "FileExists file st =
     (case st of (e, fs) \<Rightarrow>
       (case nodes fs file of
          None \<Rightarrow> Inr (False, ENOENT, fs)
        | Some Dir \<Rightarrow> Inr (False, e, fs)
        | Some (Reg _) \<Rightarrow>
            (case fopen_read file (e, fs) of (input, e1, fs1) \<Rightarrow>
               if input = 0 then Inr (False, e1, fs1)
               else and_then (fclose input fs1) (\<lambda>fs2.
                 if access_read file fs2 \<noteq> 0 then Inr (False, access_read file fs2, fs2)
                 else Inr (True, e1, fs2)))))"

definition IsDirectory :: "string \<Rightarrow> filesys \<Rightarrow> bool" where
  "IsDirectory dir fs = (nodes fs dir = Some Dir)"

section \<open>Frames\<close>

text \<open>What the operating system decides stays as it is.\<close>

definition same_perms :: "filesys \<Rightarrow> filesys \<Rightarrow> bool" where
  "same_perms fs fs' \<longleftrightarrow> r_perm fs' = r_perm fs \<and> w_perm fs' = w_perm fs
     \<and> c_perm fs' = c_perm fs \<and> dir_size fs' = dir_size fs"

lemma stream_eq_Inr: "stream f fs = Inr o' \<longleftrightarrow> f \<noteq> 0 \<and> handles fs f = Some o'"
  by (auto simp: stream_def split: option.splits)

lemma fs_wf_fresh: "fs_wf fs \<Longrightarrow> next_handle fs \<le> f \<Longrightarrow> handles fs f = None"
  by (metis fs_wf_def leD not_None_eq)

lemma fs_wf_handle: "fs_wf fs \<Longrightarrow> handles fs f = Some o' \<Longrightarrow> 0 < f \<and> f < next_handle fs"
  by (simp add: fs_wf_def)

lemma stream_live: "fs_wf fs \<Longrightarrow> handles fs f = Some o' \<Longrightarrow> stream f fs = Inr o'"
  by (simp add: stream_eq_Inr fs_wf_handle)

lemma open_handle_spec:
  assumes "fs_wf fs" "open_handle path wr fs = (f, fs')"
  shows "f \<noteq> 0" "fs_wf fs'" "handles fs f = None" "same_perms fs fs'" "nodes fs' = nodes fs"
    "handles fs' = (handles fs)(f \<mapsto> \<lparr>of_path = path, of_pos = 0, of_writing = wr\<rparr>)"
  using assms fs_wf_fresh [OF assms(1), of f]
  by (auto simp: open_handle_def fs_wf_def same_perms_def less_Suc_eq split: if_splits)

lemma fopen_read_spec:
  assumes "fs_wf fs" "fopen_read path (e, fs) = (f, e', fs')"
  shows "(f = 0 \<and> fs' = fs \<and> e' = access_read path fs \<and> e' \<noteq> 0)
    \<or> (f \<noteq> 0 \<and> e' = e \<and> access_read path fs = 0 \<and> fs_wf fs' \<and> handles fs f = None
        \<and> same_perms fs fs' \<and> nodes fs' = nodes fs
        \<and> handles fs' = (handles fs)(f \<mapsto> \<lparr>of_path = path, of_pos = 0, of_writing = False\<rparr>))"
proof (cases "access_read path fs = 0")
  case True
  then obtain g fs1 where g: "open_handle path False fs = (g, fs1)"
    by (meson surj_pair)
  have "nodes fs path \<noteq> None" "r_perm fs path = 0"
    using True by (auto simp: access_read_def ENOENT_def split: if_splits)
  then have "f = g" "e' = e" "fs' = fs1"
    using assms(2) g by (auto simp: fopen_read_def)
  with open_handle_spec [OF assms(1) g] True show ?thesis by auto
next
  case False
  with assms(2) show ?thesis
    by (auto simp: fopen_read_def access_read_def ENOENT_def split: option.splits if_splits)
qed

lemma fopen_write_spec:
  assumes "fs_wf fs" "fopen_write path (e, fs) = (f, e', fs')"
  shows "(f = 0 \<and> fs' = fs \<and> e' \<noteq> 0)
    \<or> (f \<noteq> 0 \<and> e' = e \<and> fs_wf fs' \<and> handles fs f = None
        \<and> same_perms fs fs' \<and> nodes fs' = (nodes fs)(path \<mapsto> Reg [])
        \<and> handles fs' = (handles fs)(f \<mapsto> \<lparr>of_path = path, of_pos = 0, of_writing = True\<rparr>))"
proof -
  let ?fs = "fs\<lparr>nodes := (nodes fs)(path \<mapsto> Reg [])\<rparr>"
  obtain g fs1 where g: "open_handle path True ?fs = (g, fs1)"
    by (meson surj_pair)
  have wf: "fs_wf ?fs"
    using assms(1) by (simp add: fs_wf_def)
  show ?thesis
  proof (cases "f = 0")
    case True
    with assms(2) g open_handle_spec(1) [OF wf g] show ?thesis
      by (auto simp: fopen_write_def Let_def EISDIR_def split: option.splits fnode.splits if_splits)
  next
    case False
    with assms(2) g have "f = g" "e' = e" "fs' = fs1"
      by (auto simp: fopen_write_def Let_def split: option.splits fnode.splits if_splits)
    with open_handle_spec [OF wf g] False show ?thesis
      by (auto simp: same_perms_def)
  qed
qed

lemma FileExists_spec:
  assumes "fs_wf fs"
  shows "\<exists>e' fs'. FileExists path (e, fs)
      = Inr ((\<exists>bs. nodes fs path = Some (Reg bs)) \<and> r_perm fs path = 0, e', fs')
    \<and> fs_wf fs' \<and> nodes fs' = nodes fs \<and> handles fs' = handles fs \<and> same_perms fs fs'
    \<and> (e' = e \<or> e' = access_read path fs)"
proof (cases "\<exists>bs. nodes fs path = Some (Reg bs)")
  case True
  then obtain bs where bs: "nodes fs path = Some (Reg bs)" ..
  obtain f e1 fs1 where f: "fopen_read path (e, fs) = (f, e1, fs1)"
    by (metis surj_pair)
  from fopen_read_spec [OF assms f] show ?thesis
  proof (elim disjE conjE)
    assume "f = 0" "fs1 = fs" "e1 = access_read path fs" "e1 \<noteq> 0"
    with bs f assms show ?thesis
      by (simp add: FileExists_def access_read_def same_perms_def)
  next
    assume *: "f \<noteq> 0" "e1 = e" "access_read path fs = 0" "fs_wf fs1" "handles fs f = None"
      "same_perms fs fs1" "nodes fs1 = nodes fs"
      "handles fs1 = (handles fs)(f \<mapsto> \<lparr>of_path = path, of_pos = 0, of_writing = False\<rparr>)"
    let ?fs2 = "fs1\<lparr>handles := (handles fs1)(f := None)\<rparr>"
    have "fclose f fs1 = Inr ?fs2"
      using * by (simp add: fclose_def stream_def)
    moreover have "access_read path ?fs2 = 0"
      using * by (auto simp: access_read_def same_perms_def split: if_splits)
    moreover have "handles ?fs2 = handles fs" "fs_wf ?fs2" "same_perms fs ?fs2"
      using * by (auto simp: fs_wf_def same_perms_def)
    moreover have "r_perm fs path = 0"
      using * bs by (simp add: access_read_def)
    ultimately show ?thesis
      using bs f * by (simp add: FileExists_def)
  qed
next
  case False
  with assms show ?thesis
    by (auto simp: FileExists_def access_read_def same_perms_def split: option.splits fnode.splits)
qed

section \<open>Reading a file block by block\<close>

text \<open>The block number \<open>i\<close> (from 0) of a file cut into blocks of \<open>b\<close> bytes.\<close>

definition block_of :: "nat \<Rightarrow> nat \<Rightarrow> byte list \<Rightarrow> byte list" where
  "block_of b i bs = take b (drop (i * b) bs)"

definition blocks_of :: "nat \<Rightarrow> nat \<Rightarrow> byte list \<Rightarrow> byte list list" where
  "blocks_of b n bs = map (\<lambda>i. block_of b i bs) [0..<n]"

lemma concat_blocks_of: "concat (blocks_of b n bs) = take (n * b) bs"
proof (induction n)
  case (Suc n)
  then show ?case
    by (simp add: blocks_of_def block_of_def take_add add.commute [of b])
qed (simp add: blocks_of_def)

text \<open>The whole file, once enough blocks are taken: those that end at the first short one.\<close>

lemma concat_blocks_of_all: "length bs \<le> n * b \<Longrightarrow> concat (blocks_of b n bs) = bs"
  by (simp add: concat_blocks_of)

lemma length_block_of: "length (block_of b i bs) = min b (length bs - i * b)"
  by (simp add: block_of_def min.commute)

lemma block_of_full_iff:
  "0 < b \<Longrightarrow> length (block_of b i bs) = b \<longleftrightarrow> Suc i \<le> length bs div b"
  by (auto simp: length_block_of min_def less_eq_div_iff_mult_less_eq)

locale byte_source =
  fixes read :: "nat \<Rightarrow> 's \<Rightarrow> fault + byte list \<times> 's"
    and rest :: "'s \<Rightarrow> byte list"
    and ok :: "'s \<Rightarrow> bool"
  assumes read_law:
    "ok s \<Longrightarrow> \<exists>s'. read n s = Inr (take n (rest s), s') \<and> ok s' \<and> rest s' = drop n (rest s)"
begin

text \<open>Reading again and again with the same size delivers the blocks in order.\<close>

lemma read_block:
  assumes "ok s" "rest s = drop (i * b) bs"
  shows "\<exists>s'. read b s = Inr (block_of b i bs, s') \<and> ok s' \<and> rest s' = drop (Suc i * b) bs"
  using read_law [OF assms(1), of b] assms(2) by (auto simp: block_of_def)

lemma read_at_end: "ok s \<Longrightarrow> rest s = [] \<Longrightarrow> \<exists>s'. read n s = Inr ([], s') \<and> ok s' \<and> rest s' = []"
  using read_law [of s n] by auto

end

text \<open>The bytes a stream opened for reading has not delivered yet.\<close>

definition unread :: "nat \<Rightarrow> filesys \<Rightarrow> byte list" where
  "unread f fs =
     (case handles fs f of None \<Rightarrow> [] | Some o' \<Rightarrow> drop (of_pos o') (file_bytes (of_path o') fs))"

definition reading :: "nat \<Rightarrow> filesys \<Rightarrow> bool" where
  "reading f fs \<longleftrightarrow> f \<noteq> 0 \<and> (\<exists>o'. handles fs f = Some o' \<and> \<not> of_writing o')"

interpretation cfile: byte_source "\<lambda>n fs. fread n f fs" "unread f" "reading f" for f
proof unfold_locales
  fix fs n
  assume "reading f fs"
  then obtain o' where o': "f \<noteq> 0" "handles fs f = Some o'" "\<not> of_writing o'"
    by (auto simp: reading_def)
  then have "fread n f fs = Inr (take n (unread f fs),
      fs\<lparr>handles := (handles fs)(f \<mapsto> o'\<lparr>of_pos := of_pos o' + length (take n (unread f fs))\<rparr>)\<rparr>)"
    by (simp add: fread_def stream_def unread_def Let_def)
  moreover have "drop (of_pos o' + length (take n (unread f fs))) (file_bytes (of_path o') fs)
      = drop n (unread f fs)"
    using o' by (auto simp: unread_def min_def add.commute)
  ultimately show "\<exists>fs'. fread n f fs = Inr (take n (unread f fs), fs') \<and> reading f fs'
      \<and> unread f fs' = drop n (unread f fs)"
    using o' by (simp add: reading_def unread_def file_bytes_def)
qed

lemma fread_frame:
  "fread n f fs = Inr (bs, fs') \<Longrightarrow>
     nodes fs' = nodes fs \<and> next_handle fs' = next_handle fs \<and> same_perms fs fs'
     \<and> (\<forall>g. g \<noteq> f \<longrightarrow> handles fs' g = handles fs g) \<and> length bs \<le> n"
  by (auto simp: fread_def and_then_eq_Inr same_perms_def Let_def split: if_splits)

lemma fs_wf_fread: "fs_wf fs \<Longrightarrow> fread n f fs = Inr (bs, fs') \<Longrightarrow> fs_wf fs'"
  by (auto simp: fread_def and_then_eq_Inr Let_def stream_eq_Inr fs_wf_def split: if_splits)

section \<open>Writing a file part by part\<close>

text \<open>The stream \<open>f\<close> writes the file \<open>path\<close>, which so far holds \<open>bs\<close>, at its end.\<close>

definition appending :: "nat \<Rightarrow> string \<Rightarrow> byte list \<Rightarrow> filesys \<Rightarrow> bool" where
  "appending f path bs fs \<longleftrightarrow> f \<noteq> 0
     \<and> handles fs f = Some \<lparr>of_path = path, of_pos = length bs, of_writing = True\<rparr>
     \<and> nodes fs path = Some (Reg bs)"

lemma fwrite_appending:
  assumes "appending f path bs fs"
  shows "\<exists>fs'. fwrite xs f fs = Inr (length xs, fs') \<and> appending f path (bs @ xs) fs'
    \<and> same_perms fs fs' \<and> (\<forall>q. q \<noteq> path \<longrightarrow> nodes fs' q = nodes fs q)
    \<and> (\<forall>g. g \<noteq> f \<longrightarrow> handles fs' g = handles fs g)"
  using assms
  by (simp add: appending_def fwrite_def stream_def file_bytes_def overwrite_def same_perms_def)

end
