(* ===== verification/Module_Events.thy ===== *)
theory Module_Events
  imports Vec
begin

text \<open>
  The module list and the event calls of src/src/module.c and src/include/module.h. A module
  is a shared object that is not part of the repository: what \<open>dlopen\<close> and \<open>dlsym\<close> find
  is the parameter \<open>image\<close>, and a hook is a number. Calling a hook is recorded in the
  log of the state; hooks are taken as observers, they change nothing else.
\<close>

section \<open>Events and modules\<close>

datatype event_type =
    EV_BEGIN | EV_MODLOAD | EV_MODUNLOAD | EV_SOCKETACTIVITY | EV_NEWREADREQUEST
  | EV_NEWWRITEREQUEST | EV_DATA_PACKET | EV_ACK_PACKET | EV_ERROR_PACKET
  | EV_UNKNOWN_PACKET | EV_SENDING_PACKETS | EV_RECEIVING_PACKETS | EV_RESEND | EV_TICK
  | EV_SIGNAL | EV_END

record event =
  ev_type :: event_type
  ev_func :: nat

record module_info =
  mi_name :: string
  mi_events :: "event list"

record module =
  mod_handle :: nat
  mod_path :: addr
  mod_info :: module_info

text \<open>
  The state: the vector of modules, the log of hook calls, and the handles \<open>dlopen\<close> gave
  out that are still open. An image is what the symbols \<open>_minfo\<close> and \<open>__minfo\<close> of a
  shared object resolve to.
\<close>

record modsys =
  modules :: "module list"
  evlog :: "(nat \<times> event_type) list"
  dl_next :: nat
  dl_open :: "nat list"

type_synonym image = "module_info option \<times> module_info option"

section \<open>Calling events\<close>

definition CallModuleEvent :: "module \<Rightarrow> event_type \<Rightarrow> modsys \<Rightarrow> modsys" where
  "CallModuleEvent m t ms =
     fold (\<lambda>ev ms. if ev_type ev = t then ms\<lparr>evlog := evlog ms @ [(ev_func ev, t)]\<rparr> else ms)
       (mi_events (mod_info m)) ms"

definition CallEvent :: "event_type \<Rightarrow> modsys \<Rightarrow> modsys" where
  "CallEvent t ms = fold (\<lambda>m. CallModuleEvent m t) (modules ms) ms"

text \<open>The hooks one event reaches, in the order of the modules and of their event lists.\<close>

definition hooks :: "event_type \<Rightarrow> module list \<Rightarrow> nat list" where
  "hooks t mods =
     concat (map (\<lambda>m. map ev_func (filter (\<lambda>ev. ev_type ev = t) (mi_events (mod_info m)))) mods)"

lemma CallModuleEvent_log:
  "CallModuleEvent m t ms = ms\<lparr>evlog := evlog ms @ map (\<lambda>f. (f, t)) (hooks t [m])\<rparr>"
proof -
  have "fold (\<lambda>ev ms. if ev_type ev = t then ms\<lparr>evlog := evlog ms @ [(ev_func ev, t)]\<rparr> else ms) evs ms
      = ms\<lparr>evlog := evlog ms
          @ map (\<lambda>f. (f, t)) (map ev_func (filter (\<lambda>ev. ev_type ev = t) evs))\<rparr>" for evs
    by (induction evs arbitrary: ms) simp_all
  then show ?thesis
    by (simp add: CallModuleEvent_def hooks_def)
qed

lemma CallEvent_log:
  "CallEvent t ms = ms\<lparr>evlog := evlog ms @ map (\<lambda>f. (f, t)) (hooks t (modules ms))\<rparr>"
proof -
  have "fold (\<lambda>m. CallModuleEvent m t) mods ms
      = ms\<lparr>evlog := evlog ms @ map (\<lambda>f. (f, t)) (hooks t mods)\<rparr>" for mods
    by (induction mods arbitrary: ms) (simp_all add: CallModuleEvent_log hooks_def)
  then show ?thesis
    by (simp add: CallEvent_def)
qed

lemma CallEvent_frame [simp]:
  "modules (CallEvent t ms) = modules ms" "dl_open (CallEvent t ms) = dl_open ms"
  "dl_next (CallEvent t ms) = dl_next ms"
  by (simp_all add: CallEvent_log)

section \<open>Loading, finding, unloading\<close>

definition LoadModule ::
  "(string \<Rightarrow> image option) \<Rightarrow> string \<Rightarrow> heap \<times> modsys \<Rightarrow> fault + (int \<times> module option) \<times> heap \<times> modsys"
where
  "LoadModule dlopen str st =
     (case st of (h, ms) \<Rightarrow>
       (case dlopen str of
          None \<Rightarrow> Inr ((- 1, None), h, ms)
        | Some (mi1, mi2) \<Rightarrow>
            (let hd = dl_next ms;
                 ms1 = ms\<lparr>dl_next := Suc hd, dl_open := hd # dl_open ms\<rparr>
             in case strdup str h of (path, h1) \<Rightarrow>
               (case (if mi1 = None then mi2 else mi1) of
                  None \<Rightarrow> Inr ((- 1, None), h1, ms1\<lparr>dl_open := remove1 hd (dl_open ms1)\<rparr>)
                | Some mi \<Rightarrow>
                    (let m = \<lparr>mod_handle = hd, mod_path = path, mod_info = mi\<rparr>
                     in and_then (list_push m (modules ms1, h1)) (\<lambda>(mods, h2).
                          Inr ((0, Some m), h2, CallEvent EV_MODLOAD (ms1\<lparr>modules := mods\<rparr>))))))))"

text \<open>The search loops of \<open>FindModule\<close> and \<open>UnloadModule\<close> compare names with \<open>strcmp\<close>.\<close>

fun name_index :: "string \<Rightarrow> module list \<Rightarrow> nat option" where
  "name_index name [] = None"
| "name_index name (m # ms) =
     (if mi_name (mod_info m) = name then Some 0 else map_option Suc (name_index name ms))"

definition FindModule :: "string \<Rightarrow> modsys \<Rightarrow> int \<times> module option" where
  "FindModule name ms =
     (case name_index name (modules ms) of
        None \<Rightarrow> (- 1, None) | Some i \<Rightarrow> (0, Some (modules ms ! i)))"

definition UnloadModule :: "module \<Rightarrow> heap \<times> modsys \<Rightarrow> fault + heap \<times> modsys" where
  "UnloadModule m st =
     (case st of (h, ms) \<Rightarrow>
       let ms1 = CallEvent EV_MODUNLOAD ms in
       and_then (case name_index (mi_name (mod_info m)) (modules ms1) of
                   None \<Rightarrow> Inr (modules ms1)
                 | Some i \<Rightarrow> list_delete_at i (modules ms1)) (\<lambda>mods.
       let ms2 = ms1\<lparr>modules := mods,
                     dl_open := (if mod_handle m \<noteq> 0 then remove1 (mod_handle m) (dl_open ms1)
                                 else dl_open ms1)\<rparr> in
       and_then (if mod_path m \<noteq> NULL then free (mod_path m) h else Inr h) (\<lambda>h1.
         Inr (h1, ms2))))"

text \<open>
  \<open>InitializeModules\<close> loads every module block of the configuration (name, path) in order,
  by its path if it has one; a null name is refused by the assertion of \<open>LoadModule\<close>.
  What \<open>LoadModule\<close> returns is ignored.
\<close>

fun load_blocks ::
  "(string \<Rightarrow> image option) \<Rightarrow> (string option \<times> string option) list \<Rightarrow> heap \<times> modsys
    \<Rightarrow> fault + heap \<times> modsys" where
  "load_blocks dlopen [] st = Inr st"
| "load_blocks dlopen ((name, path) # bs) st =
     (case (if path \<noteq> None then path else name) of
        None \<Rightarrow> Inl Assert_failed
      | Some str \<Rightarrow>
          and_then (LoadModule dlopen str st) (\<lambda>(r, st'). load_blocks dlopen bs st'))"

definition InitializeModules ::
  "(string \<Rightarrow> image option) \<Rightarrow> (string option \<times> string option) list \<Rightarrow> heap \<times> modsys
    \<Rightarrow> fault + heap \<times> modsys" where
  "InitializeModules dlopen bs st =
     (case st of (h, ms) \<Rightarrow> load_blocks dlopen bs (h, ms\<lparr>modules := []\<rparr>))"

lemma name_index_Some:
  "name_index name ms = Some i \<Longrightarrow> i < length ms \<and> mi_name (mod_info (ms ! i)) = name
    \<and> (\<forall>j < i. mi_name (mod_info (ms ! j)) \<noteq> name)"
proof (induction ms arbitrary: i)
  case (Cons m ms)
  then show ?case
    by (auto simp: nth_Cons split: if_splits nat.splits)
qed simp

lemma name_index_None:
  "name_index name ms = None \<longleftrightarrow> (\<forall>m \<in> set ms. mi_name (mod_info m) \<noteq> name)"
  by (induction ms) auto

lemma name_index_snoc:
  "(\<forall>m' \<in> set ms. mi_name (mod_info m') \<noteq> mi_name (mod_info m)) \<Longrightarrow>
     name_index (mi_name (mod_info m)) (ms @ [m]) = Some (length ms)"
  by (induction ms) auto

text \<open>
  Loading a module under a new name makes it the one \<open>FindModule\<close> finds by that name, at
  the end of the list.
\<close>

lemma LoadModule_find:
  assumes "LoadModule dlopen str (h, ms) = Inr ((r, Some m), h', ms')"
    and "\<forall>m' \<in> set (modules ms). mi_name (mod_info m') \<noteq> mi_name (mod_info m)"
  shows "r = 0 \<and> modules ms' = modules ms @ [m] \<and> FindModule (mi_name (mod_info m)) ms' = (0, Some m)"
  using assms name_index_snoc [OF assms(2)]
  by (auto simp: LoadModule_def Let_def and_then_eq_Inr list_push_def FindModule_def
      split: option.splits prod.splits if_splits)

text \<open>Unloading what was just loaded restores the module list and the open handles.\<close>

lemma Load_Unload:
  assumes wf: "heap_wf h" and load: "LoadModule dlopen str (h, ms) = Inr ((r, Some m), h', ms')"
    and new: "\<forall>m' \<in> set (modules ms). mi_name (mod_info m') \<noteq> mi_name (mod_info m)"
    and handle: "dl_next ms \<noteq> 0" "dl_next ms \<notin> set (dl_open ms)"
  shows "\<exists>h'' ms''. UnloadModule m (h', ms') = Inr (h'', ms'') \<and> modules ms'' = modules ms
    \<and> dl_open ms'' = dl_open ms \<and> (\<forall>p < brk h. blocks h'' p = blocks h p)"
proof -
  from load obtain mi p h1 where m: "m = \<lparr>mod_handle = dl_next ms, mod_path = p, mod_info = mi\<rparr>"
    and dup: "strdup str h = (p, h1)" and h': "h' = h1\<lparr>brk := Suc (brk h1)\<rparr>"
    and ms': "modules ms' = modules ms @ [m]" "dl_open ms' = dl_next ms # dl_open ms"
    by (auto simp: LoadModule_def Let_def and_then_eq_Inr list_push_def
        split: option.splits prod.splits if_splits)
  have idx: "name_index (mi_name (mod_info m)) (modules ms') = Some (length (modules ms))"
    using name_index_snoc [OF new] ms'(1) by simp
  have p: "(p = NULL \<and> blocks h1 = blocks h)
      \<or> (p = brk h \<and> p \<noteq> NULL \<and> blocks h1 = (blocks h)(p \<mapsto> str @ [NUL]))"
    using dup heap_wf_brk [OF wf] by (auto simp: strdup_eq split: if_splits)
  then have "\<exists>h''. (if p \<noteq> NULL then free p h' else Inr h') = Inr h''
      \<and> (\<forall>q < brk h. blocks h'' q = blocks h q)"
    by (auto simp: h' free_def)
  then show ?thesis
    using idx handle ms' by (auto simp: UnloadModule_def Let_def list_delete_at_def m)
qed

end
