(* ===== verification/Multiplexer.thy ===== *)
theory Multiplexer
  imports Vec
begin

text \<open>
  The multiplexer interface of src/include/multiplexer.h. The locale \<open>multiplexer\<close> states
  what the callers rely on: which file descriptors are watched, and for what. The locale
  \<open>strict_multiplexer\<close> adds what epoll and poll promise but select does not: any status can
  be asked for whatever the caller remembers, and an unknown descriptor is refused. Two
  strict multiplexers cannot be told apart by the calls of this interface.
\<close>

unbundle bit_operations_syntax

section \<open>Status flags\<close>

type_synonym flags = "32 word"

definition SF_WRITABLE :: flags where "SF_WRITABLE = 1"
definition SF_READABLE :: flags where "SF_READABLE = 2"

definition has_flag :: "'a :: len word \<Rightarrow> 'a word \<Rightarrow> bool" where
  "has_flag st fl \<longleftrightarrow> st AND fl \<noteq> 0"

lemma has_flag_simps [simp]:
  "has_flag SF_READABLE SF_READABLE" "\<not> has_flag SF_READABLE SF_WRITABLE"
  "has_flag SF_WRITABLE SF_WRITABLE" "\<not> has_flag SF_WRITABLE SF_READABLE"
  "has_flag (SF_WRITABLE OR SF_READABLE) SF_READABLE"
  "has_flag (SF_WRITABLE OR SF_READABLE) SF_WRITABLE"
  "\<not> has_flag 0 fl"
  by (simp_all add: has_flag_def SF_WRITABLE_def SF_READABLE_def)

section \<open>The contract\<close>

text \<open>
  \<open>watch m fd\<close> is \<open>None\<close> when \<open>fd\<close> is not watched, else whether it is watched for
  reading and for writing. The operations work on the descriptor and answer 0 or -1, the
  new flags of the socket structure and the new state; they may fault. \<open>synced m fd fl\<close>
  says that the flags \<open>fl\<close> a caller remembers for \<open>fd\<close> are those the state has.
\<close>

type_synonym watching = "int \<rightharpoonup> bool \<times> bool"

locale multiplexer =
  fixes watch :: "'m \<Rightarrow> watching"
    and ok :: "'m \<Rightarrow> bool"
    and synced :: "'m \<Rightarrow> int \<Rightarrow> flags \<Rightarrow> bool"
    and add :: "int \<Rightarrow> 'm \<Rightarrow> fault + int \<times> flags \<times> 'm"
    and remove :: "int \<Rightarrow> flags \<Rightarrow> 'm \<Rightarrow> fault + int \<times> 'm"
    and set_status :: "int \<Rightarrow> flags \<Rightarrow> flags \<Rightarrow> 'm \<Rightarrow> fault + int \<times> flags \<times> 'm"
  assumes add_law:
      "ok m \<Longrightarrow> watch m fd = None \<Longrightarrow> add fd m = Inr (0, fl', m') \<Longrightarrow>
         ok m' \<and> fl' = SF_READABLE \<and> watch m' = (watch m)(fd \<mapsto> (True, False)) \<and> synced m' fd fl'"
    and remove_law:
      "ok m \<Longrightarrow> watch m fd \<noteq> None \<Longrightarrow> synced m fd fl \<Longrightarrow>
         \<exists>m'. remove fd fl m = Inr (0, m') \<and> ok m' \<and> watch m' = (watch m)(fd := None)"
    and status_law:
      "ok m \<Longrightarrow> watch m fd = Some (True, wr) \<Longrightarrow> has_flag st SF_READABLE \<Longrightarrow> synced m fd fl \<Longrightarrow>
         \<exists>m'. set_status fd st fl m = Inr (0, st, m') \<and> ok m' \<and> synced m' fd st
           \<and> watch m' = (watch m)(fd \<mapsto> (True, has_flag st SF_WRITABLE))"
begin

lemma add_remove:
  assumes "ok m" "watch m fd = None" "add fd m = Inr (0, fl', m')"
  shows "\<exists>m''. remove fd fl' m' = Inr (0, m'') \<and> ok m'' \<and> watch m'' = watch m"
  using add_law [OF assms] remove_law [of m' fd fl'] assms(2) by (auto simp: fun_upd_idem)

text \<open>Asking to write and, once the data is out, going back to reading only.\<close>

lemma write_then_read:
  assumes "ok m" "watch m fd = Some (True, False)" "synced m fd fl"
  shows "\<exists>m1 m2. set_status fd (SF_WRITABLE OR SF_READABLE) fl m = Inr (0, SF_WRITABLE OR SF_READABLE, m1)
    \<and> watch m1 fd = Some (True, True)
    \<and> set_status fd SF_READABLE (SF_WRITABLE OR SF_READABLE) m1 = Inr (0, SF_READABLE, m2)
    \<and> watch m2 = watch m"
proof -
  from status_law [OF assms(1,2) _ assms(3), of "SF_WRITABLE OR SF_READABLE"] obtain m1 where
    m1: "set_status fd (SF_WRITABLE OR SF_READABLE) fl m = Inr (0, SF_WRITABLE OR SF_READABLE, m1)"
      "ok m1" "synced m1 fd (SF_WRITABLE OR SF_READABLE)" "watch m1 = (watch m)(fd \<mapsto> (True, True))"
    by auto
  from status_law [OF m1(2) _ _ m1(3), of True SF_READABLE] m1(4) obtain m2 where
    "set_status fd SF_READABLE (SF_WRITABLE OR SF_READABLE) m1 = Inr (0, SF_READABLE, m2)"
    "watch m2 = (watch m1)(fd \<mapsto> (True, False))"
    by auto
  with m1 assms(2) show ?thesis
    by (auto simp: fun_upd_idem)
qed

end

section \<open>Sequences of calls\<close>

datatype mux_op = Add int | Remove int | Status int flags

text \<open>What a sequence of calls answers and leaves, for any implementation.\<close>

fun mux_run ::
  "(int \<Rightarrow> 'm \<Rightarrow> fault + int \<times> flags \<times> 'm) \<Rightarrow> (int \<Rightarrow> flags \<Rightarrow> 'm \<Rightarrow> fault + int \<times> 'm) \<Rightarrow>
   (int \<Rightarrow> flags \<Rightarrow> flags \<Rightarrow> 'm \<Rightarrow> fault + int \<times> flags \<times> 'm) \<Rightarrow> mux_op list \<Rightarrow> 'm \<Rightarrow> fault + int list \<times> 'm"
where
  "mux_run add remove set_status [] m = Inr ([], m)"
| "mux_run add remove set_status (cmd # cmds) m =
     and_then (case cmd of
         Add fd \<Rightarrow> and_then (add fd m) (\<lambda>(r, fl, m1). Inr (r, m1))
       | Remove fd \<Rightarrow> remove fd 0 m
       | Status fd st \<Rightarrow> and_then (set_status fd st 0 m) (\<lambda>(r, fl, m1). Inr (r, m1))) (\<lambda>(r, m1).
     and_then (mux_run add remove set_status cmds m1) (\<lambda>(rs, m'). Inr (r # rs, m')))"

text \<open>The same on the abstract state, the descriptors watched and for what.\<close>

fun spec_op :: "mux_op \<Rightarrow> watching \<Rightarrow> int \<times> watching" where
  "spec_op (Add fd) w = (0, w(fd \<mapsto> (True, False)))"
| "spec_op (Remove fd) w = (if w fd = None then (- 1, w) else (0, w(fd := None)))"
| "spec_op (Status fd st) w =
     (if w fd = None then (- 1, w)
      else (0, w(fd \<mapsto> (has_flag st SF_READABLE, has_flag st SF_WRITABLE))))"

fun spec_run :: "mux_op list \<Rightarrow> watching \<Rightarrow> int list \<times> watching" where
  "spec_run [] w = ([], w)"
| "spec_run (cmd # cmds) w =
     (case spec_op cmd w of (r, w1) \<Rightarrow> case spec_run cmds w1 of (rs, w') \<Rightarrow> (r # rs, w'))"

text \<open>Only descriptors that are not watched are added, and only such that \<open>A\<close> allows.\<close>

fun adds_fresh :: "mux_op list \<Rightarrow> (int \<Rightarrow> bool) \<Rightarrow> watching \<Rightarrow> bool" where
  "adds_fresh [] A w = True"
| "adds_fresh (cmd # cmds) A w \<longleftrightarrow>
     (case cmd of Add fd \<Rightarrow> w fd = None \<and> A fd | _ \<Rightarrow> True) \<and> adds_fresh cmds A (snd (spec_op cmd w))"

lemma adds_fresh_mono: "adds_fresh cmds A w \<Longrightarrow> (\<And>fd. A fd \<Longrightarrow> B fd) \<Longrightarrow> adds_fresh cmds B w"
  by (induction cmds arbitrary: w) (auto split: mux_op.splits)

locale strict_multiplexer = multiplexer +
  fixes can_add :: "'a \<Rightarrow> int \<Rightarrow> bool"
  assumes synced_law: "synced m fd fl"
    and any_status_law:
      "ok m \<Longrightarrow> watch m fd \<noteq> None \<Longrightarrow>
         \<exists>m'. set_status fd st fl m = Inr (0, st, m') \<and> ok m'
           \<and> watch m' = (watch m)(fd \<mapsto> (has_flag st SF_READABLE, has_flag st SF_WRITABLE))"
    and unknown_law:
      "ok m \<Longrightarrow> watch m fd = None \<Longrightarrow>
         remove fd fl m = Inr (- 1, m) \<and> (\<exists>fl'. set_status fd st fl m = Inr (- 1, fl', m))"
    and add_total: "ok m \<Longrightarrow> watch m fd = None \<Longrightarrow> can_add m fd \<Longrightarrow> \<exists>fl' m'. add fd m = Inr (0, fl', m')"
    and can_add_kept:
      "add fd m = Inr (r, fl', m') \<Longrightarrow> can_add m' g = can_add m g"
      "remove fd fl m = Inr (r, m') \<Longrightarrow> can_add m' g = can_add m g"
      "set_status fd st fl m = Inr (r, fl', m') \<Longrightarrow> can_add m' g = can_add m g"
begin

lemma refines_spec:
  "ok m \<Longrightarrow> adds_fresh cmds (can_add m) (watch m) \<Longrightarrow>
     \<exists>rs m'. mux_run add remove set_status cmds m = Inr (rs, m') \<and> ok m' \<and> spec_run cmds (watch m) = (rs, watch m')"
proof (induction cmds arbitrary: m)
  case (Cons cmd cmds)
  have "\<exists>r m1. (case cmd of
         Add fd \<Rightarrow> and_then (add fd m) (\<lambda>(r, fl, m1). Inr (r, m1))
       | Remove fd \<Rightarrow> remove fd 0 m
       | Status fd st \<Rightarrow> and_then (set_status fd st 0 m) (\<lambda>(r, fl, m1). Inr (r, m1))) = Inr (r, m1)
    \<and> ok m1 \<and> spec_op cmd (watch m) = (r, watch m1) \<and> can_add m1 = can_add m"
  proof (cases cmd)
    case (Add fd)
    with Cons.prems obtain fl' m1 where "add fd m = Inr (0, fl', m1)" "watch m fd = None"
      using add_total [of m fd] by auto
    with Add Cons.prems(1) add_law [of m fd fl' m1] can_add_kept(1) [of fd m 0 fl' m1] show ?thesis
      by (auto simp: fun_eq_iff)
  next
    case (Remove fd)
    obtain r m1 where "remove fd 0 m = Inr (r, m1)" "ok m1" "spec_op cmd (watch m) = (r, watch m1)"
      using Remove Cons.prems(1) remove_law [of m fd 0] unknown_law [of m fd 0] synced_law
      by (cases "watch m fd = None") auto
    with Remove can_add_kept(2) [of fd 0 m r m1] show ?thesis by (auto simp: fun_eq_iff)
  next
    case (Status fd st)
    obtain r fl' m1 where "set_status fd st 0 m = Inr (r, fl', m1)" "ok m1" "spec_op cmd (watch m) = (r, watch m1)"
      using Status Cons.prems(1) any_status_law [of m fd st 0] unknown_law [of m fd 0 st]
      by (cases "watch m fd = None") auto
    with Status can_add_kept(3) [of fd st 0 m r fl' m1] show ?thesis by (auto simp: fun_eq_iff)
  qed
  then obtain r m1 where one: "(case cmd of
         Add fd \<Rightarrow> and_then (add fd m) (\<lambda>(r, fl, m1). Inr (r, m1))
       | Remove fd \<Rightarrow> remove fd 0 m
       | Status fd st \<Rightarrow> and_then (set_status fd st 0 m) (\<lambda>(r, fl, m1). Inr (r, m1))) = Inr (r, m1)"
    and m1: "ok m1" "spec_op cmd (watch m) = (r, watch m1)" "can_add m1 = can_add m"
    by blast
  from Cons.prems(2) m1 have "adds_fresh cmds (can_add m1) (watch m1)" by simp
  from Cons.IH [OF m1(1) this] one m1(2) show ?case by auto
qed simp

end

locale two_multiplexers =
  A: strict_multiplexer watchA okA syncedA addA removeA statusA can_addA +
  B: strict_multiplexer watchB okB syncedB addB removeB statusB can_addB
  for watchA :: "'a \<Rightarrow> watching" and okA syncedA addA removeA statusA can_addA
    and watchB :: "'b \<Rightarrow> watching" and okB syncedB addB removeB statusB can_addB
begin

lemma same_answers:
  assumes "okA a" "okB b" "watchA a = watchB b"
    and "adds_fresh cmds (can_addA a) (watchA a)" "adds_fresh cmds (can_addB b) (watchB b)"
  shows "\<exists>rs a' b'. mux_run addA removeA statusA cmds a = Inr (rs, a')
    \<and> mux_run addB removeB statusB cmds b = Inr (rs, b') \<and> spec_run cmds (watchA a) = (rs, watchA a') \<and> watchA a' = watchB b'"
  using A.refines_spec [OF assms(1,4)] B.refines_spec [OF assms(2,5)] assms(3) by auto

end

end
