(* ===== verification/Epoll.thy ===== *)
theory Epoll
  imports Multiplexer
begin

text \<open>
  src/src/multiplexers/multiplexer_epoll.c, the multiplexer a Linux build selects, on a
  model of the kernel's interest list.
\<close>

section \<open>epoll\<close>

definition EPOLLIN :: flags where "EPOLLIN = 1"
definition EPOLLOUT :: flags where "EPOLLOUT = 4"
definition EPOLLERR :: flags where "EPOLLERR = 8"
definition EPOLLHUP :: flags where "EPOLLHUP = 16"

text \<open>
  The kernel's side: the descriptors that are open and the interest list of the epoll
  instance. \<open>epoll_ctl\<close> refuses to add what is there or not open, and to change or
  delete what is not there. The file's side: the vector \<open>events\<close>, cell by cell, of descriptors and
  their events, and which requests of memory for it are granted.
\<close>

record epoll =
  interest :: "int \<rightharpoonup> flags"
  open_fds :: "int set"
  ep_events :: "(int \<times> flags) vec"
  ep_avail :: "64 word \<Rightarrow> bool"

text \<open>The size of \<open>struct epoll_event\<close>, which is packed on a 64-bit system.\<close>

definition sizeof_epoll_event :: int where "sizeof_epoll_event = 12"

definition epoll_ctl_add :: "int \<Rightarrow> flags \<Rightarrow> epoll \<Rightarrow> int \<times> epoll" where
  "epoll_ctl_add fd ev k =
     (if fd \<in> open_fds k \<and> interest k fd = None
      then (0, k\<lparr>interest := (interest k)(fd \<mapsto> ev)\<rparr>) else (- 1, k))"

definition epoll_ctl_mod :: "int \<Rightarrow> flags \<Rightarrow> epoll \<Rightarrow> int \<times> epoll" where
  "epoll_ctl_mod fd ev k =
     (if interest k fd \<noteq> None
      then (0, k\<lparr>interest := (interest k)(fd \<mapsto> ev)\<rparr>) else (- 1, k))"

definition epoll_ctl_del :: "int \<Rightarrow> epoll \<Rightarrow> int \<times> epoll" where
  "epoll_ctl_del fd k =
     (if interest k fd \<noteq> None
      then (0, k\<lparr>interest := (interest k)(fd := None)\<rparr>) else (- 1, k))"

text \<open>Opening a descriptor, and closing one, which takes it off the interest list.\<close>

definition epoll_open_fd :: "int \<Rightarrow> epoll \<Rightarrow> epoll" where
  "epoll_open_fd fd k = k\<lparr>open_fds := insert fd (open_fds k)\<rparr>"

definition epoll_close_fd :: "int \<Rightarrow> epoll \<Rightarrow> epoll" where
  "epoll_close_fd fd k = k\<lparr>open_fds := open_fds k - {fd}, interest := (interest k)(fd := None)\<rparr>"

text \<open>The functions of multiplexer_epoll.c, on the \<open>fd\<close> and the \<open>flags\<close> of the socket.\<close>

definition epoll_AddToMultiplexer :: "int \<Rightarrow> epoll \<Rightarrow> fault + int \<times> flags \<times> epoll" where
  "epoll_AddToMultiplexer fd k =
     (case epoll_ctl_add fd EPOLLIN k of (r, k') \<Rightarrow>
        if r = - 1 then Inr (- 1, SF_READABLE, k') else Inr (0, SF_READABLE, k'))"

definition epoll_RemoveFromMultiplexer :: "int \<Rightarrow> epoll \<Rightarrow> fault + int \<times> epoll" where
  "epoll_RemoveFromMultiplexer fd k =
     (case epoll_ctl_del fd k of (r, k') \<Rightarrow> if r = - 1 then Inr (- 1, k') else Inr (0, k'))"

definition epoll_SetSocketStatus :: "int \<Rightarrow> flags \<Rightarrow> epoll \<Rightarrow> fault + int \<times> flags \<times> epoll" where
  "epoll_SetSocketStatus fd status k =
     (let ev = (if has_flag status SF_READABLE then EPOLLIN else 0)
               OR (if has_flag status SF_WRITABLE then EPOLLOUT else 0)
      in case epoll_ctl_mod fd ev k of (r, k') \<Rightarrow>
           if r = - 1 then Inr (- 1, status, k') else Inr (0, status, k'))"

text \<open>
  Start and end: \<open>created\<close> says whether \<open>epoll_create\<close> gave a descriptor, \<open>e\<close> is \<open>errno\<close>. It is
  looked at as it is, also when an earlier call left \<open>ENOMEM\<close> in it.
\<close>

definition epoll_InitializeMultiplexer :: "bool \<Rightarrow> nat \<Rightarrow> epoll \<Rightarrow> fault + int \<times> epoll \<times> nat" where
  "epoll_InitializeMultiplexer created e k =
     (let k0 = k\<lparr>interest := Map.empty, open_fds := {}\<rparr> in
      if \<not> created then Inr (- 1, k0, e)
      else and_then (vec_reserve (ep_avail k) sizeof_epoll_event 5 (e, vec_init)) (\<lambda>(e1, v).
           Inr (if e1 = ENOMEM then - 1 else 0, k0\<lparr>ep_events := v\<rparr>, e1)))"

definition epoll_ShutdownMultiplexer :: "epoll \<Rightarrow> int \<times> epoll" where
  "epoll_ShutdownMultiplexer k = (0, k\<lparr>interest := Map.empty, ep_events := vec_deinit (ep_events k)\<rparr>)"

text \<open>
  In \<open>ProcessSockets\<close>, when the pool has as many sockets as the vector has cells, the vector is
  enlarged; a failure is not looked at, but leaves the capacity without the cells.
\<close>

definition epoll_reserve :: "nat \<Rightarrow> nat \<Rightarrow> epoll \<Rightarrow> fault + nat \<times> epoll" where
  "epoll_reserve n e k =
     (if vcapacity (ep_events k) \<le> int n
      then if 2 ^ 30 \<le> n then Inl Signed_overflow
           else and_then (vec_reserve (ep_avail k) sizeof_epoll_event (int n * 2) (e, ep_events k)) (\<lambda>(e1, v).
                Inr (e1, k\<lparr>ep_events := v\<rparr>))
      else Inr (e, k))"

text \<open>
  \<open>epoll_wait\<close> writes what is pending, up to the capacity, into the cells. What is pending is any list: more
  than a kernel would report, which looks at the interest list.
\<close>

definition epoll_wait :: "(int \<times> flags) list \<Rightarrow> epoll \<Rightarrow> fault + (int \<times> flags) list \<times> epoll" where
  "epoll_wait evs k =
     (let es = take (nat (vcapacity (ep_events k))) evs in
      if length (vdata (ep_events k)) < length es then Inl Out_of_bounds
      else Inr (es, k\<lparr>ep_events := (ep_events k)\<lparr>vdata := map Some es @ drop (length es) (vdata (ep_events k))\<rparr>\<rparr>))"

lemma epoll_same:
  "epoll_AddToMultiplexer fd k = Inr (r, fl, k') \<Longrightarrow> open_fds k' = open_fds k \<and> ep_events k' = ep_events k"
  "epoll_RemoveFromMultiplexer fd k = Inr (r, k') \<Longrightarrow> open_fds k' = open_fds k \<and> ep_events k' = ep_events k"
  "epoll_SetSocketStatus fd st k = Inr (r, fl, k') \<Longrightarrow> open_fds k' = open_fds k \<and> ep_events k' = ep_events k"
  by (auto simp: epoll_AddToMultiplexer_def epoll_ctl_add_def epoll_RemoveFromMultiplexer_def epoll_ctl_del_def
      epoll_SetSocketStatus_def epoll_ctl_mod_def Let_def split: if_splits)

text \<open>There is a cell for an event, and there will be one.\<close>

definition ep_room :: "epoll \<Rightarrow> bool" where
  "ep_room k \<longleftrightarrow> 0 < vcapacity (ep_events k) \<and> vdata (ep_events k) \<noteq> []"

lemma epoll_reserve_total:
  assumes room: "ep_room k" and n: "0 < n" "n < 2 ^ 30"
  shows "\<exists>e1 v. epoll_reserve n e k = Inr (e1, k\<lparr>ep_events := v\<rparr>) \<and> ep_room (k\<lparr>ep_events := v\<rparr>)"
proof (cases "vcapacity (ep_events k) \<le> int n")
  case True
  let ?v = "(ep_events k)\<lparr>vcapacity := int n * 2\<rparr>"
  obtain e1 v where r: "realloc_cells (ep_avail k) sizeof_epoll_event (e, ?v) = (e1, v)" by (metis surj_pair)
  have "vcapacity v = int n * 2" "vdata v \<noteq> []"
    using r room n by (auto simp: realloc_cells_def ep_room_def split: option.splits)
  with True room n r show ?thesis
    by (intro exI [of _ e1] exI [of _ v]) (simp add: epoll_reserve_def vec_reserve_def sizeof_epoll_event_def ep_room_def)
next
  case False
  then have "epoll_reserve n e k = Inr (e, k\<lparr>ep_events := ep_events k\<rparr>)" by (simp add: epoll_reserve_def)
  with room show ?thesis by (metis epoll.surjective epoll.update_convs(3))
qed

lemma epoll_wait_one:
  "ep_room k \<Longrightarrow> \<exists>v. epoll_wait [ev] k = Inr ([ev], k\<lparr>ep_events := v\<rparr>) \<and> ep_room (k\<lparr>ep_events := v\<rparr>)"
  by (cases "nat (vcapacity (ep_events k))"; cases "vdata (ep_events k)")
    (auto simp: epoll_wait_def ep_room_def Let_def)

section \<open>The contract\<close>

definition epoll_watch :: "epoll \<Rightarrow> watching" where
  "epoll_watch k fd = map_option (\<lambda>ev. (has_flag ev EPOLLIN, has_flag ev EPOLLOUT)) (interest k fd)"

lemma has_flag_epoll [simp]:
  "has_flag EPOLLIN EPOLLIN" "\<not> has_flag EPOLLIN EPOLLOUT"
  "has_flag EPOLLOUT EPOLLOUT" "\<not> has_flag EPOLLOUT EPOLLIN"
  "has_flag (EPOLLIN OR EPOLLOUT) EPOLLIN" "has_flag (EPOLLIN OR EPOLLOUT) EPOLLOUT"
  by (simp_all add: has_flag_def EPOLLIN_def EPOLLOUT_def)

lemma epoll_add:
  "epoll_watch m fd = None \<Longrightarrow> epoll_AddToMultiplexer fd m = Inr (0, fl', m') \<Longrightarrow>
     fl' = SF_READABLE \<and> epoll_watch m' = (epoll_watch m)(fd \<mapsto> (True, False))"
  by (auto simp: epoll_AddToMultiplexer_def epoll_ctl_add_def epoll_watch_def fun_eq_iff split: if_splits)

lemma epoll_remove:
  "epoll_watch m fd \<noteq> None \<Longrightarrow>
     \<exists>m'. epoll_RemoveFromMultiplexer fd m = Inr (0, m') \<and> epoll_watch m' = (epoll_watch m)(fd := None)"
  by (auto simp: epoll_RemoveFromMultiplexer_def epoll_ctl_del_def epoll_watch_def fun_eq_iff)

lemma epoll_status:
  "epoll_watch m fd \<noteq> None \<Longrightarrow>
     \<exists>m'. epoll_SetSocketStatus fd st m = Inr (0, st, m')
       \<and> epoll_watch m' = (epoll_watch m)(fd \<mapsto> (has_flag st SF_READABLE, has_flag st SF_WRITABLE))"
  by (auto simp: epoll_SetSocketStatus_def epoll_ctl_mod_def epoll_watch_def fun_eq_iff Let_def)

lemma epoll_unknown:
  "epoll_watch m fd = None \<Longrightarrow>
     epoll_RemoveFromMultiplexer fd m = Inr (- 1, m) \<and> epoll_SetSocketStatus fd st m = Inr (- 1, st, m)"
  by (auto simp: epoll_RemoveFromMultiplexer_def epoll_SetSocketStatus_def epoll_ctl_mod_def
      epoll_ctl_del_def epoll_watch_def Let_def)

lemma epoll_add_total:
  "epoll_watch m fd = None \<Longrightarrow> fd \<in> open_fds m \<Longrightarrow> \<exists>fl' m'. epoll_AddToMultiplexer fd m = Inr (0, fl', m')"
  by (simp add: epoll_AddToMultiplexer_def epoll_ctl_add_def epoll_watch_def)

interpretation epoll: strict_multiplexer epoll_watch "\<lambda>_. True" "\<lambda>_ _ _. True"
    epoll_AddToMultiplexer "\<lambda>fd _. epoll_RemoveFromMultiplexer fd" "\<lambda>fd st _. epoll_SetSocketStatus fd st"
    "\<lambda>k fd. fd \<in> open_fds k"
proof unfold_locales
  show "\<exists>fl' m'. epoll_AddToMultiplexer fd m = Inr (0, fl', m')" if "epoll_watch m fd = None" "fd \<in> open_fds m" for m fd
    using that by (rule epoll_add_total)
  show "(g \<in> open_fds m') = (g \<in> open_fds m)" if "epoll_AddToMultiplexer fd m = Inr (r, fl', m')" for fd m r fl' m' g
    using epoll_same(1) [OF that] by simp
  show "(g \<in> open_fds m') = (g \<in> open_fds m)" if "epoll_RemoveFromMultiplexer fd m = Inr (r, m')" for fd m r m' g
    using epoll_same(2) [OF that] by simp
  show "(g \<in> open_fds m') = (g \<in> open_fds m)" if "epoll_SetSocketStatus fd st m = Inr (r, fl', m')" for fd st m r fl' m' g
    using epoll_same(3) [OF that] by simp
qed (use epoll_add epoll_remove epoll_status epoll_unknown in fastforce)+

end
