(* ===== verification/Poll.thy ===== *)
theory Poll
  imports Multiplexer
begin

text \<open>
  src/src/multiplexers/multiplexer_poll.c: the vector of \<open>struct pollfd\<close>. The bits are those
  of Linux. The loop of its \<open>ProcessSockets\<close> is in theory Transport.
\<close>

type_synonym pflags = "16 word"

definition POLLIN :: pflags where "POLLIN = 1"
definition POLLOUT :: pflags where "POLLOUT = 4"
definition POLLERR :: pflags where "POLLERR = 8"
definition POLLHUP :: pflags where "POLLHUP = 16"
definition POLLNVAL :: pflags where "POLLNVAL = 32"
definition POLLRDHUP :: pflags where "POLLRDHUP = 0x2000"

record pollfd =
  pf_fd :: int
  pf_events :: pflags
  pf_revents :: pflags

section \<open>Operations\<close>

definition poll_AddToMultiplexer ::
  "int \<Rightarrow> pollfd list \<times> heap \<Rightarrow> fault + int \<times> flags \<times> pollfd list \<times> heap" where
  "poll_AddToMultiplexer fd st =
     and_then (list_push \<lparr>pf_fd = fd, pf_events = POLLIN, pf_revents = 0\<rparr> st) (\<lambda>st'.
       Inr (0, SF_READABLE, st'))"

text \<open>The search loops: the position of the first entry with the descriptor.\<close>

fun pollfd_index :: "int \<Rightarrow> pollfd list \<Rightarrow> nat option" where
  "pollfd_index fd [] = None"
| "pollfd_index fd (ev # evs) =
     (if pf_fd ev = fd then Some 0 else map_option Suc (pollfd_index fd evs))"

definition poll_RemoveFromMultiplexer :: "int \<Rightarrow> pollfd list \<Rightarrow> fault + int \<times> pollfd list" where
  "poll_RemoveFromMultiplexer fd evs =
     (case pollfd_index fd evs of
        Some idx \<Rightarrow> and_then (list_delete_at idx evs) (\<lambda>evs'. Inr (0, evs'))
      | None \<Rightarrow> Inr (- 1, evs))"

text \<open>For an unknown descriptor the flags of the socket stay as they are.\<close>

definition poll_SetSocketStatus ::
  "int \<Rightarrow> flags \<Rightarrow> flags \<Rightarrow> pollfd list \<Rightarrow> fault + int \<times> flags \<times> pollfd list" where
  "poll_SetSocketStatus fd status fl evs =
     (case pollfd_index fd evs of
        Some idx \<Rightarrow>
          let ev = evs ! idx;
              bits = (if has_flag status SF_READABLE then POLLIN else 0)
                     OR (if has_flag status SF_WRITABLE then POLLOUT else 0)
          in Inr (0, status, evs[idx := ev\<lparr>pf_events := bits\<rparr>])
      | None \<Rightarrow> Inr (- 1, fl, evs))"

text \<open>\<open>vec_init\<close> cannot fail; what is tested is an \<open>errno\<close> left by an earlier call.\<close>

definition poll_InitializeMultiplexer :: "nat \<Rightarrow> int \<times> pollfd list" where
  "poll_InitializeMultiplexer errno = (if errno = ENOMEM then - 1 else 0, [])"

definition poll_ShutdownMultiplexer :: "pollfd list \<Rightarrow> int \<times> pollfd list" where
  "poll_ShutdownMultiplexer evs = (0, [])"

text \<open>
  What the kernel writes into \<open>revents\<close>, given the readiness of each descriptor: the bits
  asked for, and the error bits in any case.
\<close>

definition poll_revents :: "(int \<Rightarrow> pflags) \<Rightarrow> pollfd list \<Rightarrow> pollfd list" where
  "poll_revents ready evs =
     map (\<lambda>ev. ev\<lparr>pf_revents := ready (pf_fd ev) AND (pf_events ev OR POLLERR OR POLLHUP OR POLLNVAL)\<rparr>) evs"

section \<open>The contract\<close>

definition poll_watch :: "pollfd list \<times> heap \<Rightarrow> watching" where
  "poll_watch st = map_of (map (\<lambda>ev. (pf_fd ev, has_flag (pf_events ev) POLLIN, has_flag (pf_events ev) POLLOUT))
     (fst st))"

definition poll_ok :: "pollfd list \<times> heap \<Rightarrow> bool" where
  "poll_ok st \<longleftrightarrow> distinct (map pf_fd (fst st))"

lemma has_flag_poll [simp]:
  "has_flag POLLIN POLLIN" "\<not> has_flag POLLIN POLLOUT" "has_flag POLLOUT POLLOUT" "\<not> has_flag POLLOUT POLLIN"
  "has_flag (POLLIN OR POLLOUT) POLLIN" "has_flag (POLLIN OR POLLOUT) POLLOUT"
  by (simp_all add: has_flag_def POLLIN_def POLLOUT_def)

lemma poll_watch_None: "poll_watch (evs, h) fd = None \<longleftrightarrow> fd \<notin> pf_fd ` set evs"
  by (auto simp: poll_watch_def map_of_eq_None_iff image_image)

lemma pollfd_index_None: "pollfd_index fd evs = None \<longleftrightarrow> fd \<notin> pf_fd ` set evs"
  by (induction evs) auto

lemma pollfd_index_split:
  "pollfd_index fd evs = Some i \<Longrightarrow>
     \<exists>xs ev ys. evs = xs @ ev # ys \<and> length xs = i \<and> pf_fd ev = fd \<and> fd \<notin> pf_fd ` set xs"
proof (induction evs arbitrary: i)
  case (Cons ev evs)
  show ?case
  proof (cases "pf_fd ev = fd")
    case True
    with Cons.prems show ?thesis by (intro exI [of _ "[]"]) auto
  next
    case False
    with Cons.prems obtain j where "pollfd_index fd evs = Some j" "i = Suc j" by auto
    with Cons.IH [of j] obtain xs e ys where "evs = xs @ e # ys" "length xs = j" "pf_fd e = fd"
      "fd \<notin> pf_fd ` set xs" by auto
    with False \<open>i = Suc j\<close> show ?thesis by (intro exI [of _ "ev # xs"]) auto
  qed
qed simp

lemma poll_watch_app:
  "poll_watch (xs @ ys, h) = poll_watch (ys, h) ++ poll_watch (xs, h)"
  by (simp add: poll_watch_def)

lemma poll_watch_Cons:
  "poll_watch (ev # ys, h) =
     (poll_watch (ys, h))(pf_fd ev \<mapsto> (has_flag (pf_events ev) POLLIN, has_flag (pf_events ev) POLLOUT))"
  by (simp add: poll_watch_def)

lemma poll_watch_heap: "poll_watch (evs, h) = poll_watch (evs, h')"
  by (simp add: poll_watch_def)

lemma poll_add:
  assumes "poll_ok m" "poll_watch m fd = None" "poll_AddToMultiplexer fd m = Inr (0, fl', m')"
  shows "poll_ok m' \<and> fl' = SF_READABLE \<and> poll_watch m' = (poll_watch m)(fd \<mapsto> (True, False))"
proof -
  obtain evs h where m: "m = (evs, h)" by force
  have new: "fd \<notin> pf_fd ` set evs" using assms(2) by (simp add: m poll_watch_None)
  obtain h' where m': "m' = (evs @ [\<lparr>pf_fd = fd, pf_events = POLLIN, pf_revents = 0\<rparr>], h')" "fl' = SF_READABLE"
    using assms(3) list_push_extends
    by (cases m') (fastforce simp: poll_AddToMultiplexer_def m and_then_eq_Inr)
  have "poll_watch m' x = ((poll_watch m)(fd \<mapsto> (True, False))) x" for x
    using new poll_watch_None [of evs h' fd] poll_watch_heap [of evs h h']
    by (cases "x = fd") (auto simp: m m' poll_watch_app poll_watch_Cons map_add_def poll_watch_def [of "([], h')"]
        split: option.split)
  then show ?thesis
    using assms(1) new m m' by (auto simp: poll_ok_def)
qed

lemma poll_remove:
  assumes "poll_ok m" "poll_watch m fd \<noteq> None"
  shows "\<exists>evs'. poll_RemoveFromMultiplexer fd (fst m) = Inr (0, evs') \<and> poll_ok (evs', snd m)
    \<and> poll_watch (evs', snd m) = (poll_watch m)(fd := None)"
proof -
  obtain evs h where m: "m = (evs, h)" by force
  with assms(2) have "pollfd_index fd evs \<noteq> None" by (simp add: poll_watch_None pollfd_index_None)
  then obtain i where i: "pollfd_index fd evs = Some i" by auto
  from pollfd_index_split [OF i] obtain xs ev ys where
    evs: "evs = xs @ ev # ys" "length xs = i" "pf_fd ev = fd" "fd \<notin> pf_fd ` set xs" by auto
  have ys: "fd \<notin> pf_fd ` set ys" using assms(1) evs by (auto simp: m poll_ok_def)
  have "poll_watch (xs @ ys, h) x = ((poll_watch m)(fd := None)) x" for x
    using evs(3,4) ys poll_watch_None [of xs h fd] poll_watch_None [of ys h fd]
    by (auto simp: m evs(1) poll_watch_app poll_watch_Cons map_add_def split: option.split)
  then show ?thesis
    using assms(1) evs i
    by (auto simp: m poll_RemoveFromMultiplexer_def list_delete_at_def poll_ok_def)
qed

lemma poll_status:
  assumes "poll_ok m" "poll_watch m fd \<noteq> None"
  shows "\<exists>evs'. poll_SetSocketStatus fd st fl (fst m) = Inr (0, st, evs') \<and> poll_ok (evs', snd m)
    \<and> poll_watch (evs', snd m) = (poll_watch m)(fd \<mapsto> (has_flag st SF_READABLE, has_flag st SF_WRITABLE))"
proof -
  obtain evs h where m: "m = (evs, h)" by force
  with assms(2) have "pollfd_index fd evs \<noteq> None" by (simp add: poll_watch_None pollfd_index_None)
  then obtain i where i: "pollfd_index fd evs = Some i" by auto
  from pollfd_index_split [OF i] obtain xs ev ys where
    evs: "evs = xs @ ev # ys" "length xs = i" "pf_fd ev = fd" "fd \<notin> pf_fd ` set xs" by auto
  let ?ev = "ev\<lparr>pf_events := (if has_flag st SF_READABLE then POLLIN else 0)
    OR (if has_flag st SF_WRITABLE then POLLOUT else 0)\<rparr>"
  have bits: "has_flag (pf_events ?ev) POLLIN = has_flag st SF_READABLE"
      "has_flag (pf_events ?ev) POLLOUT = has_flag st SF_WRITABLE"
    by simp_all
  have run: "poll_SetSocketStatus fd st fl evs = Inr (0, st, xs @ ?ev # ys)"
    using i evs by (simp add: poll_SetSocketStatus_def Let_def nth_append list_update_append)
  have "poll_watch (xs @ ?ev # ys, h) x
      = ((poll_watch m)(fd \<mapsto> (has_flag st SF_READABLE, has_flag st SF_WRITABLE))) x" for x
    using evs(3,4) poll_watch_None [of xs h fd] bits
    by (auto simp: m evs(1) poll_watch_app poll_watch_Cons map_add_def split: option.split)
  then show ?thesis
    using assms(1) evs run by (auto simp: m poll_ok_def)
qed

lemma poll_unknown:
  "poll_watch m fd = None \<Longrightarrow>
     poll_RemoveFromMultiplexer fd (fst m) = Inr (- 1, fst m)
     \<and> poll_SetSocketStatus fd st fl (fst m) = Inr (- 1, fl, fst m)"
  by (cases m) (simp add: poll_watch_None flip: pollfd_index_None,
      simp add: poll_RemoveFromMultiplexer_def poll_SetSocketStatus_def)

text \<open>The vector is part of a state with memory, since \<open>vec_push\<close> may need some.\<close>

interpretation poll: strict_multiplexer poll_watch poll_ok "\<lambda>_ _ _. True"
    poll_AddToMultiplexer
    "\<lambda>fd _ (evs, h). and_then (poll_RemoveFromMultiplexer fd evs) (\<lambda>(r, evs'). Inr (r, evs', h))"
    "\<lambda>fd st fl (evs, h). and_then (poll_SetSocketStatus fd st fl evs) (\<lambda>(r, fl', evs'). Inr (r, fl', evs', h))"
    "\<lambda>m _. mem_ok (snd m)"
proof unfold_locales
  fix m fd fl' m'
  assume "poll_ok m" "poll_watch m fd = None" "poll_AddToMultiplexer fd m = Inr (0, fl', m')"
  then show "poll_ok m' \<and> fl' = SF_READABLE \<and> poll_watch m' = (poll_watch m)(fd \<mapsto> (True, False)) \<and> True"
    using poll_add by blast
next
  fix m fd and fl :: flags
  assume "poll_ok m" "poll_watch m fd \<noteq> None"
  then show "\<exists>m'. (case m of (evs, h) \<Rightarrow> and_then (poll_RemoveFromMultiplexer fd evs) (\<lambda>(r, evs'). Inr (r, evs', h)))
      = Inr (0, m') \<and> poll_ok m' \<and> poll_watch m' = (poll_watch m)(fd := None)"
    using poll_remove [of m fd] by (cases m) auto
next
  fix m fd wr st fl
  assume "poll_ok m" "poll_watch m fd = Some (True, wr)" "has_flag st SF_READABLE"
  then show "\<exists>m'. (case m of (evs, h) \<Rightarrow> and_then (poll_SetSocketStatus fd st fl evs) (\<lambda>(r, fl', evs'). Inr (r, fl', evs', h)))
      = Inr (0, st, m') \<and> poll_ok m' \<and> True \<and> poll_watch m' = (poll_watch m)(fd \<mapsto> (True, has_flag st SF_WRITABLE))"
    using poll_status [of m fd st fl] by (cases m) auto
next
  fix m fd st fl
  assume "poll_ok m" "poll_watch m fd \<noteq> None"
  then show "\<exists>m'. (case m of (evs, h) \<Rightarrow> and_then (poll_SetSocketStatus fd st fl evs) (\<lambda>(r, fl', evs'). Inr (r, fl', evs', h)))
      = Inr (0, st, m') \<and> poll_ok m'
      \<and> poll_watch m' = (poll_watch m)(fd \<mapsto> (has_flag st SF_READABLE, has_flag st SF_WRITABLE))"
    using poll_status [of m fd st fl] by (cases m) auto
next
  fix m fd st fl
  assume "poll_watch m fd = None"
  then show "(case m of (evs, h) \<Rightarrow> and_then (poll_RemoveFromMultiplexer fd evs) (\<lambda>(r, evs'). Inr (r, evs', h)))
        = Inr (- 1, m)
      \<and> (\<exists>fl'. (case m of (evs, h) \<Rightarrow> and_then (poll_SetSocketStatus fd st fl evs) (\<lambda>(r, fl', evs'). Inr (r, fl', evs', h)))
        = Inr (- 1, fl', m))"
    using poll_unknown [of m fd st fl] by (cases m) auto
next
  fix m and fd :: int
  assume "mem_ok (snd (m :: pollfd list \<times> heap))"
  then show "\<exists>fl' m'. poll_AddToMultiplexer fd m = Inr (0, fl', m')"
    by (cases m) (simp add: poll_AddToMultiplexer_def list_push_def mem_ok_def)
next
  fix fd r fl m' g and m :: "pollfd list \<times> heap"
  assume "poll_AddToMultiplexer fd m = Inr (r, fl, m')"
  then show "mem_ok (snd m') = mem_ok (snd m)"
    by (cases m; cases m')
      (auto simp: poll_AddToMultiplexer_def and_then_eq_Inr mem_ok_def list_push_def split: if_splits)
next
  fix fd fl r m' g and m :: "pollfd list \<times> heap"
  assume "(case m of (evs, h) \<Rightarrow> and_then (poll_RemoveFromMultiplexer fd evs) (\<lambda>(r, evs'). Inr (r, evs', h))) = Inr (r, m')"
  then show "mem_ok (snd m') = mem_ok (snd m)"
    by (cases m) (auto simp: and_then_eq_Inr)
next
  fix fd st fl r fl' m' g and m :: "pollfd list \<times> heap"
  assume "(case m of (evs, h) \<Rightarrow> and_then (poll_SetSocketStatus fd st fl evs) (\<lambda>(r, fl', evs'). Inr (r, fl', evs', h)))
      = Inr (r, fl', m')"
  then show "mem_ok (snd m') = mem_ok (snd m)"
    by (cases m) (auto simp: and_then_eq_Inr)
qed simp

end
