(* ===== verification/Select.thy ===== *)
theory Select
  imports Multiplexer
begin

text \<open>
  src/src/multiplexers/multiplexer_select.c: two sets of descriptors and the largest
  descriptor as the code keeps it. \<open>FD_SET\<close> and its relatives index a bit array of
  \<open>FD_SETSIZE\<close> bits; outside of it they write past its end. The loop of \<open>ProcessSockets\<close> is
  in theory Transport.
\<close>

definition FD_SETSIZE :: int where "FD_SETSIZE = 1024"

record select =
  readfds :: "int set"
  writefds :: "int set"
  maxfd :: int

definition in_fd_set :: "int \<Rightarrow> bool" where
  "in_fd_set fd \<longleftrightarrow> 0 \<le> fd \<and> fd < FD_SETSIZE"

definition FD_SET :: "int \<Rightarrow> int set \<Rightarrow> fault + int set" where
  "FD_SET fd s = (if in_fd_set fd then Inr (insert fd s) else Inl Out_of_bounds)"

definition FD_CLR :: "int \<Rightarrow> int set \<Rightarrow> fault + int set" where
  "FD_CLR fd s = (if in_fd_set fd then Inr (s - {fd}) else Inl Out_of_bounds)"

definition FD_ISSET :: "int \<Rightarrow> int set \<Rightarrow> fault + bool" where
  "FD_ISSET fd s = (if in_fd_set fd then Inr (fd \<in> s) else Inl Out_of_bounds)"

section \<open>Operations\<close>

definition select_AddToMultiplexer :: "int \<Rightarrow> select \<Rightarrow> fault + int \<times> flags \<times> select" where
  "select_AddToMultiplexer fd m =
     and_then (FD_SET fd (readfds m)) (\<lambda>r. Inr (0, SF_READABLE, m\<lparr>readfds := r, maxfd := fd\<rparr>))"

definition select_RemoveFromMultiplexer :: "int \<Rightarrow> select \<Rightarrow> fault + int \<times> select" where
  "select_RemoveFromMultiplexer fd m =
     and_then (FD_CLR fd (readfds m)) (\<lambda>r.
     and_then (FD_CLR fd (writefds m)) (\<lambda>w.
       Inr (0, m\<lparr>readfds := r, writefds := w, maxfd := maxfd m - 1\<rparr>)))"

text \<open>
  The status is compared with the flags of the socket structure. When reading is given up
  the code clears the descriptor in the write set.
\<close>

definition select_SetSocketStatus :: "int \<Rightarrow> flags \<Rightarrow> flags \<Rightarrow> select \<Rightarrow> fault + int \<times> flags \<times> select" where
  "select_SetSocketStatus fd status fl m =
     and_then (if has_flag status SF_READABLE \<and> \<not> has_flag fl SF_READABLE
               then and_then (FD_SET fd (readfds m)) (\<lambda>r. Inr (m\<lparr>readfds := r\<rparr>)) else Inr m) (\<lambda>m1.
     and_then (if \<not> has_flag status SF_READABLE \<and> has_flag fl SF_READABLE
               then and_then (FD_CLR fd (writefds m1)) (\<lambda>w. Inr (m1\<lparr>writefds := w\<rparr>)) else Inr m1) (\<lambda>m2.
     and_then (if has_flag status SF_WRITABLE \<and> \<not> has_flag fl SF_WRITABLE
               then and_then (FD_SET fd (writefds m2)) (\<lambda>w. Inr (m2\<lparr>writefds := w\<rparr>)) else Inr m2) (\<lambda>m3.
     and_then (if \<not> has_flag status SF_WRITABLE \<and> has_flag fl SF_WRITABLE
               then and_then (FD_CLR fd (writefds m3)) (\<lambda>w. Inr (m3\<lparr>writefds := w\<rparr>)) else Inr m3) (\<lambda>m4.
       Inr (0, status, m4)))))"

text \<open>\<open>maxfd\<close> keeps the value of its static initialiser or of an earlier run.\<close>

definition select_InitializeMultiplexer :: "select \<Rightarrow> int \<times> select" where
  "select_InitializeMultiplexer m = (0, m\<lparr>readfds := {}, writefds := {}\<rparr>)"

definition select_ShutdownMultiplexer :: "select \<Rightarrow> int \<times> select" where
  "select_ShutdownMultiplexer m = (0, m)"

text \<open>
  What the call \<open>select(maxfd + 1, &read, &write, &error, ...)\<close> leaves in the three sets, given
  which descriptors are ready: it looks at descriptors up to \<open>maxfd\<close> only.
\<close>

definition select_sets :: "(int \<Rightarrow> bool) \<Rightarrow> (int \<Rightarrow> bool) \<Rightarrow> (int \<Rightarrow> bool) \<Rightarrow> select \<Rightarrow> int set \<times> int set \<times> int set" where
  "select_sets can_read can_write has_error m =
     (Set.filter (\<lambda>fd. fd \<le> maxfd m \<and> can_read fd) (readfds m),
      Set.filter (\<lambda>fd. fd \<le> maxfd m \<and> can_write fd) (writefds m),
      Set.filter (\<lambda>fd. fd \<le> maxfd m \<and> has_error fd) (readfds m))"

section \<open>The contract\<close>

definition select_watch :: "select \<Rightarrow> watching" where
  "select_watch m fd =
     (if fd \<in> readfds m \<or> fd \<in> writefds m then Some (fd \<in> readfds m, fd \<in> writefds m) else None)"

definition select_ok :: "select \<Rightarrow> bool" where
  "select_ok m \<longleftrightarrow> (\<forall>fd \<in> readfds m \<union> writefds m. in_fd_set fd)"

definition select_synced :: "select \<Rightarrow> int \<Rightarrow> flags \<Rightarrow> bool" where
  "select_synced m fd fl \<longleftrightarrow> has_flag fl SF_WRITABLE = (fd \<in> writefds m)"

lemmas fd_set_defs = FD_SET_def FD_CLR_def FD_ISSET_def

lemma select_status_total:
  assumes "in_fd_set fd"
  shows "\<exists>m'. select_SetSocketStatus fd status fl m = Inr (0, status, m')"
  using assms
  by (cases "has_flag status SF_READABLE"; cases "has_flag fl SF_READABLE";
      cases "has_flag status SF_WRITABLE"; cases "has_flag fl SF_WRITABLE")
    (simp_all add: select_SetSocketStatus_def fd_set_defs)

interpretation select: multiplexer select_watch select_ok select_synced
    select_AddToMultiplexer "\<lambda>fd _. select_RemoveFromMultiplexer fd" select_SetSocketStatus
proof unfold_locales
  fix m fd fl' m'
  assume "select_ok m" "select_watch m fd = None" "select_AddToMultiplexer fd m = Inr (0, fl', m')"
  then show "select_ok m' \<and> fl' = SF_READABLE \<and> select_watch m' = (select_watch m)(fd \<mapsto> (True, False))
      \<and> select_synced m' fd fl'"
    by (auto simp: select_AddToMultiplexer_def fd_set_defs select_watch_def select_ok_def
        select_synced_def fun_eq_iff split: if_splits)
next
  fix m fd fl
  assume "select_ok m" "select_watch m fd \<noteq> None"
  then show "\<exists>m'. select_RemoveFromMultiplexer fd m = Inr (0, m') \<and> select_ok m'
      \<and> select_watch m' = (select_watch m)(fd := None)"
    by (auto simp: select_RemoveFromMultiplexer_def fd_set_defs select_watch_def select_ok_def
        fun_eq_iff split: if_splits)
next
  fix m fd wr st fl
  assume "select_ok m" "select_watch m fd = Some (True, wr)" "has_flag st SF_READABLE" "select_synced m fd fl"
  then show "\<exists>m'. select_SetSocketStatus fd st fl m = Inr (0, st, m') \<and> select_ok m'
      \<and> select_synced m' fd st \<and> select_watch m' = (select_watch m)(fd \<mapsto> (True, has_flag st SF_WRITABLE))"
    by (auto simp: select_SetSocketStatus_def fd_set_defs select_watch_def select_ok_def
        select_synced_def insert_absorb fun_eq_iff split: if_splits)
qed

text \<open>
  The contract speaks of the sets only. What the call itself looks at is bounded by
  \<open>maxfd\<close>, which is the descriptor added last, less the number of removals.
\<close>

lemma select_forgets:
  assumes "in_fd_set fd" "in_fd_set gd" "fd \<noteq> gd" "readfds m = {}" "writefds m = {}"
  shows "\<exists>m1 m2 m3. select_AddToMultiplexer fd m = Inr (0, SF_READABLE, m1)
    \<and> select_AddToMultiplexer gd m1 = Inr (0, SF_READABLE, m2)
    \<and> select_RemoveFromMultiplexer fd m2 = Inr (0, m3)
    \<and> select_watch m3 = [gd \<mapsto> (True, False)] \<and> fst (select_sets (\<lambda>_. True) (\<lambda>_. True) er m3) = {}"
  using assms
  by (auto simp: select_AddToMultiplexer_def select_RemoveFromMultiplexer_def fd_set_defs
      select_watch_def select_sets_def fun_eq_iff)

lemma select_stops_writing:
  assumes "in_fd_set fd" "fd \<in> readfds m" "has_flag fl SF_READABLE" "has_flag fl SF_WRITABLE"
  shows "\<exists>m'. select_SetSocketStatus fd SF_WRITABLE fl m = Inr (0, SF_WRITABLE, m')
    \<and> fd \<in> readfds m' \<and> fd \<notin> writefds m'"
  using assms by (simp add: select_SetSocketStatus_def fd_set_defs)

end
