(* ===== verification/Kqueue.thy ===== *)
theory Kqueue
  imports Multiplexer
begin

text \<open>
  src/src/multiplexers/multiplexer_kqueue.c: changes are collected in the vector \<open>changed\<close> and
  given to the kernel by the next call of \<open>kevent\<close>. The vectors are those of theory Vec, cell by cell, with
  the allocator's answers as part of the state. The multiplexer as a list of changes and a set of filters
  is the abstract state on which the contract holds; the code implements it as long as the
  vector can grow. \<open>ProcessSockets\<close> is in theory Transport.
\<close>

section \<open>State\<close>

type_synonym filt = "16 word"

definition EVFILT_READ :: filt where "EVFILT_READ = - 1"
definition EVFILT_WRITE :: filt where "EVFILT_WRITE = - 2"

definition EV_ADD :: "16 word" where "EV_ADD = 1"
definition EV_DELETE :: "16 word" where "EV_DELETE = 2"
definition EV_ERROR :: "16 word" where "EV_ERROR = 0x4000"
definition EV_EOF :: "16 word" where "EV_EOF = 0x8000"

lemmas ev_defs = EV_ADD_def EV_DELETE_def EV_ERROR_def EV_EOF_def

record kevent =
  ke_ident :: int
  ke_filter :: filt
  ke_flags :: "16 word"

text \<open>The size of \<open>struct kevent\<close> on a 64-bit system.\<close>

definition sizeof_kevent :: int where "sizeof_kevent = 32"

text \<open>
  The two vectors, the seconds of \<open>kqtime\<close>, the filters the kernel has behind \<open>KqueueHandle\<close>, and
  which requests of memory for the vectors are granted.
\<close>

record kqueue =
  kq_events :: "kevent vec"
  kq_changed :: "kevent vec"
  kq_time :: int
  kq_registered :: "(int \<times> filt) set"
  kq_avail :: "64 word \<Rightarrow> bool"

section \<open>Operations\<close>

text \<open>
  \<open>GetChangeEvent\<close> and the assignment to the cell it returns. \<open>errno\<close> need not be kept: when the
  vector does not grow the cell is past its end.
\<close>

definition GetChangeEvent :: "kevent \<Rightarrow> kqueue \<Rightarrow> fault + kqueue" where
  "GetChangeEvent ev k =
     (let v = kq_changed k in
      and_then (if vlength v = vcapacity v
                then if vlength v < - (2 ^ 30) \<or> 2 ^ 30 \<le> vlength v then Inl Signed_overflow
                     else and_then (vec_reserve (kq_avail k) sizeof_kevent (vlength v * 2) (0, v)) (\<lambda>(_, v'). Inr v')
                else Inr v) (\<lambda>v1.
      and_then (write_cell (vlength v1) ev v1) (\<lambda>v2.
        Inr (k\<lparr>kq_changed := v2\<lparr>vlength := vlength v1 + 1\<rparr>\<rparr>))))"

definition kqueue_SetSocketStatus ::
  "int \<Rightarrow> flags \<Rightarrow> flags \<Rightarrow> kqueue \<Rightarrow> fault + int \<times> flags \<times> kqueue" where
  "kqueue_SetSocketStatus fd status fl k =
     and_then (if has_flag status SF_READABLE \<and> \<not> has_flag fl SF_READABLE
               then GetChangeEvent \<lparr>ke_ident = fd, ke_filter = EVFILT_READ, ke_flags = EV_ADD\<rparr> k
               else Inr k) (\<lambda>k1.
     and_then (if \<not> has_flag status SF_READABLE \<and> has_flag fl SF_READABLE
               then GetChangeEvent \<lparr>ke_ident = fd, ke_filter = EVFILT_READ, ke_flags = EV_DELETE\<rparr> k1
               else Inr k1) (\<lambda>k2.
     and_then (if has_flag status SF_WRITABLE \<and> \<not> has_flag fl SF_WRITABLE
               then GetChangeEvent \<lparr>ke_ident = fd, ke_filter = EVFILT_WRITE, ke_flags = EV_ADD\<rparr> k2
               else Inr k2) (\<lambda>k3.
     and_then (if \<not> has_flag status SF_WRITABLE \<and> has_flag fl SF_WRITABLE
               then GetChangeEvent \<lparr>ke_ident = fd, ke_filter = EVFILT_WRITE, ke_flags = EV_DELETE\<rparr> k3
               else Inr k3) (\<lambda>k4.
       Inr (0, status, k4)))))"

definition kqueue_AddToMultiplexer :: "int \<Rightarrow> flags \<Rightarrow> kqueue \<Rightarrow> fault + int \<times> flags \<times> kqueue" where
  "kqueue_AddToMultiplexer fd fl k = kqueue_SetSocketStatus fd SF_READABLE fl k"

text \<open>The socket is passed by value: its new flags are lost.\<close>

definition kqueue_RemoveFromMultiplexer :: "int \<Rightarrow> flags \<Rightarrow> kqueue \<Rightarrow> fault + int \<times> kqueue" where
  "kqueue_RemoveFromMultiplexer fd fl k =
     and_then (kqueue_SetSocketStatus fd 0 fl k) (\<lambda>(r, _, k'). Inr (r, k'))"

text \<open>
  Start and end. A vector whose reservation failed is a null pointer for the \<open>memset\<close> behind it, which
  otherwise writes zeroes into the five new cells. \<open>created\<close> says whether \<open>kqueue\<close> gave a descriptor.
\<close>

definition zero_kevent :: kevent where
  "zero_kevent = \<lparr>ke_ident = 0, ke_filter = 0, ke_flags = 0\<rparr>"

definition reserve_zeroed :: "(64 word \<Rightarrow> bool) \<Rightarrow> nat \<Rightarrow> fault + kevent vec" where
  "reserve_zeroed avail e =
     and_then (vec_reserve avail sizeof_kevent 5 (e, vec_init)) (\<lambda>(_, v).
       if vdata v = [] then Inl Null_deref
       else Inr (v\<lparr>vdata := replicate 5 (Some zero_kevent) @ drop 5 (vdata v)\<rparr>))"

definition kqueue_InitializeMultiplexer :: "bool \<Rightarrow> int \<Rightarrow> kqueue \<Rightarrow> fault + int \<times> kqueue" where
  "kqueue_InitializeMultiplexer created readtimeout k =
     (if \<not> created then Inr (- 1, k)
      else and_then (reserve_zeroed (kq_avail k) 0) (\<lambda>evs.
           and_then (reserve_zeroed (kq_avail k) 0) (\<lambda>chs.
             Inr (0, k\<lparr>kq_events := evs, kq_changed := chs, kq_time := readtimeout, kq_registered := {}\<rparr>))))"

definition kqueue_ShutdownMultiplexer :: "kqueue \<Rightarrow> int \<times> kqueue" where
  "kqueue_ShutdownMultiplexer k =
     (0, k\<lparr>kq_registered := {}, kq_events := vec_deinit (kq_events k), kq_changed := vec_deinit (kq_changed k)\<rparr>)"

section \<open>The kernel\<close>

fun apply_change :: "kevent \<Rightarrow> (int \<times> filt) set \<Rightarrow> (int \<times> filt) set" where
  "apply_change ev s =
     (if has_flag (ke_flags ev) EV_ADD then insert (ke_ident ev, ke_filter ev) s
      else if has_flag (ke_flags ev) EV_DELETE then s - {(ke_ident ev, ke_filter ev)}
      else s)"

text \<open>Closing a descriptor takes its filters away.\<close>

definition kqueue_close_fd :: "int \<Rightarrow> kqueue \<Rightarrow> kqueue" where
  "kqueue_close_fd fd k = k\<lparr>kq_registered := {r \<in> kq_registered k. fst r \<noteq> fd}\<rparr>"

text \<open>
  \<open>kevent\<close> takes the changes in order and writes the events that \<open>evs\<close> says are pending, up to the
  capacity, into the vector (the cells are there unless a reservation failed); then \<open>changed\<close> is
  cleared. The result are the events in the first cells.
\<close>

definition kevent_call :: "kevent list \<Rightarrow> kqueue \<Rightarrow> fault + kevent list \<times> kqueue" where
  "kevent_call evs k =
     (let es = take (nat (vcapacity (kq_events k))) evs in
      if length (vdata (kq_events k)) < length es then Inl Out_of_bounds
      else Inr (es, k\<lparr>kq_events := (kq_events k)\<lparr>vdata := map Some es @ drop (length es) (vdata (kq_events k))\<rparr>,
        kq_registered := fold apply_change (contents (kq_changed k)) (kq_registered k), kq_changed := vec_clear (kq_changed k)\<rparr>))"

text \<open>The tests that decide whether an event leads to sending and to receiving.\<close>

definition kqueue_sends :: "filt \<Rightarrow> bool" where
  "kqueue_sends flt \<longleftrightarrow> has_flag flt EVFILT_WRITE"

definition kqueue_receives :: "filt \<Rightarrow> bool" where
  "kqueue_receives flt \<longleftrightarrow> has_flag flt EVFILT_READ"

text \<open>
  The filters are small negative numbers, not bits: either event leads to both.
\<close>

lemma kqueue_events_do_both:
  "flt = EVFILT_READ \<or> flt = EVFILT_WRITE \<Longrightarrow> kqueue_sends flt \<and> kqueue_receives flt"
  by (auto simp: kqueue_sends_def kqueue_receives_def has_flag_def EVFILT_READ_def EVFILT_WRITE_def)

section \<open>Changes as a list\<close>

text \<open>The abstract state: the changes that wait, and the filters the kernel has.\<close>

type_synonym kstate = "kevent list \<times> (int \<times> filt) set"

definition kq_of :: "kqueue \<Rightarrow> kstate" where
  "kq_of k = (contents (kq_changed k), kq_registered k)"

definition kq_changes :: "int \<Rightarrow> flags \<Rightarrow> flags \<Rightarrow> kevent list" where
  "kq_changes fd status fl =
     (let change = (\<lambda>flag flt. if has_flag status flag = has_flag fl flag then []
        else [\<lparr>ke_ident = fd, ke_filter = flt, ke_flags = if has_flag status flag then EV_ADD else EV_DELETE\<rparr>])
      in change SF_READABLE EVFILT_READ @ change SF_WRITABLE EVFILT_WRITE)"

definition kq_set :: "int \<Rightarrow> flags \<Rightarrow> flags \<Rightarrow> kstate \<Rightarrow> fault + int \<times> flags \<times> kstate" where
  "kq_set fd status fl st = Inr (0, status, fst st @ kq_changes fd status fl, snd st)"

definition kq_add :: "int \<Rightarrow> kstate \<Rightarrow> fault + int \<times> flags \<times> kstate" where
  "kq_add fd st = kq_set fd SF_READABLE 0 st"

definition kq_remove :: "int \<Rightarrow> flags \<Rightarrow> kstate \<Rightarrow> fault + int \<times> kstate" where
  "kq_remove fd fl st = and_then (kq_set fd 0 fl st) (\<lambda>(r, _, st'). Inr (r, st'))"

text \<open>The code refines it: what it does when it returns, and that it returns while there is memory.\<close>

definition kq_wf :: "kqueue \<Rightarrow> bool" where
  "kq_wf k \<longleftrightarrow> vec_wf (kq_changed k)"

lemma vec_reserve_rep:
  assumes "vec_rep v xs" "vec_reserve avail memsz n (e, v) = Inr (e', v')"
  shows "vdata v' = vdata v \<and> vlength v' = vlength v \<or> vec_rep v' xs"
proof -
  from assms(1) obtain rest where v: "vdata v = map Some xs @ rest" "vlength v = int (length xs)"
    "vcapacity v = int (length xs + length rest)" by (rule vec_repE)
  show ?thesis
  proof (cases "vcapacity v < n")
    case True
    then have "take (nat n) (vdata v) = vdata v" "int (length (vdata v)) \<le> n" using v by simp_all
    with assms(2) True v show ?thesis
      by (auto simp: vec_reserve_def realloc_cells_def split: if_splits option.splits
          intro!: vec_repI [where rest = "rest @ replicate (nat n - length (vdata v)) None"])
  next
    case False
    with assms show ?thesis by (auto simp: vec_reserve_def split: if_splits)
  qed
qed

lemma GetChangeEvent_rep:
  assumes rep: "vec_rep (kq_changed k) xs" and run: "GetChangeEvent ev k = Inr k'"
  shows "vec_rep (kq_changed k') (xs @ [ev]) \<and> kq_registered k' = kq_registered k"
proof -
  let ?v = "kq_changed k"
  obtain v1 v2 where v1: "vdata v1 = vdata ?v \<and> vlength v1 = vlength ?v \<or> vec_rep v1 xs"
    and wr: "write_cell (vlength v1) ev v1 = Inr v2" and k': "k' = k\<lparr>kq_changed := v2\<lparr>vlength := vlength v1 + 1\<rparr>\<rparr>"
    and cap: "vlength ?v = vcapacity ?v \<or> v1 = ?v"
    using run vec_reserve_rep [OF rep]
    by (fastforce simp: GetChangeEvent_def Let_def and_then_eq_Inr split: if_splits)
  have len: "vlength ?v = int (length xs)" "vcapacity ?v = int (length (vdata ?v))"
    using rep by (auto simp: vec_rep_def)
  have "vec_rep v1 xs"
  proof (cases "v1 = ?v")
    case False
    with cap have "length (vdata ?v) = length xs" using len by simp
    with v1 wr len show ?thesis by (auto simp: write_cell_def split: if_splits)
  qed (use rep in simp)
  then obtain rest where r: "vdata v1 = map Some xs @ rest" "vlength v1 = int (length xs)"
    "vcapacity v1 = int (length xs + length rest)" by (rule vec_repE)
  with wr obtain c cs where "rest = c # cs" by (cases rest) (auto simp: write_cell_def split: if_splits)
  with r wr show ?thesis
    by (auto simp: k' write_cell_def list_update_append split: if_splits intro!: vec_repI [where rest = cs])
qed

lemma change_step:
  assumes "vec_rep (kq_changed k) xs" "kq_registered k = rs" "(if b then GetChangeEvent ev k else Inr k) = Inr k'"
  shows "vec_rep (kq_changed k') (xs @ (if b then [ev] else [])) \<and> kq_registered k' = rs"
  using GetChangeEvent_rep [OF assms(1)] assms by (auto split: if_splits)

text \<open>Refinement: what \<open>SetSocketStatus\<close> returns, the abstract operation returns.\<close>

lemma kqueue_set_refines:
  assumes wf: "kq_wf k" and run: "kqueue_SetSocketStatus fd status fl k = Inr (r, fl', k')"
  shows "kq_wf k' \<and> kq_set fd status fl (kq_of k) = Inr (r, fl', kq_of k')"
proof -
  have rep: "vec_rep (kq_changed k) (contents (kq_changed k))" using wf by (simp add: kq_wf_def vec_rep_contents)
  let ?ev = "\<lambda>flt flags. \<lparr>ke_ident = fd, ke_filter = flt, ke_flags = flags\<rparr>"
  from run obtain k1 k2 k3 where
    s: "(if has_flag status SF_READABLE \<and> \<not> has_flag fl SF_READABLE then GetChangeEvent (?ev EVFILT_READ EV_ADD) k else Inr k) = Inr k1"
      "(if \<not> has_flag status SF_READABLE \<and> has_flag fl SF_READABLE then GetChangeEvent (?ev EVFILT_READ EV_DELETE) k1 else Inr k1) = Inr k2"
      "(if has_flag status SF_WRITABLE \<and> \<not> has_flag fl SF_WRITABLE then GetChangeEvent (?ev EVFILT_WRITE EV_ADD) k2 else Inr k2) = Inr k3"
      "(if \<not> has_flag status SF_WRITABLE \<and> has_flag fl SF_WRITABLE then GetChangeEvent (?ev EVFILT_WRITE EV_DELETE) k3 else Inr k3) = Inr k'"
    and r: "r = 0" "fl' = status"
    unfolding kqueue_SetSocketStatus_def and_then_eq_Inr by auto
  note 1 = change_step [OF rep refl s(1)]
  note 2 = change_step [OF conjunct1 [OF 1] conjunct2 [OF 1] s(2)]
  note 3 = change_step [OF conjunct1 [OF 2] conjunct2 [OF 2] s(3)]
  note 4 = change_step [OF conjunct1 [OF 3] conjunct2 [OF 3] s(4)]
  then show ?thesis
    by (auto simp: kq_set_def kq_of_def kq_wf_def vec_rep_iff kq_changes_def r split: if_splits)
qed

text \<open>While memory is granted and the vector is far from \<open>2 ^ 30\<close> cells, it does return.\<close>

definition kq_room :: "nat \<Rightarrow> kqueue \<Rightarrow> bool" where
  "kq_room n k \<longleftrightarrow> kq_wf k \<and> granted (kq_avail k) sizeof_kevent \<and> 0 < vcapacity (kq_changed k)
     \<and> vlength (kq_changed k) + int n < 2 ^ 29"

lemma GetChangeEvent_total:
  assumes "kq_room (Suc n) k"
  shows "\<exists>k'. GetChangeEvent ev k = Inr k' \<and> kq_room n k'"
proof -
  let ?v = "kq_changed k"
  have room: "kq_wf k" "granted (kq_avail k) sizeof_kevent" "0 < vcapacity ?v" "vlength ?v + 1 + int n < 2 ^ 29"
    using assms by (simp_all add: kq_room_def)
  then have wf: "0 \<le> vlength ?v" "vlength ?v \<le> vcapacity ?v" "vcapacity ?v = int (length (vdata ?v))"
    by (simp_all add: kq_wf_def vec_wf_def)
  obtain v1 where v1: "(if vlength ?v = vcapacity ?v
      then if vlength ?v < - (2 ^ 30) \<or> 2 ^ 30 \<le> vlength ?v then Inl Signed_overflow
           else and_then (vec_reserve (kq_avail k) sizeof_kevent (vlength ?v * 2) (0, ?v)) (\<lambda>(_, v'). Inr v')
      else Inr ?v) = Inr v1" "vlength v1 = vlength ?v" "vlength v1 < int (length (vdata v1))" "0 < vcapacity v1"
  proof (cases "vlength ?v = vcapacity ?v")
    case True
    then have "0 < vlength ?v * 2" "vlength ?v * 2 \<le> 2 ^ 31" using room by simp_all
    from reallocarray_granted [OF room(2) _ this(2)] this True room wf obtain b where
      "reallocarray (kq_avail k) (word_of_int (vlength ?v * 2)) (word_of_int sizeof_kevent) = Some b" by auto
    with True room wf show ?thesis
      by (intro that [of "?v\<lparr>vcapacity := vlength ?v * 2, vdata := vdata ?v @ replicate (length (vdata ?v)) None\<rparr>"])
        (auto simp: vec_reserve_def realloc_cells_def sizeof_kevent_def nat_mult_distrib)
  next
    case False
    with wf room show ?thesis by (intro that [of ?v]) auto
  qed
  then have "\<exists>k'. GetChangeEvent ev k = Inr k' \<and> vlength (kq_changed k') = vlength ?v + 1
      \<and> 0 < vcapacity (kq_changed k') \<and> kq_avail k' = kq_avail k"
    unfolding GetChangeEvent_def Let_def v1(1) and_then.simps using wf v1 by (simp add: write_cell_def)
  then obtain k' where k': "GetChangeEvent ev k = Inr k'" "vlength (kq_changed k') = vlength ?v + 1"
    "0 < vcapacity (kq_changed k')" "kq_avail k' = kq_avail k" by blast
  with GetChangeEvent_rep [OF _ k'(1)] room show ?thesis
    by (auto simp: kq_room_def kq_wf_def vec_rep_iff)
qed

lemma kq_room_mono: "kq_room n k \<Longrightarrow> m \<le> n \<Longrightarrow> kq_room m k"
  by (auto simp: kq_room_def)

lemma change_total:
  assumes "kq_room (Suc n) k"
  obtains k' where "(if b then GetChangeEvent ev k else Inr k) = Inr k'" "kq_room n k'"
  using GetChangeEvent_total [OF assms, of ev] kq_room_mono [OF assms, of n] by (cases b) auto

lemma kqueue_set_total:
  assumes "kq_room (n + 4) k"
  shows "\<exists>k'. kqueue_SetSocketStatus fd status fl k = Inr (0, status, k') \<and> kq_room n k'"
proof -
  let ?ev = "\<lambda>flt flags. \<lparr>ke_ident = fd, ke_filter = flt, ke_flags = flags\<rparr>"
  have "kq_room (Suc (Suc (Suc (Suc n)))) k" using assms by (simp add: eval_nat_numeral)
  then obtain k1 where 1: "(if has_flag status SF_READABLE \<and> \<not> has_flag fl SF_READABLE
      then GetChangeEvent (?ev EVFILT_READ EV_ADD) k else Inr k) = Inr k1" "kq_room (Suc (Suc (Suc n))) k1"
    by (rule change_total)
  from 1(2) obtain k2 where 2: "(if \<not> has_flag status SF_READABLE \<and> has_flag fl SF_READABLE
      then GetChangeEvent (?ev EVFILT_READ EV_DELETE) k1 else Inr k1) = Inr k2" "kq_room (Suc (Suc n)) k2"
    by (rule change_total)
  from 2(2) obtain k3 where 3: "(if has_flag status SF_WRITABLE \<and> \<not> has_flag fl SF_WRITABLE
      then GetChangeEvent (?ev EVFILT_WRITE EV_ADD) k2 else Inr k2) = Inr k3" "kq_room (Suc n) k3"
    by (rule change_total)
  from 3(2) obtain k4 where 4: "(if \<not> has_flag status SF_WRITABLE \<and> has_flag fl SF_WRITABLE
      then GetChangeEvent (?ev EVFILT_WRITE EV_DELETE) k3 else Inr k3) = Inr k4" "kq_room n k4"
    by (rule change_total)
  show ?thesis
    unfolding kqueue_SetSocketStatus_def 1(1) and_then.simps 2(1) 3(1) 4(1) using 4(2) by simp
qed

section \<open>The contract\<close>

definition kq_filters :: "kstate \<Rightarrow> (int \<times> filt) set" where
  "kq_filters st = fold apply_change (fst st) (snd st)"

definition kq_watch :: "kstate \<Rightarrow> watching" where
  "kq_watch st fd =
     (let fs = kq_filters st; r = (fd, EVFILT_READ) \<in> fs; w = (fd, EVFILT_WRITE) \<in> fs
      in if r \<or> w then Some (r, w) else None)"

definition kq_synced :: "kstate \<Rightarrow> int \<Rightarrow> flags \<Rightarrow> bool" where
  "kq_synced st fd fl \<longleftrightarrow>
     has_flag fl SF_READABLE = ((fd, EVFILT_READ) \<in> kq_filters st)
     \<and> has_flag fl SF_WRITABLE = ((fd, EVFILT_WRITE) \<in> kq_filters st)"

lemma filters_differ [simp]: "EVFILT_READ \<noteq> EVFILT_WRITE" "EVFILT_WRITE \<noteq> EVFILT_READ"
  by (simp_all add: EVFILT_READ_def EVFILT_WRITE_def)

lemma ev_flags [simp]: "has_flag EV_ADD EV_ADD" "\<not> has_flag EV_DELETE EV_ADD" "has_flag EV_DELETE EV_DELETE"
  by (simp_all add: has_flag_def ev_defs)

lemma kq_status:
  assumes "kq_synced st fd fl"
  shows "\<exists>st'. kq_set fd status fl st = Inr (0, status, st')
    \<and> kq_synced st' fd status \<and> (\<forall>gd. gd \<noteq> fd \<longrightarrow> kq_watch st' gd = kq_watch st gd)"
  using assms
  by (cases st) (auto simp: kq_set_def kq_changes_def kq_synced_def kq_watch_def Let_def kq_filters_def)

lemma kq_watch_synced:
  "kq_synced st fd fl \<Longrightarrow> kq_watch st fd =
     (if has_flag fl SF_READABLE \<or> has_flag fl SF_WRITABLE
      then Some (has_flag fl SF_READABLE, has_flag fl SF_WRITABLE) else None)"
  by (simp add: kq_synced_def kq_watch_def Let_def)

text \<open>A new socket structure has the flags 0.\<close>

interpretation kqueue: multiplexer kq_watch "\<lambda>_. True" kq_synced kq_add kq_remove kq_set
proof unfold_locales
  fix m fd fl' m'
  assume m: "kq_watch m fd = None" "kq_add fd m = Inr (0, fl', m')"
  then have "kq_synced m fd 0"
    by (auto simp: kq_synced_def kq_watch_def Let_def split: if_splits)
  with m kq_status [of m fd 0 SF_READABLE] kq_watch_synced [of m' fd SF_READABLE]
  show "True \<and> fl' = SF_READABLE \<and> kq_watch m' = (kq_watch m)(fd \<mapsto> (True, False)) \<and> kq_synced m' fd fl'"
    by (auto simp: kq_add_def fun_eq_iff)
next
  fix m fd fl
  assume m: "kq_synced m fd fl"
  from kq_status [OF m, of 0] obtain m' where m':
    "kq_set fd 0 fl m = Inr (0, 0, m')" "kq_synced m' fd 0" "\<forall>gd. gd \<noteq> fd \<longrightarrow> kq_watch m' gd = kq_watch m gd" by blast
  then show "\<exists>m'. kq_remove fd fl m = Inr (0, m') \<and> True \<and> kq_watch m' = (kq_watch m)(fd := None)"
    using kq_watch_synced [OF m'(2)] by (auto simp: kq_remove_def fun_eq_iff)
next
  fix m fd wr st fl
  assume m: "has_flag st SF_READABLE" "kq_synced m fd fl"
  from kq_status [OF m(2), of st] obtain m' where m':
    "kq_set fd st fl m = Inr (0, st, m')" "kq_synced m' fd st" "\<forall>gd. gd \<noteq> fd \<longrightarrow> kq_watch m' gd = kq_watch m gd" by blast
  then show "\<exists>m'. kq_set fd st fl m = Inr (0, st, m') \<and> True
      \<and> kq_synced m' fd st \<and> kq_watch m' = (kq_watch m)(fd \<mapsto> (True, has_flag st SF_WRITABLE))"
    using kq_watch_synced [OF m'(2)] m(1) by (auto simp: fun_eq_iff)
qed

text \<open>After \<open>kevent\<close> nothing waits and the kernel has the filters of the abstract state.\<close>

lemma kevent_call_filters:
  assumes "kq_wf k" "kevent_call evs k = Inr (es, k')"
  shows "kq_wf k' \<and> fst (kq_of k') = [] \<and> kq_registered k' = kq_filters (kq_of k) \<and> kq_filters (kq_of k') = kq_filters (kq_of k)"
proof -
  have "vec_rep (vec_clear (kq_changed k)) []"
    using assms(1) by (intro vec_rep_clear [of _ "contents (kq_changed k)"]) (simp add: kq_wf_def vec_rep_contents)
  with assms(2) show ?thesis
    by (auto simp: kevent_call_def Let_def kq_wf_def kq_of_def kq_filters_def vec_rep_iff split: if_splits)
qed

text \<open>A successful start leaves an empty vector with room.\<close>

lemma kqueue_Initialize_room:
  assumes "granted (kq_avail k) sizeof_kevent"
  shows "\<exists>k'. kqueue_InitializeMultiplexer True t k = Inr (0, k') \<and> kq_room 1000 k' \<and> kq_of k' = ([], {})"
proof -
  from reallocarray_granted [OF assms, of 5] obtain b where b:
    "reallocarray (kq_avail k) 5 (word_of_int sizeof_kevent) = Some b" by auto
  then have "reserve_zeroed (kq_avail k) 0 = Inr \<lparr>vdata = replicate 5 (Some zero_kevent), vlength = 0, vcapacity = 5\<rparr>"
    by (simp add: reserve_zeroed_def vec_reserve_def realloc_cells_def vec_init_def sizeof_kevent_def)
  with assms show ?thesis
    by (simp add: kqueue_InitializeMultiplexer_def kq_room_def kq_wf_def vec_wf_def kq_of_def contents_def)
qed

end
