(* ===== verification/Mux.thy ===== *)
theory Mux
  imports Epoll Poll Select Kqueue
begin

text \<open>
  The multiplexer the server is linked with. The build compiles one of the files of
  src/src/multiplexers (the order of preference in CMakeLists.txt is epoll, kqueue, poll,
  select); the constructor of the state says which. The functions of
  src/include/multiplexer.h dispatch on it.
\<close>

datatype mux = Epoll epoll | Poll "pollfd list" | Select select | Kqueue kqueue

section \<open>The functions of multiplexer.h\<close>

text \<open>A socket that is added has the flags 0; the other functions get the flags of the socket they are given.\<close>

definition AddToMultiplexer :: "int \<Rightarrow> mux \<times> heap \<Rightarrow> fault + int \<times> flags \<times> mux \<times> heap" where
  "AddToMultiplexer fd st =
     (case st of (m, h) \<Rightarrow>
       case m of
         Epoll k \<Rightarrow> and_then (epoll_AddToMultiplexer fd k) (\<lambda>(r, fl, k'). Inr (r, fl, Epoll k', h))
       | Poll evs \<Rightarrow> and_then (poll_AddToMultiplexer fd (evs, h)) (\<lambda>(r, fl, evs', h'). Inr (r, fl, Poll evs', h'))
       | Select s \<Rightarrow> and_then (select_AddToMultiplexer fd s) (\<lambda>(r, fl, s'). Inr (r, fl, Select s', h))
       | Kqueue k \<Rightarrow> and_then (kqueue_AddToMultiplexer fd 0 k) (\<lambda>(r, fl, k'). Inr (r, fl, Kqueue k', h)))"

definition RemoveFromMultiplexer :: "int \<Rightarrow> flags \<Rightarrow> mux \<Rightarrow> fault + int \<times> mux" where
  "RemoveFromMultiplexer fd fl m =
     (case m of
        Epoll k \<Rightarrow> and_then (epoll_RemoveFromMultiplexer fd k) (\<lambda>(r, k'). Inr (r, Epoll k'))
      | Poll evs \<Rightarrow> and_then (poll_RemoveFromMultiplexer fd evs) (\<lambda>(r, evs'). Inr (r, Poll evs'))
      | Select s \<Rightarrow> and_then (select_RemoveFromMultiplexer fd s) (\<lambda>(r, s'). Inr (r, Select s'))
      | Kqueue k \<Rightarrow> and_then (kqueue_RemoveFromMultiplexer fd fl k) (\<lambda>(r, k'). Inr (r, Kqueue k')))"

definition SetSocketStatus :: "int \<Rightarrow> flags \<Rightarrow> flags \<Rightarrow> mux \<Rightarrow> fault + int \<times> flags \<times> mux" where
  "SetSocketStatus fd status fl m =
     (case m of
        Epoll k \<Rightarrow> and_then (epoll_SetSocketStatus fd status k) (\<lambda>(r, fl', k'). Inr (r, fl', Epoll k'))
      | Poll evs \<Rightarrow> and_then (poll_SetSocketStatus fd status fl evs) (\<lambda>(r, fl', evs'). Inr (r, fl', Poll evs'))
      | Select s \<Rightarrow> and_then (select_SetSocketStatus fd status fl s) (\<lambda>(r, fl', s'). Inr (r, fl', Select s'))
      | Kqueue k \<Rightarrow> and_then (kqueue_SetSocketStatus fd status fl k) (\<lambda>(r, fl', k'). Inr (r, fl', Kqueue k')))"

text \<open>
  \<open>created\<close>: whether the kernel gave a descriptor for the multiplexer itself; \<open>timeout\<close> is
  \<open>config->readtimeout\<close>.
\<close>

definition InitializeMultiplexer ::
  "bool \<Rightarrow> int \<Rightarrow> mux \<Rightarrow> nat \<times> heap \<Rightarrow> fault + int \<times> mux \<times> nat \<times> heap" where
  "InitializeMultiplexer created timeout m st =
     (case m of
        Epoll k \<Rightarrow> and_then (epoll_InitializeMultiplexer created (fst st) k) (\<lambda>(r, k', e'). Inr (r, Epoll k', e', snd st))
      | Poll _ \<Rightarrow> (case poll_InitializeMultiplexer (fst st) of (r, evs) \<Rightarrow> Inr (r, Poll evs, st))
      | Select s \<Rightarrow> (case select_InitializeMultiplexer s of (r, s') \<Rightarrow> Inr (r, Select s', st))
      | Kqueue k \<Rightarrow> and_then (kqueue_InitializeMultiplexer created timeout k) (\<lambda>(r, k'). Inr (r, Kqueue k', st)))"

definition ShutdownMultiplexer :: "mux \<Rightarrow> int \<times> mux" where
  "ShutdownMultiplexer m =
     (case m of
        Epoll k \<Rightarrow> map_prod id Epoll (epoll_ShutdownMultiplexer k)
      | Poll evs \<Rightarrow> map_prod id Poll (poll_ShutdownMultiplexer evs)
      | Select s \<Rightarrow> map_prod id Select (select_ShutdownMultiplexer s)
      | Kqueue k \<Rightarrow> map_prod id Kqueue (kqueue_ShutdownMultiplexer k))"

text \<open>What the kernel does to an epoll instance, or a kqueue, when a descriptor is opened or closed.\<close>

definition open_fd :: "int \<Rightarrow> mux \<Rightarrow> mux" where
  "open_fd fd m = (case m of Epoll k \<Rightarrow> Epoll (epoll_open_fd fd k) | _ \<Rightarrow> m)"

definition close_fd :: "int \<Rightarrow> mux \<Rightarrow> mux" where
  "close_fd fd m =
     (case m of Epoll k \<Rightarrow> Epoll (epoll_close_fd fd k) | Kqueue k \<Rightarrow> Kqueue (kqueue_close_fd fd k) | _ \<Rightarrow> m)"

section \<open>No faults\<close>

text \<open>
  The descriptor is one the multiplexer can hold. A kqueue promises nothing: every change needs a cell of a
  vector (\<open>kqueue_set_total\<close> says when there is one).
\<close>

definition mux_ok :: "int \<Rightarrow> mux \<Rightarrow> bool" where
  "mux_ok fd m \<longleftrightarrow> (case m of Select _ \<Rightarrow> in_fd_set fd | Kqueue _ \<Rightarrow> False | _ \<Rightarrow> True)"

text \<open>
  The multiplexer stays of its kind, and a vector of \<open>pollfd\<close> does not grow; the vector of events
  of an epoll instance is not touched.
\<close>

definition mux_le :: "mux \<Rightarrow> mux \<Rightarrow> bool" where
  "mux_le m m' \<longleftrightarrow>
     (case m of
        Epoll k \<Rightarrow> (case m' of Epoll k' \<Rightarrow> ep_events k' = ep_events k | _ \<Rightarrow> False)
      | Poll evs \<Rightarrow> (case m' of Poll evs' \<Rightarrow> length evs' \<le> length evs | _ \<Rightarrow> False)
      | Select _ \<Rightarrow> (case m' of Select _ \<Rightarrow> True | _ \<Rightarrow> False)
      | Kqueue _ \<Rightarrow> (case m' of Kqueue _ \<Rightarrow> True | _ \<Rightarrow> False))"

definition epoll_room :: "mux \<Rightarrow> bool" where
  "epoll_room m \<longleftrightarrow> (case m of Epoll k \<Rightarrow> ep_room k | _ \<Rightarrow> False)"

lemma mux_le_room: "mux_le m m' \<Longrightarrow> epoll_room m \<Longrightarrow> epoll_room m'"
  by (auto simp: mux_le_def epoll_room_def ep_room_def split: mux.splits)

lemma epoll_roomE:
  assumes "epoll_room m"
  obtains k where "m = Epoll k" "ep_room k"
  using assms by (cases m) (auto simp: epoll_room_def)

lemma mux_le_refl [simp]: "mux_le m m"
  by (simp add: mux_le_def split: mux.split)

lemma mux_le_trans [trans]: "mux_le m m1 \<Longrightarrow> mux_le m1 m2 \<Longrightarrow> mux_le m m2"
  by (auto simp: mux_le_def split: mux.splits)

lemma mux_le_ok: "mux_le m m' \<Longrightarrow> mux_ok g m' = mux_ok g m"
  by (auto simp: mux_le_def mux_ok_def split: mux.splits)

lemma SetSocketStatus_le: "SetSocketStatus fd status fl m = Inr (r, fl', m') \<Longrightarrow> mux_le m m'"
  by (auto simp: SetSocketStatus_def mux_le_def poll_SetSocketStatus_def Let_def and_then_eq_Inr epoll_same(3)
      split: mux.splits option.splits)

lemma RemoveFromMultiplexer_le: "RemoveFromMultiplexer fd fl m = Inr (r, m') \<Longrightarrow> mux_le m m'"
  by (auto simp: RemoveFromMultiplexer_def mux_le_def poll_RemoveFromMultiplexer_def list_delete_at_def
      and_then_eq_Inr epoll_same(2) split: mux.splits option.splits if_splits)

lemma close_fd_le [simp]: "mux_le m (close_fd fd m)"
  by (simp add: close_fd_def mux_le_def epoll_close_fd_def split: mux.split)

lemma SetSocketStatus_total:
  assumes "mux_ok fd m"
  obtains r fl' m' where "SetSocketStatus fd status fl m = Inr (r, fl', m')" "\<And>g. mux_ok g m' = mux_ok g m"
proof (cases m)
  case (Epoll k)
  with that show thesis
    by (cases "interest k fd")
      (auto simp: SetSocketStatus_def mux_ok_def epoll_SetSocketStatus_def epoll_ctl_mod_def Let_def)
next
  case (Poll evs)
  with that show thesis
    by (cases "pollfd_index fd evs")
      (auto simp: SetSocketStatus_def mux_ok_def poll_SetSocketStatus_def Let_def)
next
  case (Select s)
  with assms select_status_total [of fd status fl s] that show thesis
    by (auto simp: SetSocketStatus_def mux_ok_def)
qed (use assms in \<open>simp add: mux_ok_def\<close>)

lemma mux_ok_close_fd [simp]: "mux_ok g (close_fd fd m) = mux_ok g m"
  by (cases m) (simp_all add: mux_ok_def close_fd_def)

lemma RemoveFromMultiplexer_total:
  assumes "mux_ok fd m"
  obtains r m' where "RemoveFromMultiplexer fd fl m = Inr (r, m')" "\<And>g. mux_ok g m' = mux_ok g m"
proof (cases m)
  case (Epoll k)
  with that show thesis
    by (cases "interest k fd")
      (auto simp: RemoveFromMultiplexer_def mux_ok_def epoll_RemoveFromMultiplexer_def epoll_ctl_del_def)
next
  case (Poll evs)
  show thesis
  proof (cases "pollfd_index fd evs")
    case None
    with Poll that show thesis
      by (auto simp: RemoveFromMultiplexer_def mux_ok_def poll_RemoveFromMultiplexer_def)
  next
    case (Some i)
    from pollfd_index_split [OF Some] have "i < length evs" by auto
    with Some Poll that show thesis
      by (auto simp: RemoveFromMultiplexer_def mux_ok_def poll_RemoveFromMultiplexer_def list_delete_at_def)
  qed
next
  case (Select s)
  with that assms show thesis
    by (auto simp: RemoveFromMultiplexer_def mux_ok_def select_RemoveFromMultiplexer_def fd_set_defs)
qed (use assms in \<open>simp add: mux_ok_def\<close>)

section \<open>epoll and poll are interchangeable\<close>

text \<open>A sequence of calls on each of them.\<close>

definition epoll_run :: "mux_op list \<Rightarrow> epoll \<Rightarrow> fault + int list \<times> epoll" where
  "epoll_run = mux_run epoll_AddToMultiplexer (\<lambda>fd _. epoll_RemoveFromMultiplexer fd)
     (\<lambda>fd st _. epoll_SetSocketStatus fd st)"

definition poll_run :: "mux_op list \<Rightarrow> pollfd list \<times> heap \<Rightarrow> fault + int list \<times> pollfd list \<times> heap" where
  "poll_run = mux_run poll_AddToMultiplexer
     (\<lambda>fd _ (evs, h). and_then (poll_RemoveFromMultiplexer fd evs) (\<lambda>(r, evs'). Inr (r, evs', h)))
     (\<lambda>fd st fl (evs, h). and_then (poll_SetSocketStatus fd st fl evs) (\<lambda>(r, fl', evs'). Inr (r, fl', evs', h)))"

interpretation epoll_poll: two_multiplexers
    epoll_watch "\<lambda>_. True" "\<lambda>_ _ _. True" epoll_AddToMultiplexer
    "\<lambda>fd _. epoll_RemoveFromMultiplexer fd" "\<lambda>fd st _. epoll_SetSocketStatus fd st" "\<lambda>k fd. fd \<in> open_fds k"
    poll_watch poll_ok "\<lambda>_ _ _. True" poll_AddToMultiplexer
    "\<lambda>fd _ (evs, h). and_then (poll_RemoveFromMultiplexer fd evs) (\<lambda>(r, evs'). Inr (r, evs', h))"
    "\<lambda>fd st fl (evs, h). and_then (poll_SetSocketStatus fd st fl evs) (\<lambda>(r, fl', evs'). Inr (r, fl', evs', h))"
    "\<lambda>m _. mem_ok (snd m)"
  by unfold_locales

end
