(* ===== verification/World.thy ===== *)
theory World
  imports Text Files Module_Events Mux
begin

text \<open>
  The data of the server: the structures of src/include/packets.h, src/include/client.h,
  src/include/socket.h and src/include/config.h, and the state all its functions work on.
  A vector is the list of its elements (theory Vec says why that is enough), a pointer to
  a client is the address under which \<open>w_clients\<close> holds it.
\<close>

section \<open>Structures\<close>

definition PACKET_RRQ :: "16 word" where "PACKET_RRQ = 1"
definition PACKET_WRQ :: "16 word" where "PACKET_WRQ = 2"
definition PACKET_DATA :: "16 word" where "PACKET_DATA = 3"
definition PACKET_ACK :: "16 word" where "PACKET_ACK = 4"
definition PACKET_ERROR :: "16 word" where "PACKET_ERROR = 5"
definition PACKET_OACK :: "16 word" where "PACKET_OACK = 6"

lemmas opcode_defs = PACKET_RRQ_def PACKET_WRQ_def PACKET_DATA_def PACKET_ACK_def
  PACKET_ERROR_def PACKET_OACK_def

definition ERROR_UNDEFINED :: "16 word" where "ERROR_UNDEFINED = 0"
definition ERROR_NOFILE :: "16 word" where "ERROR_NOFILE = 1"
definition ERROR_ILLEGAL :: "16 word" where "ERROR_ILLEGAL = 4"
definition ERROR_NOUSER :: "16 word" where "ERROR_NOUSER = 7"
definition ERROR_OPTION :: "16 word" where "ERROR_OPTION = 8"

definition MAX_PACKET_SIZE :: nat where "MAX_PACKET_SIZE = 516"

text \<open>\<open>sizeof(packet_t)\<close>: the opcode and the block number.\<close>

definition sizeof_packet :: nat where "sizeof_packet = 4"

text \<open>
  An address of the union \<open>socketstructs_t\<close>: the port (the value \<open>ntohs\<close> reads) and the
  IP address, for IPv6 also flow information (before the address) and scope (behind it); \<open>Other_family\<close> is any family but \<open>AF_INET\<close> and \<open>AF_INET6\<close>.
\<close>

datatype sockaddr =
    IPv4 "16 word" "32 word"
  | IPv6 "16 word" "32 word" "128 word" "32 word"
  | Other_family

text \<open>
  The member \<open>type\<close> of \<open>socket_t\<close> is only copied, no decision depends on it; it is left out.
\<close>

record socket =
  sk_fd :: int
  sk_flags :: flags
  sk_addr :: sockaddr
  sk_bindaddr :: addr
  sk_packet :: addr
  sk_pktlen :: nat

record packetqueue =
  pq_p :: addr
  pq_len :: nat
  pq_allocated :: "8 word"

record client =
  c_s :: socket
  c_currentblockno :: "16 word"
  c_actualblockno :: "64 word"
  c_waiting :: "8 word"
  c_sendingfile :: "8 word"
  c_destroy :: "8 word"
  c_nextresend :: int
  c_bytestransferred :: int
  c_lastpacket :: packetqueue
  c_queue :: "packetqueue list"
  c_f :: nat
  c_tid :: "16 word"
  c_blksize :: "32 word"
  c_blk :: addr

text \<open>What \<open>nmalloc(sizeof(client_t))\<close> returns: every byte zero.\<close>

definition zero_socket :: socket where
  "zero_socket = \<lparr>sk_fd = 0, sk_flags = 0, sk_addr = Other_family, sk_bindaddr = NULL,
     sk_packet = NULL, sk_pktlen = 0\<rparr>"

definition zero_client :: client where
  "zero_client = \<lparr>c_s = zero_socket, c_currentblockno = 0, c_actualblockno = 0, c_waiting = 0,
     c_sendingfile = 0, c_destroy = 0, c_nextresend = 0, c_bytestransferred = 0,
     c_lastpacket = \<lparr>pq_p = NULL, pq_len = 0, pq_allocated = 0\<rparr>, c_queue = [], c_f = 0,
     c_tid = 0, c_blksize = 0, c_blk = NULL\<rparr>"

text \<open>The part of \<open>config_t\<close> the request handlers read.\<close>

record config =
  cf_directory :: "string option"
  cf_fixpath :: bool
  cf_readtimeout :: int

section \<open>The state\<close>

text \<open>What \<open>recvfrom\<close> answers: an error number, or a datagram and its sender.\<close>

datatype recv = Recv_error nat | Recv_packet "byte list" sockaddr

text \<open>
  The network: what waits to be received on each descriptor, what was sent so far, and
  which \<open>sendto\<close> calls fail. \<open>ntop\<close> is the text \<open>inet_ntop\<close> makes of an address
  structure in \<open>GetAddress\<close>, \<open>None\<close> for a null pointer.
\<close>

record network =
  inq :: "int \<Rightarrow> recv list"
  sent :: "(int \<times> sockaddr \<times> byte list) list"
  nsend :: nat
  send_fail :: "nat \<Rightarrow> bool"
  ntop :: "sockaddr \<Rightarrow> string option"

record world =
  w_mem :: heap
  w_clients :: "addr \<rightharpoonup> client"
  w_pool :: "addr list"
  w_socks :: "socket list"
  w_errno :: nat
  w_now :: int
  w_mux :: mux
  w_net :: network
  w_fs :: filesys
  w_mods :: modsys
  w_conf :: config
  w_strerror :: "nat \<Rightarrow> string"

text \<open>Raising an event from any component.\<close>

definition call_event :: "event_type \<Rightarrow> world \<Rightarrow> world" where
  "call_event t w = w\<lparr>w_mods := CallEvent t (w_mods w)\<rparr>"

definition in_mem :: "(heap \<Rightarrow> fault + 'a \<times> heap) \<Rightarrow> world \<Rightarrow> fault + 'a \<times> world" where
  "in_mem f w = and_then (f (w_mem w)) (\<lambda>(x, h). Inr (x, w\<lparr>w_mem := h\<rparr>))"

definition in_mem_unit :: "(heap \<Rightarrow> fault + heap) \<Rightarrow> world \<Rightarrow> fault + world" where
  "in_mem_unit f w = and_then (f (w_mem w)) (\<lambda>h. Inr (w\<lparr>w_mem := h\<rparr>))"

text \<open>The client behind a pointer.\<close>

definition client_at :: "addr \<Rightarrow> world \<Rightarrow> fault + client" where
  "client_at c w =
     (if c = NULL then Inl Null_deref
      else case w_clients w c of None \<Rightarrow> Inl Use_after_free | Some cl \<Rightarrow> Inr cl)"

definition set_client :: "addr \<Rightarrow> client \<Rightarrow> world \<Rightarrow> world" where
  "set_client c cl w = w\<lparr>w_clients := (w_clients w)(c \<mapsto> cl)\<rparr>"

lemma call_event_simps [simp]:
  "w_mem (call_event t w) = w_mem w" "w_clients (call_event t w) = w_clients w"
  "w_pool (call_event t w) = w_pool w" "w_socks (call_event t w) = w_socks w"
  "w_errno (call_event t w) = w_errno w" "w_now (call_event t w) = w_now w"
  "w_mux (call_event t w) = w_mux w" "w_net (call_event t w) = w_net w"
  "w_fs (call_event t w) = w_fs w" "w_conf (call_event t w) = w_conf w"
  "w_strerror (call_event t w) = w_strerror w"
  by (simp_all add: call_event_def)

text \<open>Updates of memory commute with those of the rest; the rules move them outwards.\<close>

lemma mem_last:
  "w\<lparr>w_mem := h, w_errno := e\<rparr> = w\<lparr>w_errno := e, w_mem := h\<rparr>"
  "w\<lparr>w_mem := h, w_fs := fs\<rparr> = w\<lparr>w_fs := fs, w_mem := h\<rparr>"
  "w\<lparr>w_mem := h, w_mods := ms\<rparr> = w\<lparr>w_mods := ms, w_mem := h\<rparr>"
  "w\<lparr>w_mem := h, w_clients := cs\<rparr> = w\<lparr>w_clients := cs, w_mem := h\<rparr>"
  by simp_all

end
