(* ===== verification/Sockets.thy ===== *)
theory Sockets
  imports World
begin

text \<open>
  The socket pool and the packet queue of src/src/socket.c: \<open>GetPort\<close>, \<open>AddSocket\<close>,
  \<open>FindSocket\<close>, \<open>DestroySocket\<close> and \<open>QueuePacket\<close>. Sending and receiving, which call
  back into the client code, are in theory Transport.
\<close>

section \<open>GetPort\<close>

text \<open>The return type is \<open>short\<close>: the 16 bits of the port, read as signed by the callers.\<close>

definition GetPort :: "sockaddr \<Rightarrow> 16 word" where
  "GetPort a = (case a of IPv4 p _ \<Rightarrow> p | IPv6 p _ _ _ \<Rightarrow> p | Other_family \<Rightarrow> - 1)"

section \<open>The socket pool\<close>

text \<open>
  The loop of \<open>DestroySocket\<close>: the position of the first entry with the same descriptor
  and an equal bind address (\<open>strcmp\<close> of the two strings).
\<close>

fun socket_index :: "socket \<Rightarrow> socket list \<Rightarrow> heap \<Rightarrow> fault + nat option" where
  "socket_index s [] h = Inr None"
| "socket_index s (t # ts) h =
     and_then (if sk_fd t = sk_fd s
               then and_then (load_cstr (sk_bindaddr t) h) (\<lambda>a.
                    and_then (load_cstr (sk_bindaddr s) h) (\<lambda>b. Inr (a = b)))
               else Inr False) (\<lambda>hit.
       if hit then Inr (Some 0)
       else and_then (socket_index s ts h) (\<lambda>r. Inr (map_option Suc r)))"

definition DestroySocket :: "socket \<Rightarrow> bool \<Rightarrow> world \<Rightarrow> fault + world" where
  "DestroySocket s closefd w =
     and_then (if closefd
               then and_then (RemoveFromMultiplexer (sk_fd s) (sk_flags s) (w_mux w)) (\<lambda>(r, m). Inr (w\<lparr>w_mux := m\<rparr>))
               else Inr w) (\<lambda>w1.
     and_then (socket_index s (w_socks w1) (w_mem w1)) (\<lambda>r.
     and_then (case r of None \<Rightarrow> Inr (w_socks w1)
                | Some i \<Rightarrow> list_delete_at i (w_socks w1)) (\<lambda>socks.
     let w2 = w1\<lparr>w_socks := socks\<rparr>;
         w3 = (if closefd then w2\<lparr>w_mux := close_fd (sk_fd s) (w_mux w2)\<rparr> else w2) in
     and_then (free (sk_bindaddr s) (w_mem w3)) (\<lambda>h1.
     and_then (free (sk_packet s) h1) (\<lambda>h2.
       Inr (w3\<lparr>w_mem := h2\<rparr>))))))"

text \<open>\<open>65464 + 4\<close>: the largest packet of RFC 2348 and the TFTP header.\<close>

definition SOCK_PKTLEN :: nat where
  "SOCK_PKTLEN = 65464 + 4"

text \<open>
  \<open>AddSocket\<close>: \<open>addr\<close> is \<open>None\<close> for a null pointer, the result is the return value and
  the socket that is copied out. A null result of \<open>GetAddress\<close> is passed to \<open>strdup\<close>.
  A failing \<open>strdup\<close> sets \<open>errno\<close>, which the check after the push then sees.
\<close>

definition AddSocket ::
  "int \<Rightarrow> string option \<Rightarrow> sockaddr \<Rightarrow> bool \<Rightarrow> world \<Rightarrow> fault + (int \<times> socket) \<times> world" where
  "AddSocket fd addr saddr binding w =
     (case (case addr of Some a \<Rightarrow> Some a | None \<Rightarrow> ntop (w_net w) saddr) of
        None \<Rightarrow> Inl Null_deref
      | Some text \<Rightarrow>
        (case strdup text (w_mem w) of (ba, h1) \<Rightarrow>
         let e1 = (if ba = NULL then ENOMEM else w_errno w) in
         and_then (nmalloc SOCK_PKTLEN h1) (\<lambda>(pk, h2).
         and_then (if binding then AddToMultiplexer fd (w_mux w, h2)
                   else Inr (0, 0, w_mux w, h2)) (\<lambda>(r, fl, m, h3).
         let sock = \<lparr>sk_fd = fd, sk_flags = fl, sk_addr = saddr, sk_bindaddr = ba,
                     sk_packet = pk, sk_pktlen = SOCK_PKTLEN\<rparr> in
         if binding \<and> r = - 1
         then Inr ((- 1, sock), w\<lparr>w_mem := h3, w_errno := e1, w_mux := close_fd fd m\<rparr>)
         else and_then (list_push sock (w_socks w, h3)) (\<lambda>(socks, h4).
           let w' = w\<lparr>w_mem := h4, w_errno := e1, w_mux := m, w_socks := socks\<rparr> in
           if e1 = ENOMEM
           then and_then (DestroySocket sock False w') (\<lambda>w''. Inr ((- 1, sock), w''))
           else Inr ((0, sock), w'))))))"

definition FindSocket :: "int \<Rightarrow> world \<Rightarrow> int \<times> socket option" where
  "FindSocket fd w =
     (case find (\<lambda>sock. sk_fd sock = fd) (w_socks w) of
        Some sock \<Rightarrow> (0, Some sock) | None \<Rightarrow> (- 1, None))"

section \<open>QueuePacket\<close>

text \<open>
  The growth of the queue's capacity (\<open>vec_reserve\<close>) does not change its elements; it is
  part of theory Vec, and here of the one allocation of \<open>list_push\<close>, which fails for both. \<open>allocated\<close> is
  1 for a new packet and 2 for a resend, which is not copied to \<open>lastpacket\<close>. The block of the copy before is
  not freed (\<open>lastpacket_leaks\<close> in theory Further_Facts). The line that would mark the client as waiting is commented out
  in the source.
\<close>

definition QueuePacket ::
  "client \<Rightarrow> addr \<Rightarrow> nat \<Rightarrow> 8 word \<Rightarrow> world \<Rightarrow> fault + client \<times> world" where
  "QueuePacket c p len allocated w =
     (let pack = \<lparr>pq_p = p, pq_len = len, pq_allocated = allocated\<rparr> in
      and_then (list_push pack (c_queue c, w_mem w)) (\<lambda>(q, h1).
      let c1 = c\<lparr>c_queue := q\<rparr> in
      and_then (if allocated \<noteq> 2
                then and_then (nmalloc len h1) (\<lambda>(lp, h2).
                     and_then (load p 0 len h2) (\<lambda>bytes.
                     and_then (store lp 0 bytes h2) (\<lambda>h3.
                       Inr (c1\<lparr>c_lastpacket := pack\<lparr>pq_p := lp\<rparr>\<rparr>, h3))))
                else Inr (c1, h1)) (\<lambda>(c2, h).
      and_then (SetSocketStatus (sk_fd (c_s c2)) (SF_WRITABLE OR SF_READABLE) (sk_flags (c_s c2)) (w_mux w))
        (\<lambda>(r, fl, m).
        Inr (c2\<lparr>c_nextresend := w_now w + 5, c_s := (c_s c2)\<lparr>sk_flags := fl\<rparr>\<rparr>,
             w\<lparr>w_mem := h, w_mux := m\<rparr>)))))"

text \<open>The bytes a queue stands for.\<close>

definition pq_bytes :: "heap \<Rightarrow> packetqueue \<Rightarrow> byte list" where
  "pq_bytes h pq = take (pq_len pq) (case blocks h (pq_p pq) of None \<Rightarrow> [] | Some b \<Rightarrow> b)"

definition queued :: "client \<Rightarrow> world \<Rightarrow> byte list list" where
  "queued c w = map (pq_bytes (w_mem w)) (c_queue c)"

text \<open>
  Every packet in the queue is alive and as long as its block; the multiplexer can hold the
  descriptor.
\<close>

definition pq_live :: "heap \<Rightarrow> packetqueue \<Rightarrow> bool" where
  "pq_live h pq \<longleftrightarrow> (\<exists>b. blocks h (pq_p pq) = Some b \<and> pq_len pq \<le> length b)"

definition queue_ok :: "client \<Rightarrow> world \<Rightarrow> bool" where
  "queue_ok c w \<longleftrightarrow> heap_wf (w_mem w) \<and> (\<forall>pq \<in> set (c_queue c). pq_live (w_mem w) pq)
     \<and> mux_ok (sk_fd (c_s c)) (w_mux w)"

text \<open>
  What queueing leaves alone: everything of the client but the queue, \<open>lastpacket\<close>, the
  resend time and the socket flags, and everything of the state but memory and the
  multiplexer.
\<close>

definition same_socket :: "socket \<Rightarrow> socket \<Rightarrow> bool" where
  "same_socket s s' \<longleftrightarrow> sk_fd s' = sk_fd s \<and> sk_addr s' = sk_addr s
     \<and> sk_bindaddr s' = sk_bindaddr s \<and> sk_packet s' = sk_packet s \<and> sk_pktlen s' = sk_pktlen s"

definition same_client :: "client \<Rightarrow> client \<Rightarrow> bool" where
  "same_client c c' \<longleftrightarrow> same_socket (c_s c) (c_s c')
     \<and> c_currentblockno c' = c_currentblockno c \<and> c_actualblockno c' = c_actualblockno c
     \<and> c_waiting c' = c_waiting c \<and> c_sendingfile c' = c_sendingfile c
     \<and> c_destroy c' = c_destroy c \<and> c_bytestransferred c' = c_bytestransferred c
     \<and> c_f c' = c_f c \<and> c_tid c' = c_tid c \<and> c_blksize c' = c_blksize c \<and> c_blk c' = c_blk c"

definition same_world :: "world \<Rightarrow> world \<Rightarrow> bool" where
  "same_world w w' \<longleftrightarrow> w_clients w' = w_clients w \<and> w_pool w' = w_pool w \<and> w_socks w' = w_socks w
     \<and> w_errno w' = w_errno w \<and> w_now w' = w_now w \<and> w_net w' = w_net w \<and> w_fs w' = w_fs w
     \<and> w_mods w' = w_mods w \<and> w_conf w' = w_conf w \<and> w_strerror w' = w_strerror w"

lemmas same_defs = same_socket_def same_client_def same_world_def

text \<open>
  The ownership marks of a client that never resends: its packets belong to the queue
  (mark 1), and \<open>lastpacket\<close> does not carry the mark 2.
\<close>

definition plain_marks :: "client \<Rightarrow> bool" where
  "plain_marks c \<longleftrightarrow> pq_allocated (c_lastpacket c) \<noteq> 2 \<and> (\<forall>pq \<in> set (c_queue c). pq_allocated pq = 1)"

text \<open>
  \<open>appended c w ps c' w'\<close>: from client \<open>c\<close> and state \<open>w\<close> to \<open>c'\<close> and \<open>w'\<close>, the packets
  \<open>ps\<close> were put at the end of the queue and nothing else happened; \<open>enqueued\<close> adds that
  their blocks are fresh, so that they overlap nothing that existed before.
\<close>

definition appended :: "client \<Rightarrow> world \<Rightarrow> byte list list \<Rightarrow> client \<Rightarrow> world \<Rightarrow> bool" where
  "appended c w ps c' w' \<longleftrightarrow>
     queued c' w' = queued c w @ ps \<and> queue_ok c' w' \<and> extends (w_mem w) (w_mem w')
     \<and> same_client c c' \<and> same_world w w' \<and> (plain_marks c \<longrightarrow> plain_marks c')"

definition fresh_packets :: "client \<Rightarrow> world \<Rightarrow> client \<Rightarrow> bool" where
  "fresh_packets c w c' \<longleftrightarrow>
     (\<forall>pq \<in> set (c_queue c'). pq \<in> set (c_queue c) \<or> brk (w_mem w) \<le> pq_p pq)"

definition enqueued :: "client \<Rightarrow> world \<Rightarrow> byte list list \<Rightarrow> client \<Rightarrow> world \<Rightarrow> bool" where
  "enqueued c w ps c' w' \<longleftrightarrow> appended c w ps c' w' \<and> fresh_packets c w c'"

lemmas enqueued_defs = enqueued_def appended_def fresh_packets_def

lemma enqueued_refl: "queue_ok c w \<Longrightarrow> enqueued c w [] c w"
  by (simp add: enqueued_defs same_defs)

lemma enqueued_trans:
  "enqueued c w ps c1 w1 \<Longrightarrow> enqueued c1 w1 qs c2 w2 \<Longrightarrow> enqueued c w (ps @ qs) c2 w2"
  unfolding enqueued_defs
  by (intro conjI; (elim conjE)?)
    (auto simp: same_defs extends_def intro: extends_trans dest!: bspec)

lemma pq_extends:
  "heap_wf h \<Longrightarrow> extends h h' \<Longrightarrow> pq_live h pq \<Longrightarrow> pq_live h' pq \<and> pq_bytes h' pq = pq_bytes h pq"
  by (auto simp: pq_live_def pq_bytes_def dest!: extends_live)

lemma queued_extends:
  assumes "queue_ok c w" "extends (w_mem w) h'"
  shows "map (pq_bytes h') (c_queue c) = queued c w \<and> (\<forall>pq \<in> set (c_queue c). pq_live h' pq)"
  using assms pq_extends [of "w_mem w" h'] by (auto simp: queued_def queue_ok_def)

lemma QueuePacket_frame:
  "QueuePacket c p len al w = Inr (c', w') \<Longrightarrow>
     same_client c c' \<and> same_world w w' \<and> brk (w_mem w) \<le> brk (w_mem w')
     \<and> mux_le (w_mux w) (w_mux w') \<and> (al \<noteq> 2 \<longrightarrow> pq_allocated (c_lastpacket c) \<noteq> 2 \<longrightarrow> pq_allocated (c_lastpacket c') \<noteq> 2)"
proof -
  assume run: "QueuePacket c p len al w = Inr (c', w')"
  obtain q h1 where push: "list_push \<lparr>pq_p = p, pq_len = len, pq_allocated = al\<rparr> (c_queue c, w_mem w)
      = Inr (q, h1)"
    using run by (auto simp: QueuePacket_def Let_def and_then_eq_Inr)
  obtain r fl ep where ssk: "SetSocketStatus (sk_fd (c_s c)) (SF_WRITABLE OR SF_READABLE)
      (sk_flags (c_s c)) (w_mux w) = Inr (r, fl, ep)"
    using run by (auto simp: QueuePacket_def Let_def and_then_eq_Inr split: if_splits)
  note le = SetSocketStatus_le [OF ssk]
  have brk1: "brk h1 = Suc (brk (w_mem w))"
    using list_push_extends [OF push] by simp
  show ?thesis
  proof (cases "al = 2")
    case True
    with run push ssk brk1 le show ?thesis
      by (auto simp: QueuePacket_def Let_def same_defs)
  next
    case False
    with run push ssk obtain lp h2 bytes h3 where "nmalloc len h1 = Inr (lp, h2)"
      "store lp 0 bytes h2 = Inr h3" "w' = w\<lparr>w_mem := h3, w_mux := ep\<rparr>"
      "c' = c\<lparr>c_queue := q, c_lastpacket := \<lparr>pq_p = lp, pq_len = len, pq_allocated = al\<rparr>,
         c_nextresend := w_now w + 5, c_s := (c_s c)\<lparr>sk_flags := fl\<rparr>\<rparr>"
      by (auto simp: QueuePacket_def Let_def and_then_eq_Inr)
    with False brk1 le nmalloc_brk [of len h1 lp h2] store_frame [of lp 0 bytes h2 h3] show ?thesis
      by (simp add: same_defs)
  qed
qed

text \<open>
  The contract of \<open>QueuePacket\<close> for a new packet: it can only fail for lack of memory,
  and it queues exactly the first \<open>len\<close> bytes of the block.
\<close>

lemma QueuePacket_sat:
  assumes ok: "queue_ok c w" and p: "blocks (w_mem w) p = Some b" "len \<le> length b"
    and len: "0 < len"
  shows "sat (\<lambda>_. \<not> mem_ok (w_mem w))
    (\<lambda>(c', w'). appended c w [take len b] c' w'
       \<and> c_queue c' = c_queue c @ [\<lparr>pq_p = p, pq_len = len, pq_allocated = 1\<rparr>]
       \<and> pq_bytes (w_mem w') (c_lastpacket c') = take len b \<and> c_nextresend c' = w_now w + 5)
    (QueuePacket c p len 1 w)"
proof (cases "oom (w_mem w) (brk (w_mem w)) \<or> oom (w_mem w) (Suc (brk (w_mem w)))")
  case True
  then have "\<not> mem_ok (w_mem w)" by (auto simp: mem_ok_def)
  moreover have "\<exists>e. QueuePacket c p len 1 w = Inl e"
    using True
    by (cases "oom (w_mem w) (brk (w_mem w))")
      (simp_all add: QueuePacket_def Let_def list_push_def nmalloc_eq)
  ultimately show ?thesis by auto
next
  case False
  let ?h = "w_mem w"
  have wf: "heap_wf ?h" using ok by (simp add: queue_ok_def)
  have pb: "0 < p" "p < brk ?h"
    using heap_wf_live [OF wf p(1)] by simp_all
  let ?lp = "Suc (brk ?h)"
  let ?h' = "?h\<lparr>blocks := (blocks ?h)(?lp \<mapsto> take len b), brk := Suc ?lp\<rparr>"
  let ?pack = "\<lparr>pq_p = p, pq_len = len, pq_allocated = 1\<rparr>"
  have "mux_ok (sk_fd (c_s c)) (w_mux w)" using ok by (simp add: queue_ok_def)
  then obtain r fl ep where ssk: "SetSocketStatus (sk_fd (c_s c)) (SF_WRITABLE OR SF_READABLE)
      (sk_flags (c_s c)) (w_mux w) = Inr (r, fl, ep)" "mux_ok (sk_fd (c_s c)) ep"
    by (metis SetSocketStatus_total)
  have res: "QueuePacket c p len 1 w = Inr
      (c\<lparr>c_queue := c_queue c @ [?pack], c_lastpacket := ?pack\<lparr>pq_p := ?lp\<rparr>,
         c_nextresend := w_now w + 5, c_s := (c_s c)\<lparr>sk_flags := fl\<rparr>\<rparr>,
       w\<lparr>w_mem := ?h', w_mux := ep\<rparr>)"
    using False len p pb ssk
    by (simp add: QueuePacket_def list_push_def nmalloc_eq load_def store_def Let_def)
  have ext: "extends ?h ?h'"
    by (auto simp: extends_def)
  have wf': "heap_wf ?h'"
    using wf by (auto simp: heap_wf_def less_Suc_eq)
  have b': "blocks ?h' p = Some b"
    using p pb by simp
  show ?thesis
    using queued_extends [OF ok ext] wf' p(2) pb b' ext ssk(2)
    by (auto simp: res appended_def queued_def queue_ok_def pq_bytes_def pq_live_def same_defs
        plain_marks_def)
qed

end
