(* ===== verification/Packets.thy ===== *)
theory Packets
  imports Sockets
begin

text \<open>
  The packet builders of src/src/packet.c, and the wire format they produce. Each
  builder allocates a block, writes its fields into it and queues it; the contracts say
  that the bytes queued are exactly those of the packet, and that only a failed
  allocation (or, for \<open>Error\<close>, the assertion on the length of its text) stops it.
\<close>

section \<open>Wire format\<close>

definition data_packet :: "16 word \<Rightarrow> byte list \<Rightarrow> byte list" where
  "data_packet b d = be16 PACKET_DATA @ be16 b @ d"

definition ack_packet :: "16 word \<Rightarrow> byte list" where
  "ack_packet b = be16 PACKET_ACK @ be16 b"

definition error_packet :: "16 word \<Rightarrow> string \<Rightarrow> byte list" where
  "error_packet e m = be16 PACKET_ERROR @ be16 e @ m @ [NUL]"

text \<open>
  The option acknowledgement as the code builds it: the last assignment of
  \<open>OptionAcknowledge\<close> goes to the first byte of the value it has just copied, and the
  length counts two bytes more than the fields need.
\<close>

definition zap_first :: "string \<Rightarrow> string" where
  "zap_first v = (case v of [] \<Rightarrow> [] | _ # cs \<Rightarrow> NUL # cs)"

definition oack_packet :: "string \<Rightarrow> string \<Rightarrow> byte list" where
  "oack_packet opt v = be16 PACKET_OACK @ opt @ [NUL] @ zap_first v @ [NUL, NUL, NUL]"

lemma oack_packet_nonempty:
  "v \<noteq> [] \<Longrightarrow> oack_packet opt v = be16 6 @ opt @ [NUL] @ (NUL # tl v) @ [NUL] @ [NUL, NUL]"
  by (cases v) (simp_all add: oack_packet_def zap_first_def PACKET_OACK_def)

lemma length_zap_first [simp]: "length (zap_first v) = length v"
  by (cases v) (simp_all add: zap_first_def)

section \<open>The builders\<close>

definition SendData :: "client \<Rightarrow> byte list \<Rightarrow> world \<Rightarrow> fault + client \<times> world" where
  "SendData c data w =
     and_then (nmalloc (length data + sizeof_packet) (w_mem w)) (\<lambda>(p, h1).
     and_then (write_parts store p 0 [be16 PACKET_DATA, be16 (c_currentblockno c), data] h1) (\<lambda>h2.
       QueuePacket c p (length data + sizeof_packet) 1 (w\<lparr>w_mem := h2\<rparr>)))"

definition Acknowledge :: "client \<Rightarrow> 16 word \<Rightarrow> world \<Rightarrow> fault + client \<times> world" where
  "Acknowledge c blockno w =
     and_then (nmalloc sizeof_packet (w_mem w)) (\<lambda>(p, h1).
     and_then (write_parts store p 0 [be16 PACKET_ACK, be16 blockno] h1) (\<lambda>h2.
       QueuePacket c p sizeof_packet 1 (w\<lparr>w_mem := h2\<rparr>)))"

text \<open>
  \<open>Error\<close>, on the text \<open>msg\<close> the format string expands to: the formatted copy is
  allocated (and the call returns without effect if that fails), its length is asserted,
  the packet is built, queued, the client marked for removal, and the copy freed.
\<close>

definition Error :: "client \<Rightarrow> 16 word \<Rightarrow> string \<Rightarrow> world \<Rightarrow> fault + client \<times> world" where
  "Error c errnum msg w =
     (case vasprintf (Some msg) (w_mem w) of (len, buf, h0) \<Rightarrow>
       if len = - 1 then Inr (c, w\<lparr>w_mem := h0, w_errno := ENOMEM\<rparr>)
       else if \<not> length msg + sizeof_packet \<le> MAX_PACKET_SIZE then Inl Assert_failed
       else and_then (nmalloc (length msg + sizeof_packet + 1) h0) (\<lambda>(p, h1).
         and_then (write_parts store p 0 [be16 PACKET_ERROR, be16 errnum, msg, [NUL]] h1) (\<lambda>h2.
         and_then (QueuePacket c p (length msg + sizeof_packet + 1) 1 (w\<lparr>w_mem := h2\<rparr>))
           (\<lambda>(c1, w1).
         and_then (free buf (w_mem w1)) (\<lambda>h3.
           Inr (c1\<lparr>c_destroy := 1\<rparr>, w1\<lparr>w_mem := h3\<rparr>))))))"

definition OptionAcknowledge ::
  "client \<Rightarrow> string \<Rightarrow> string \<Rightarrow> world \<Rightarrow> fault + client \<times> world" where
  "OptionAcknowledge c option param w =
     (let n = sizeof_packet + length option + length param + 2;
          v = 2 + length option + 1 in
      and_then (nmalloc n (w_mem w)) (\<lambda>(p, h1).
      and_then (store p 0 (be16 PACKET_OACK) h1) (\<lambda>h2.
      and_then (store p 2 (option @ [NUL]) h2) (\<lambda>h3.
      and_then (store p (2 + length option) [NUL] h3) (\<lambda>h4.
      and_then (store p v (param @ [NUL]) h4) (\<lambda>h5.
      and_then (store p v [NUL] h5) (\<lambda>h6.
        QueuePacket c p n 1 (w\<lparr>w_mem := h6\<rparr>))))))))"

section \<open>Contracts\<close>

text \<open>Allocate, build, queue: the shape all builders share.\<close>

lemma build_and_queue:
  assumes ok: "queue_ok c w" and n: "0 < n" "length bs = n"
    and build: "\<And>p h1. nmalloc n (w_mem w) = Inr (p, h1) \<Longrightarrow>
      \<exists>h2. build p h1 = Inr h2 \<and> heap_wf h2 \<and> extends (w_mem w) h2 \<and> blocks h2 p = Some bs"
  shows "sat (\<lambda>_. \<not> mem_ok (w_mem w)) (\<lambda>(c', w'). enqueued c w [bs] c' w')
    (and_then (nmalloc n (w_mem w)) (\<lambda>(p, h1).
     and_then (build p h1) (\<lambda>h2. QueuePacket c p n 1 (w\<lparr>w_mem := h2\<rparr>))))"
proof (cases "nmalloc n (w_mem w)")
  case (Inl e)
  moreover have "\<not> mem_ok (w_mem w)"
    using Inl nmalloc_total [of "w_mem w" n] ok by (auto simp: queue_ok_def)
  ultimately show ?thesis by simp
next
  case (Inr r)
  then obtain p h1 where r: "nmalloc n (w_mem w) = Inr (p, h1)"
    by (metis surj_pair)
  from build [OF r] obtain h2 where h2: "build p h1 = Inr h2" "heap_wf h2"
    "extends (w_mem w) h2" "blocks h2 p = Some bs"
    by blast
  let ?w = "w\<lparr>w_mem := h2\<rparr>"
  have ok2: "queue_ok c ?w" and q2: "queued c ?w = queued c w"
    using queued_extends [OF ok h2(3)] h2(2) ok by (simp_all add: queue_ok_def queued_def)
  have p: "p = brk (w_mem w)"
    using nmalloc_extends [OF _ r] ok by (simp add: queue_ok_def)
  have "sat (\<lambda>_. \<not> mem_ok (w_mem w)) (\<lambda>(c', w'). enqueued c w [bs] c' w')
      (QueuePacket c p n 1 ?w)"
    using QueuePacket_sat [OF ok2, of p bs n] n h2 q2 extends_mem_ok [OF h2(3)]
    by (auto simp: enqueued_defs same_defs p elim!: sat_mono intro: extends_trans)
  then show ?thesis
    by (simp add: r h2(1))
qed

lemma build_parts:
  assumes "heap_wf h" "nmalloc n h = Inr (p, h1)" "0 < n" "length (concat xs) = n"
  shows "\<exists>h2. write_parts store p 0 xs h1 = Inr h2 \<and> heap_wf h2 \<and> extends h h2
    \<and> blocks h2 p = Some (concat xs)"
  using nmalloc_write_parts [OF assms(1,3,2), of xs] assms(4) by auto

lemma SendData_sat:
  "queue_ok c w \<Longrightarrow>
     sat (\<lambda>_. \<not> mem_ok (w_mem w))
       (\<lambda>(c', w'). enqueued c w [data_packet (c_currentblockno c) d] c' w') (SendData c d w)"
  unfolding SendData_def
  by (rule build_and_queue)
    (auto simp: sizeof_packet_def data_packet_def queue_ok_def simp del: write_parts.simps
      dest: build_parts [where xs = "[be16 PACKET_DATA, be16 (c_currentblockno c), d]"])

lemma Acknowledge_sat:
  "queue_ok c w \<Longrightarrow>
     sat (\<lambda>_. \<not> mem_ok (w_mem w)) (\<lambda>(c', w'). enqueued c w [ack_packet b] c' w') (Acknowledge c b w)"
  unfolding Acknowledge_def
  by (rule build_and_queue)
    (auto simp: sizeof_packet_def ack_packet_def queue_ok_def simp del: write_parts.simps
      dest: build_parts [where xs = "[be16 PACKET_ACK, be16 b]"])

lemma store_at:
  "p \<noteq> NULL \<Longrightarrow> blocks h p = Some (xs @ ys @ zs) \<Longrightarrow> length ys = length ys' \<Longrightarrow> off = length xs \<Longrightarrow>
     store p off ys' h = Inr (h\<lparr>blocks := (blocks h)(p \<mapsto> xs @ ys' @ zs)\<rparr>)"
  by (simp add: store_def)

lemma oack_build:
  assumes p: "p \<noteq> NULL" "blocks h p = Some (replicate (sizeof_packet + length opt + length v + 2) NUL)"
  shows "and_then (store p 0 (be16 PACKET_OACK) h) (\<lambda>h2.
      and_then (store p 2 (opt @ [NUL]) h2) (\<lambda>h3.
      and_then (store p (2 + length opt) [NUL] h3) (\<lambda>h4.
      and_then (store p (2 + length opt + 1) (v @ [NUL]) h4) (store p (2 + length opt + 1) [NUL]))))
    = Inr (h\<lparr>blocks := (blocks h)(p \<mapsto> oack_packet opt v)\<rparr>)"
proof -
  let ?upd = "\<lambda>b. h\<lparr>blocks := (blocks h)(p \<mapsto> b)\<rparr>"
  let ?Z = "\<lambda>k. replicate k NUL" and ?v = "2 + length opt + 1"
  have s1: "store p 0 (be16 PACKET_OACK) h
      = Inr (?upd (be16 PACKET_OACK @ ?Z (length opt + length v + 4)))"
    using p by (simp add: store_def sizeof_packet_def add.commute add.left_commute)
  have s2: "store p 2 (opt @ [NUL]) (?upd (be16 PACKET_OACK @ ?Z (length opt + length v + 4)))
      = Inr (?upd (be16 PACKET_OACK @ opt @ [NUL] @ ?Z (length v + 3)))"
    using p by (simp add: store_def add.commute add.left_commute)
  have s3: "store p (2 + length opt) [NUL] (?upd (be16 PACKET_OACK @ opt @ [NUL] @ ?Z (length v + 3)))
      = Inr (?upd (be16 PACKET_OACK @ opt @ [NUL] @ ?Z (length v + 3)))"
    using p by (simp add: store_def add.commute add.left_commute)
  have z: "?Z (length v + 3) = ?Z (length v) @ ?Z 3"
    by (rule replicate_add)
  have s4: "store p ?v (v @ [NUL]) (?upd (be16 PACKET_OACK @ opt @ [NUL] @ ?Z (length v + 3)))
      = Inr (?upd (be16 PACKET_OACK @ opt @ [NUL] @ v @ [NUL] @ ?Z 2))"
    unfolding z using p by (simp add: store_def numeral_3_eq_3 numeral_2_eq_2)
  have s5: "store p ?v [NUL] (?upd (be16 PACKET_OACK @ opt @ [NUL] @ v @ [NUL] @ ?Z 2))
      = Inr (?upd (oack_packet opt v))"
    using p by (cases v) (simp_all add: store_def oack_packet_def zap_first_def numeral_2_eq_2)
  from s1 s2 s3 s4 s5 show ?thesis by simp
qed

lemma OptionAcknowledge_eq:
  "OptionAcknowledge c opt v w =
     (let n = sizeof_packet + length opt + length v + 2 in
      and_then (nmalloc n (w_mem w)) (\<lambda>(p, h1).
      and_then (and_then (store p 0 (be16 PACKET_OACK) h1) (\<lambda>h2.
        and_then (store p 2 (opt @ [NUL]) h2) (\<lambda>h3.
        and_then (store p (2 + length opt) [NUL] h3) (\<lambda>h4.
        and_then (store p (2 + length opt + 1) (v @ [NUL]) h4) (store p (2 + length opt + 1) [NUL])))))
      (\<lambda>h2. QueuePacket c p n 1 (w\<lparr>w_mem := h2\<rparr>))))"
  by (simp add: OptionAcknowledge_def Let_def)

lemma OptionAcknowledge_sat:
  assumes ok: "queue_ok c w"
  shows "sat (\<lambda>_. \<not> mem_ok (w_mem w)) (\<lambda>(c', w'). enqueued c w [oack_packet opt v] c' w')
    (OptionAcknowledge c opt v w)"
  unfolding OptionAcknowledge_eq Let_def
proof (rule build_and_queue [OF ok])
  fix p h1
  assume nm: "nmalloc (sizeof_packet + length opt + length v + 2) (w_mem w) = Inr (p, h1)"
  have wf: "heap_wf (w_mem w)" using ok by (simp add: queue_ok_def)
  have p: "p \<noteq> NULL" "blocks h1 p = Some (replicate (sizeof_packet + length opt + length v + 2) NUL)"
    and h1: "heap_wf h1" "extends (w_mem w) h1" "p = brk (w_mem w)"
    using nm wf nmalloc_extends [OF wf nm] heap_wf_nmalloc [OF wf nm]
    by (auto simp: nmalloc_eq heap_wf_brk split: if_splits)
  show "\<exists>h2. and_then (store p 0 (be16 PACKET_OACK) h1) (\<lambda>h2.
        and_then (store p 2 (opt @ [NUL]) h2) (\<lambda>h3.
        and_then (store p (2 + length opt) [NUL] h3) (\<lambda>h4.
        and_then (store p (2 + length opt + 1) (v @ [NUL]) h4) (store p (2 + length opt + 1) [NUL])))) = Inr h2
      \<and> heap_wf h2 \<and> extends (w_mem w) h2 \<and> blocks h2 p = Some (oack_packet opt v)"
    unfolding oack_build [OF p] using h1 p(2) by (auto simp: heap_wf_def extends_def)
qed (auto simp: sizeof_packet_def oack_packet_def)

section \<open>Error\<close>

lemma queue_ok_addr: "queue_ok c w \<Longrightarrow> pq \<in> set (c_queue c) \<Longrightarrow> pq_p pq < brk (w_mem w)"
  by (auto simp: queue_ok_def pq_live_def dest!: bspec dest: heap_wf_live)

lemma queue_ok_cong:
  "c_queue c' = c_queue c \<Longrightarrow> sk_fd (c_s c') = sk_fd (c_s c) \<Longrightarrow> w_mem w' = w_mem w \<Longrightarrow>
     w_mux w' = w_mux w \<Longrightarrow> queue_ok c' w' = queue_ok c w"
  by (simp add: queue_ok_def)

lemma enqueued_destroy:
  "enqueued c w ps c' w' \<Longrightarrow> enqueued (c\<lparr>c_destroy := d\<rparr>) w ps (c'\<lparr>c_destroy := d\<rparr>) w'"
proof -
  assume enq: "enqueued c w ps c' w'"
  have "same_client c c' \<Longrightarrow> same_client (c\<lparr>c_destroy := d\<rparr>) (c'\<lparr>c_destroy := d\<rparr>)"
    by (simp add: same_client_def)
  moreover have "queued (a\<lparr>c_destroy := d\<rparr>) v = queued a v" "plain_marks (a\<lparr>c_destroy := d\<rparr>) = plain_marks a"
      "queue_ok (a\<lparr>c_destroy := d\<rparr>) v = queue_ok a v" for a v
    by (simp_all add: queued_def plain_marks_def queue_ok_def)
  ultimately show ?thesis
    using enq by (simp add: enqueued_defs)
qed

text \<open>
  A temporary string: allocated before packets are queued, freed after. The queue is the
  one it would be without the string.
\<close>

definition with_str :: "string \<Rightarrow> heap \<Rightarrow> heap" where
  "with_str s h = h\<lparr>blocks := (blocks h)(brk h \<mapsto> s @ [NUL]), brk := Suc (brk h)\<rparr>"

lemma strdup_with_str: "heap_wf h \<Longrightarrow> mem_ok h \<Longrightarrow> strdup s h = (brk h, with_str s h)"
  by (simp add: strdup_eq heap_wf_brk mem_ok_def with_str_def)

lemma with_str_wf:
  "heap_wf h \<Longrightarrow> heap_wf (with_str s h)" "extends h (with_str s h)"
  "mem_ok (with_str s h) = mem_ok h" "brk (with_str s h) = Suc (brk h)"
  by (auto simp: with_str_def heap_wf_def extends_def mem_ok_def)

lemma queue_ok_with_str:
  assumes "queue_ok c w" "w_mem w' = with_str s (w_mem w)" "w_mux w' = w_mux w"
  shows "queue_ok c w'" "queued c w' = queued c w"
proof -
  have "heap_wf (w_mem w)" using assms(1) by (simp add: queue_ok_def)
  note wf = with_str_wf(1) [OF this, of s]
  note q = queued_extends [OF assms(1) with_str_wf(2) [of "w_mem w" s]]
  from wf q assms(1) show "queue_ok c w'" by (simp add: queue_ok_def assms(2,3))
  from q show "queued c w' = queued c w" by (simp add: queued_def assms(2))
qed

lemma free_temp_enqueued:
  assumes ok: "queue_ok c w"
    and enq: "enqueued c (w\<lparr>w_mem := with_str s (w_mem w)\<rparr>) ps c1 w1"
  shows "\<exists>h. free (brk (w_mem w)) (w_mem w1) = Inr h \<and> enqueued c w ps c1 (w1\<lparr>w_mem := h\<rparr>)"
proof -
  let ?h = "w_mem w"
  let ?wc = "w\<lparr>w_mem := with_str s ?h\<rparr>"
  have wf: "heap_wf ?h" using ok by (simp add: queue_ok_def)
  have b: "blocks (w_mem w1) (brk ?h) = Some (s @ [NUL])"
    using enq extends_live [OF with_str_wf(1) [OF wf], of s "w_mem w1" "brk ?h"]
    by (simp add: enqueued_defs with_str_def)
  let ?hf = "(w_mem w1)\<lparr>blocks := (blocks (w_mem w1))(brk ?h := None)\<rparr>"
  have fr: "free (brk ?h) (w_mem w1) = Inr ?hf"
    using b heap_wf_brk [OF wf] by (simp add: free_def)
  have other: "pq_p pq \<noteq> brk ?h" if "pq \<in> set (c_queue c1)" for pq
    using that enq queue_ok_addr [OF ok, of pq] with_str_wf(4)
    by (auto simp: enqueued_defs)
  have q1: "map (pq_bytes ?hf) (c_queue c1) = queued c1 w1"
      "\<forall>pq \<in> set (c_queue c1). pq_live ?hf pq = pq_live (w_mem w1) pq"
    using other by (auto simp: queued_def pq_bytes_def pq_live_def)
  have "enqueued c w ps c1 (w1\<lparr>w_mem := ?hf\<rparr>)"
    using enq queue_ok_with_str(2) [OF ok, of ?wc s] q1 wf with_str_wf(2) [of ?h s] with_str_wf(4)
    by (auto simp: enqueued_defs queue_ok_def same_defs queued_def extends_def heap_wf_def)
  with fr show ?thesis by blast
qed

text \<open>
  \<open>Error\<close>: without memory for the formatted text nothing happens; a text too long for a
  packet is the failed assertion; otherwise the error packet is queued and the client is
  marked for removal.
\<close>

lemma Error_assert:
  "heap_wf (w_mem w) \<Longrightarrow> mem_ok (w_mem w) \<Longrightarrow> MAX_PACKET_SIZE < length m + 4 \<Longrightarrow>
     Error c e m w = Inl Assert_failed"
  by (simp add: Error_def vasprintf_strdup strdup_with_str heap_wf_brk sizeof_packet_def)

lemma Error_sat:
  assumes ok: "queue_ok c w" and len: "length m + 4 \<le> MAX_PACKET_SIZE" and mem: "mem_ok (w_mem w)"
  shows "total (\<lambda>(c', w'). enqueued (c\<lparr>c_destroy := 1\<rparr>) w [error_packet e m] c' w') (Error c e m w)"
proof -
  let ?h = "w_mem w"
  have wf: "heap_wf ?h" using ok by (simp add: queue_ok_def)
  let ?wc = "w\<lparr>w_mem := with_str m ?h\<rparr>"
  let ?build = "\<lambda>p. write_parts store p 0 [be16 PACKET_ERROR, be16 e, m, [NUL]]"
  let ?n = "length m + sizeof_packet + 1"
  let ?go = "and_then (nmalloc ?n (with_str m ?h)) (\<lambda>(p, h1). and_then (?build p h1) (\<lambda>h2.
         QueuePacket c p ?n 1 (w\<lparr>w_mem := h2\<rparr>)))"
  have okc: "queue_ok c ?wc"
    by (rule queue_ok_with_str(1) [OF ok]) simp_all
  have "sat (\<lambda>_. \<not> mem_ok (w_mem ?wc)) (\<lambda>(c', w'). enqueued c ?wc [error_packet e m] c' w')
      (and_then (nmalloc ?n (w_mem ?wc)) (\<lambda>(p, h1). and_then (?build p h1) (\<lambda>h2.
         QueuePacket c p ?n 1 (?wc\<lparr>w_mem := h2\<rparr>))))"
    using with_str_wf(1) [OF wf, of m] by (intro build_and_queue [OF okc])
      (auto simp: sizeof_packet_def error_packet_def simp del: write_parts.simps
        dest: build_parts [where xs = "[be16 PACKET_ERROR, be16 e, m, [NUL]]"])
  then have "total (\<lambda>(c', w'). enqueued c ?wc [error_packet e m] c' w') ?go"
    using mem with_str_wf(3)
    by (auto simp del: sat_and_then write_parts.simps dest: sat_weaken_fault [where F = "\<lambda>_. False"])
  then obtain c1 w1 where run: "?go = Inr (c1, w1)"
      and enq: "enqueued c ?wc [error_packet e m] c1 w1"
    by (auto simp: total_ex)
  obtain h3 where h3: "free (brk ?h) (w_mem w1) = Inr h3"
      "enqueued c w [error_packet e m] c1 (w1\<lparr>w_mem := h3\<rparr>)"
    using free_temp_enqueued [OF ok enq] by blast
  have "Error c e m w = and_then ?go (\<lambda>(c1, w1).
      and_then (free (brk ?h) (w_mem w1)) (\<lambda>h3. Inr (c1\<lparr>c_destroy := 1\<rparr>, w1\<lparr>w_mem := h3\<rparr>)))"
    using len mem heap_wf_brk [OF wf] strdup_with_str [OF wf mem]
    by (simp add: Error_def vasprintf_strdup sizeof_packet_def split_def del: write_parts.simps)
  with run h3 enqueued_destroy [OF h3(2)] show ?thesis
    by simp
qed

end
