(* ===== verification/Process_Packet.thy ===== *)
theory Process_Packet
  imports Packets
begin

text \<open>
  \<open>ProcessPacket\<close> of src/src/process.c, one definition per kind of packet. The buffer
  \<open>buf\<close> is the whole receive buffer of the socket (\<open>alloclen\<close> is its length), \<open>len\<close> the
  number of bytes received. The client is taken and given back by value: nothing else
  holds it while a packet is processed. The branch for the GNU \<open>strndupa\<close> is modelled,
  in which the parsed strings live on the stack. What is only printed is left out: the
  strings of \<open>stringify\<close> and \<open>GetAddress\<close>, and the line that prints \<open>optparam\<close> also where
  it was not assigned. A null pointer given to a library function that reads a string
  (\<open>tmp\<close> in a read request when memory is out, an unset directory) is \<open>Null_deref\<close>.
\<close>

section \<open>Fields and the common first lines\<close>

definition field16 :: "nat \<Rightarrow> byte list \<Rightarrow> fault + 16 word" where
  "field16 off buf =
     (if off + 1 < length buf then Inr (of_be16 (buf ! off) (buf ! (off + 1))) else Inl Out_of_bounds)"

text \<open>Every case but the default one starts by ending a pending resend.\<close>

definition end_resend :: "client \<Rightarrow> world \<Rightarrow> fault + client \<times> world" where
  "end_resend c w =
     (let c1 = c\<lparr>c_waiting := 0\<rparr> in
      if pq_allocated (c_lastpacket c) = 2
      then and_then (free (pq_p (c_lastpacket c)) (w_mem w)) (\<lambda>h.
             Inr (c1\<lparr>c_lastpacket := (c_lastpacket c)\<lparr>pq_len := 0, pq_allocated := 0\<rparr>\<rparr>,
                  w\<lparr>w_mem := h\<rparr>))
      else Inr (c1, w))"

section \<open>DATA, ERROR and ACK\<close>

text \<open>\<open>len - sizeof(packet_t)\<close> in \<open>size_t\<close>.\<close>

definition payload_len :: "nat \<Rightarrow> nat" where
  "payload_len len = unat (word_of_nat len - word_of_nat sizeof_packet :: 64 word)"

definition process_data :: "client \<Rightarrow> byte list \<Rightarrow> nat \<Rightarrow> world \<Rightarrow> fault + client \<times> world" where
  "process_data c buf len w =
     and_then (end_resend c w) (\<lambda>(c1, w1).
     let w2 = call_event EV_DATA_PACKET w1 in
     if c_sendingfile c1 = 0 then Inr (c1, w2)
     else
       let c2 = c1\<lparr>c_currentblockno := c_currentblockno c1 + 1,
                   c_actualblockno := c_actualblockno c1 + 1\<rparr>;
           n = payload_len len in
       if length buf < sizeof_packet + n then Inl Out_of_bounds
       else and_then (fwrite (take n (drop sizeof_packet buf)) (c_f c2) (w_fs w2)) (\<lambda>(flen, fs).
         and_then (field16 2 buf) (\<lambda>blockno.
         and_then (Acknowledge c2 blockno (w2\<lparr>w_fs := fs\<rparr>)) (\<lambda>(c3, w3).
           Inr (if n < 512 then c3\<lparr>c_destroy := 1\<rparr> else c3, w3)))))"

definition process_error :: "client \<Rightarrow> byte list \<Rightarrow> nat \<Rightarrow> world \<Rightarrow> fault + client \<times> world" where
  "process_error c buf len w =
     and_then (end_resend c w) (\<lambda>(c1, w1).
     and_then (GetNext buf sizeof_packet 512) (\<lambda>(error, _).
     and_then (Acknowledge c1 1 (call_event EV_ERROR_PACKET w1)) (\<lambda>(c2, w2).
       Inr (c2\<lparr>c_destroy := 1\<rparr>, w2))))"

definition process_ack :: "client \<Rightarrow> byte list \<Rightarrow> nat \<Rightarrow> world \<Rightarrow> fault + client \<times> world" where
  "process_ack c buf len w =
     and_then (end_resend c w) (\<lambda>(c1, w1).
     let w2 = call_event EV_ACK_PACKET w1; size = unat (c_blksize c1) in
     if c_sendingfile c1 = 0 then Inr (c1, w2)
     else
       and_then (if c_blk c1 = NULL then nmalloc size (w_mem w2)
                 else Inr (c_blk c1, w_mem w2)) (\<lambda>(blk, h1).
       and_then (memset blk NUL size h1) (\<lambda>h2.
       and_then (fread size (c_f c1) (w_fs w2)) (\<lambda>(bytes, fs).
       and_then (store blk 0 bytes h2) (\<lambda>h3.
       let c2 = c1\<lparr>c_blk := blk, c_currentblockno := c_currentblockno c1 + 1,
                   c_actualblockno := c_actualblockno c1 + 1\<rparr> in
       and_then (load blk 0 (length bytes) h3) (\<lambda>data.
       and_then (SendData c2 data (w2\<lparr>w_mem := h3, w_fs := fs\<rparr>)) (\<lambda>(c3, w3).
         Inr (if min size (length bytes) \<noteq> size then c3\<lparr>c_destroy := 1\<rparr> else c3, w3))))))))"

section \<open>Requests\<close>

text \<open>
  File name, mode, option and, if the option is not empty, its parameter. The limit of
  every string is that of the whole buffer, as in the source.
\<close>

definition parse_request :: "byte list \<Rightarrow> fault + string \<times> string \<times> string \<times> string option" where
  "parse_request buf =
     (let maxlen = length buf - 2 in
      and_then (GetNext buf 2 maxlen) (\<lambda>(filename, d1).
      and_then (GetNext buf d1 maxlen) (\<lambda>(mode, d2).
      and_then (GetNext buf d2 maxlen) (\<lambda>(opt, d3).
        if length opt \<noteq> 0
        then and_then (GetNext buf d3 maxlen) (\<lambda>(optparam, _).
               Inr (filename, mode, opt, Some optparam))
        else Inr (filename, mode, opt, None)))))"

text \<open>\<open>asprintf(&tmp, "%s/%s", config->directory, filename)\<close> after \<open>FixPath\<close>.\<close>

definition request_path :: "string \<Rightarrow> config \<Rightarrow> fault + string" where
  "request_path filename cf =
     (case cf_directory cf of
        None \<Rightarrow> Inl Null_deref
      | Some dir \<Rightarrow> Inr (dir @ ''/'' @ (if cf_fixpath cf then FixPath filename else filename)))"

text \<open>\<open>free(tmp)\<close> at the end of a request.\<close>

definition free_tmp :: "addr \<Rightarrow> client \<times> world \<Rightarrow> fault + client \<times> world" where
  "free_tmp tmp r =
     (case r of (c, w) \<Rightarrow> and_then (free tmp (w_mem w)) (\<lambda>h. Inr (c, w\<lparr>w_mem := h\<rparr>)))"

subsection \<open>WRQ\<close>

text \<open>
  \<open>access(tmp, W_OK) == -1 || access(config->directory, W_OK) == -1\<close>: 0, or the error
  number of the call that failed.
\<close>

definition access_errno :: "string \<Rightarrow> string \<Rightarrow> filesys \<Rightarrow> nat" where
  "access_errno path dir fs =
     (if access_write path fs \<noteq> 0 then access_write path fs else access_write dir fs)"

definition wrq_open :: "client \<Rightarrow> string \<Rightarrow> string \<Rightarrow> world \<Rightarrow> fault + client \<times> world" where
  "wrq_open c dir path w =
     (let e = access_errno path dir (w_fs w);
          w1 = (if e \<noteq> 0 then w\<lparr>w_errno := e\<rparr> else w) in
      if e \<noteq> 0 \<and> w_errno w1 = EACCES
      then Error c ERROR_NOUSER (''Cannot access file: '' @ w_strerror w1 (w_errno w1)) w1
      else case fopen_write path (w_errno w1, w_fs w1) of (f, e2, fs) \<Rightarrow>
        let w2 = w1\<lparr>w_errno := e2, w_fs := fs\<rparr> in
        if f = 0
        then Error c ERROR_NOFILE (''Cannot write file: '' @ w_strerror w2 (w_errno w2)) w2
        else Acknowledge
          (c\<lparr>c_f := f, c_currentblockno := 1, c_actualblockno := 1, c_sendingfile := 1\<rparr>) 0
          (call_event EV_NEWWRITEREQUEST w2))"

definition process_wrq :: "client \<Rightarrow> byte list \<Rightarrow> nat \<Rightarrow> world \<Rightarrow> fault + client \<times> world" where
  "process_wrq c0 buf len w0 =
     and_then (end_resend c0 w0) (\<lambda>(c, w).
     and_then (parse_request buf) (\<lambda>(filename, mode, opt, optparam).
     if strcasecmp mode ''mail'' = 0
     then Error c ERROR_ILLEGAL ''Mail mode not supported by NBSTFTP'' w
     else and_then (request_path filename (w_conf w)) (\<lambda>path.
       case strdup path (w_mem w) of (tmp, h) \<Rightarrow>
         if tmp = NULL
         then Error c ERROR_UNDEFINED ''Out of Memory'' (w\<lparr>w_mem := h, w_errno := ENOMEM\<rparr>)
         else and_then (wrq_open c (the (cf_directory (w_conf w))) path (w\<lparr>w_mem := h\<rparr>))
                (free_tmp tmp))))"

subsection \<open>RRQ\<close>

text \<open>
  The option of a read request. \<open>Inl\<close> of the inner result is a \<open>break\<close>: the request ends
  there; \<open>Inr\<close> says whether the size of the file is asked for.
\<close>

definition rrq_option ::
  "client \<Rightarrow> string \<Rightarrow> string option \<Rightarrow> world \<Rightarrow> fault + (bool option) \<times> client \<times> world" where
  "rrq_option c opt optparam w =
     (if strcasecmp opt ''blksize'' = 0 then
        case optparam of
          None \<Rightarrow> Inl Uninitialised_read
        | Some param \<Rightarrow>
          (case strtol param of (blksize, overflow) \<Rightarrow>
            let w1 = w\<lparr>w_errno := (if overflow then ERANGE else 0)\<rparr> in
            if w_errno w1 = ERANGE
            then and_then (Error c ERROR_OPTION
                     (''Invalid block size '' @ param @ '': '' @ w_strerror w1 ERANGE
                        @ '' ('' @ dec_nat ERANGE @ '')'') w1) (\<lambda>r. Inr (None, r))
            else if blksize < 8 \<or> 65464 < blksize
            then and_then (Error c ERROR_OPTION (''Invalid block size '' @ dec_int blksize) w1)
                   (\<lambda>r. Inr (None, r))
            else and_then (OptionAcknowledge c opt param w1) (\<lambda>(c1, w2).
                   Inr (Some False,
                        c1\<lparr>c_sendingfile := 1, c_currentblockno := 0, c_actualblockno := 0,
                           c_blksize := word_of_int blksize\<rparr>, w2)))
      else if strcasecmp opt ''tsize'' = 0 then Inr (Some True, c, w)
      else Inr (Some False, c, w))"

text \<open>
  \<open>tsize\<close>: the old \<open>tmp\<close> is freed, the size is formatted into a new one. A null \<open>tmp\<close>
  would be dereferenced by \<open>OptionAcknowledge\<close>.
\<close>

definition rrq_tsize ::
  "client \<Rightarrow> string \<Rightarrow> addr \<Rightarrow> nat \<Rightarrow> nat \<Rightarrow> world \<Rightarrow> fault + client \<times> world" where
  "rrq_tsize c opt tmp f len w =
     and_then (free tmp (w_mem w)) (\<lambda>h1.
       case strdup (dec_nat len) h1 of (tmp2, h2) \<Rightarrow>
         if tmp2 = NULL then Inl Null_deref
         else and_then (OptionAcknowledge c opt (dec_nat len) (w\<lparr>w_mem := h2\<rparr>)) (\<lambda>(c1, w1).
              and_then (fclose f (w_fs w1)) (\<lambda>fs. free_tmp tmp2 (c1, w1\<lparr>w_fs := fs\<rparr>))))"

text \<open>The first block, read into the array \<open>buf\<close> of 512 bytes.\<close>

definition rrq_send :: "client \<Rightarrow> nat \<Rightarrow> world \<Rightarrow> fault + client \<times> world" where
  "rrq_send c f w =
     (let c1 = c\<lparr>c_f := f\<rparr> in
      if c_sendingfile c1 \<noteq> 0 then Inr (c1, w)
      else let c2 = c1\<lparr>c_sendingfile := 1, c_currentblockno := 1, c_actualblockno := 1\<rparr> in
        and_then (fread 512 f (w_fs w)) (\<lambda>(buf, fs).
          SendData c2 buf (call_event EV_NEWWRITEREQUEST (w\<lparr>w_fs := fs\<rparr>))))"

text \<open>
  Opening and measuring the file. A missing file is reported, and then opened all the
  same; when \<open>fopen\<close> fails \<open>tmp\<close> is not freed.
\<close>

definition rrq_open ::
  "client \<Rightarrow> string \<Rightarrow> bool \<Rightarrow> string \<Rightarrow> addr \<Rightarrow> world \<Rightarrow> fault + client \<times> world" where
  "rrq_open c opt tsize path tmp w =
     and_then (FileExists path (w_errno w, w_fs w)) (\<lambda>(exists, e1, fs1).
     let w1 = w\<lparr>w_errno := e1, w_fs := fs1\<rparr> in
     and_then (if exists then Inr (c, w1)
               else Error c ERROR_NOFILE
                      (''File '' @ path @ '' does not exist on the filesystem.'') w1) (\<lambda>(c1, w2).
     case fopen_read path (w_errno w2, w_fs w2) of (f, e2, fs2) \<Rightarrow>
       let w3 = w2\<lparr>w_errno := e2, w_fs := fs2\<rparr> in
       if f = 0
       then Error c1 ERROR_NOFILE (''Cannot open file: '' @ w_strerror w3 (w_errno w3)) w3
       else and_then (ftell_end f (w_fs w3)) (\<lambda>len.
            and_then (rewind f (w_fs w3)) (\<lambda>fs3.
            let w4 = w3\<lparr>w_fs := fs3\<rparr> in
            if tsize then rrq_tsize c1 opt tmp f len w4
            else and_then (rrq_send c1 f w4) (free_tmp tmp)))))"

definition process_rrq :: "client \<Rightarrow> byte list \<Rightarrow> nat \<Rightarrow> world \<Rightarrow> fault + client \<times> world" where
  "process_rrq c0 buf len w0 =
     and_then (end_resend c0 w0) (\<lambda>(c, w).
     and_then (parse_request buf) (\<lambda>(filename, mode, opt, optparam).
     if strcasecmp mode ''mail'' = 0
     then Error c ERROR_ILLEGAL ''Mail mode not supported by NBSTFTP'' w
     else and_then (rrq_option c opt optparam w) (\<lambda>(r, c1, w1).
       case r of
         None \<Rightarrow> Inr (c1, w1)
       | Some tsize \<Rightarrow>
           and_then (request_path filename (w_conf w1)) (\<lambda>path.
             case strdup path (w_mem w1) of (tmp, h) \<Rightarrow>
               if tmp = NULL then Inl Null_deref
               else rrq_open c1 opt tsize path tmp (w1\<lparr>w_mem := h\<rparr>)))))"

section \<open>ProcessPacket\<close>

definition process_unknown :: "client \<Rightarrow> byte list \<Rightarrow> nat \<Rightarrow> world \<Rightarrow> fault + client \<times> world" where
  "process_unknown c buf len w = Inr (c, call_event EV_UNKNOWN_PACKET w)"

definition ProcessPacket :: "client \<Rightarrow> byte list \<Rightarrow> nat \<Rightarrow> world \<Rightarrow> fault + client \<times> world" where
  "ProcessPacket c buf len w =
     (if MAX_PACKET_SIZE < len then Inr (c, w)
      else and_then (field16 0 buf) (\<lambda>opcode.
        if opcode = PACKET_DATA then process_data c buf len w
        else if opcode = PACKET_ERROR then process_error c buf len w
        else if opcode = PACKET_ACK then process_ack c buf len w
        else if opcode = PACKET_WRQ then process_wrq c buf len w
        else if opcode = PACKET_RRQ then process_rrq c buf len w
        else process_unknown c buf len w))"

end
