(* ===== verification/Packet_Contracts.thy ===== *)
theory Packet_Contracts
  imports Process_Packet
begin

text \<open>
  What \<open>ProcessPacket\<close> does in each of its branches, as contracts: the packets it queues,
  the client and the state it leaves. The contracts are total: under their hypotheses the
  branch returns.
\<close>

section \<open>The invariant of a client between packets\<close>

definition blk_ok :: "client \<Rightarrow> heap \<Rightarrow> bool" where
  "blk_ok c h \<longleftrightarrow> c_blk c = NULL
     \<or> (\<exists>b. blocks h (c_blk c) = Some b \<and> unat (c_blksize c) \<le> length b)
       \<and> (\<forall>pq \<in> set (c_queue c). pq_p pq \<noteq> c_blk c)"

definition client_ok :: "client \<Rightarrow> world \<Rightarrow> bool" where
  "client_ok c w \<longleftrightarrow> queue_ok c w \<and> mem_ok (w_mem w) \<and> plain_marks c \<and> blk_ok c (w_mem w)"

text \<open>
  \<open>handled c w ps cb wb c' w'\<close>: the packets \<open>ps\<close> were added to the queue of \<open>c\<close>, the client
  is \<open>cb\<close> now up to its queue, the state is \<open>wb\<close> up to memory and the multiplexer.
\<close>

definition handled ::
  "client \<Rightarrow> world \<Rightarrow> byte list list \<Rightarrow> client \<Rightarrow> world \<Rightarrow> client \<times> world \<Rightarrow> bool" where
  "handled c w ps cb wb r \<longleftrightarrow> (case r of (c', w') \<Rightarrow>
     client_ok c' w' \<and> queued c' w' = queued c w @ ps \<and> same_client cb c' \<and> same_world wb w')"

lemma client_ok_cong:
  "c_queue c' = c_queue c \<Longrightarrow> c_lastpacket c' = c_lastpacket c \<Longrightarrow> c_blk c' = c_blk c \<Longrightarrow>
   c_blksize c' = c_blksize c \<Longrightarrow> sk_fd (c_s c') = sk_fd (c_s c) \<Longrightarrow> w_mem w' = w_mem w \<Longrightarrow>
   w_mux w' = w_mux w \<Longrightarrow> client_ok c' w' = client_ok c w"
  by (simp add: client_ok_def queue_ok_def plain_marks_def blk_ok_def)

lemma queued_cong: "c_queue c' = c_queue c \<Longrightarrow> w_mem w' = w_mem w \<Longrightarrow> queued c' w' = queued c w"
  by (simp add: queued_def)

lemma client_okD:
  "client_ok c w \<Longrightarrow> queue_ok c w" "client_ok c w \<Longrightarrow> mem_ok (w_mem w)"
  "client_ok c w \<Longrightarrow> heap_wf (w_mem w)" "client_ok c w \<Longrightarrow> pq_allocated (c_lastpacket c) \<noteq> 2"
  by (auto simp: client_ok_def queue_ok_def plain_marks_def)

lemma enqueued_client_ok:
  assumes ok: "client_ok c w" and enq: "enqueued c w ps c' w'"
  shows "client_ok c' w'"
proof -
  have wf: "heap_wf (w_mem w)" and ext: "extends (w_mem w) (w_mem w')"
    using ok enq by (simp_all add: client_okD enqueued_defs)
  have "blk_ok c' (w_mem w')"
  proof (cases "c_blk c = NULL")
    case True
    with enq show ?thesis by (simp add: blk_ok_def enqueued_defs same_defs)
  next
    case False
    with ok obtain b where b: "blocks (w_mem w) (c_blk c) = Some b" "unat (c_blksize c) \<le> length b"
        "\<forall>pq \<in> set (c_queue c). pq_p pq \<noteq> c_blk c"
      by (auto simp: client_ok_def blk_ok_def)
    have "\<forall>pq \<in> set (c_queue c'). pq_p pq \<noteq> c_blk c"
      using enq b(3) heap_wf_live [OF wf b(1)] by (fastforce simp: enqueued_defs)
    with enq b extends_live [OF wf ext b(1)] show ?thesis
      by (simp add: blk_ok_def enqueued_defs same_defs)
  qed
  with ok enq extends_mem_ok [OF ext] show ?thesis
    by (simp add: client_ok_def enqueued_defs)
qed

lemma enqueued_handled:
  assumes "client_ok cb wb" "queued cb wb = queued c w" "enqueued cb wb ps c' w'"
  shows "handled c w ps cb wb (c', w')"
  using enqueued_client_ok [OF assms(1,3)] assms(2,3)
  by (simp add: handled_def enqueued_defs)

lemma total_handled:
  assumes "total (\<lambda>(c', w'). enqueued cb wb ps c' w') m" "client_ok cb wb"
    "queued cb wb = queued c w"
  shows "total (handled c w ps cb wb) m"
  using assms(1) enqueued_handled [OF assms(2,3)] by (auto elim!: sat_mono)

text \<open>The builders, as total operations on a client in order.\<close>

lemma total_enqueued:
  assumes "sat (\<lambda>_. \<not> mem_ok (w_mem w)) P m" "client_ok c w"
  shows "total P m"
  using assms by (auto dest: client_okD intro: sat_weaken_fault)

lemma SendData_total:
  "client_ok c w \<Longrightarrow> total (\<lambda>(c', w'). enqueued c w [data_packet (c_currentblockno c) d] c' w') (SendData c d w)"
  by (blast intro: total_enqueued SendData_sat client_okD)

lemma Acknowledge_total:
  "client_ok c w \<Longrightarrow> total (\<lambda>(c', w'). enqueued c w [ack_packet b] c' w') (Acknowledge c b w)"
  by (blast intro: total_enqueued Acknowledge_sat client_okD)

lemma OptionAcknowledge_total:
  "client_ok c w \<Longrightarrow>
     total (\<lambda>(c', w'). enqueued c w [oack_packet opt v] c' w') (OptionAcknowledge c opt v w)"
  by (blast intro: total_enqueued OptionAcknowledge_sat client_okD)

lemma Error_total:
  "client_ok c w \<Longrightarrow> length m + 4 \<le> MAX_PACKET_SIZE \<Longrightarrow>
     total (\<lambda>(c', w'). enqueued (c\<lparr>c_destroy := 1\<rparr>) w [error_packet e m] c' w') (Error c e m w)"
  by (blast intro: Error_sat client_okD)

lemma end_resend_plain:
  "client_ok c w \<Longrightarrow> end_resend c w = Inr (c\<lparr>c_waiting := 0\<rparr>, w)"
  by (simp add: end_resend_def client_okD)

section \<open>DATA, ERROR, ACK, unknown\<close>

lemma payload_len:
  assumes "4 \<le> len" "len \<le> MAX_PACKET_SIZE"
  shows "payload_len len = len - 4"
proof -
  have "(word_of_nat len - word_of_nat sizeof_packet :: 64 word) = word_of_nat (len - 4)"
    using assms(1) by (simp add: sizeof_packet_def)
  moreover have "len - 4 < 2 ^ LENGTH(64)"
    using assms(2) by (simp add: MAX_PACKET_SIZE_def)
  ultimately show ?thesis
    by (simp add: payload_len_def unat_of_nat)
qed

text \<open>With fewer than four bytes the difference wraps around.\<close>

lemma payload_len_short:
  assumes "len < 4"
  shows "payload_len len = 2 ^ 64 + len - 4"
proof -
  have "len = 0 \<or> len = 1 \<or> len = 2 \<or> len = 3" using assms by auto
  then show ?thesis
    by (auto simp: payload_len_def sizeof_packet_def unsigned_minus_1_eq_mask mask_eq_exp_minus_1)
qed

lemma handled_destroy:
  assumes "handled c w ps cb wb (c', w')"
  shows "handled c w ps (cb\<lparr>c_destroy := d\<rparr>) wb (c'\<lparr>c_destroy := d\<rparr>, w')"
proof -
  have "same_client cb c' \<Longrightarrow> same_client (cb\<lparr>c_destroy := d\<rparr>) (c'\<lparr>c_destroy := d\<rparr>)"
    by (simp add: same_client_def)
  moreover have "client_ok (c'\<lparr>c_destroy := d\<rparr>) w' = client_ok c' w'"
      "queued (c'\<lparr>c_destroy := d\<rparr>) w' = queued c' w'"
    by (rule client_ok_cong queued_cong; simp)+
  ultimately show ?thesis
    using assms by (simp add: handled_def)
qed

lemma process_data_sat:
  assumes ok: "client_ok c w" and sending: "c_sendingfile c \<noteq> 0"
    and len: "4 \<le> len" "len \<le> MAX_PACKET_SIZE" "len \<le> length buf"
    and bn: "field16 2 buf = Inr b"
    and wr: "fwrite (take (len - 4) (drop 4 buf)) (c_f c) (w_fs w) = Inr (n, fs)"
  shows "total (handled c w [ack_packet b]
      (c\<lparr>c_waiting := 0, c_currentblockno := c_currentblockno c + 1,
         c_actualblockno := c_actualblockno c + 1,
         c_destroy := (if len < 516 then 1 else c_destroy c)\<rparr>)
      ((call_event EV_DATA_PACKET w)\<lparr>w_fs := fs\<rparr>)) (process_data c buf len w)"
proof -
  let ?c = "c\<lparr>c_waiting := 0, c_currentblockno := c_currentblockno c + 1,
         c_actualblockno := c_actualblockno c + 1\<rparr>"
  let ?w = "(call_event EV_DATA_PACKET w)\<lparr>w_fs := fs\<rparr>"
  have okb: "client_ok ?c ?w"
    using ok by (subst client_ok_cong) simp_all
  obtain c3 w3 where ack: "Acknowledge ?c b ?w = Inr (c3, w3)" "enqueued ?c ?w [ack_packet b] c3 w3"
    using Acknowledge_total [OF okb, of b] by (auto simp: total_ex)
  have h: "handled c w [ack_packet b] ?c ?w (c3, w3)"
    by (rule enqueued_handled [OF okb _ ack(2)]) (simp add: queued_def)
  have "process_data c buf len w
      = Inr (if len - 4 < 512 then c3\<lparr>c_destroy := 1\<rparr> else c3, w3)"
    using len wr bn ack(1) sending
    by (simp add: process_data_def end_resend_plain [OF ok] Let_def payload_len sizeof_packet_def)
  moreover have "len - 4 < 512 \<longleftrightarrow> len < 516"
    using len by (auto simp: MAX_PACKET_SIZE_def)
  moreover have "c3\<lparr>c_destroy := c_destroy c\<rparr> = c3"
    using ack(2) by (simp add: enqueued_defs same_defs)
  ultimately show ?thesis
    using handled_destroy [OF h, of 1] h by (simp split: if_splits)
qed

text \<open>A DATA packet for a client that has no transfer going is ignored.\<close>

lemma process_data_idle:
  "client_ok c w \<Longrightarrow> c_sendingfile c = 0 \<Longrightarrow>
     process_data c buf len w = Inr (c\<lparr>c_waiting := 0\<rparr>, call_event EV_DATA_PACKET w)"
  by (simp add: process_data_def end_resend_plain Let_def)

text \<open>
  An ACK without a transfer is ignored too; during one, the next block of the file is sent,
  and a block shorter than the block size is the last.
\<close>

lemma process_ack_idle:
  "client_ok c w \<Longrightarrow> c_sendingfile c = 0 \<Longrightarrow>
     process_ack c buf len w = Inr (c\<lparr>c_waiting := 0\<rparr>, call_event EV_ACK_PACKET w)"
  by (simp add: process_ack_def end_resend_plain Let_def)

lemma process_error_sat:
  assumes ok: "client_ok c w" and parsed: "GetNext buf 4 512 = Inr (msg, off)"
  shows "total (handled c w [ack_packet 1] (c\<lparr>c_waiting := 0, c_destroy := 1\<rparr>)
      (call_event EV_ERROR_PACKET w)) (process_error c buf len w)"
proof -
  let ?c = "c\<lparr>c_waiting := 0\<rparr>" and ?w = "call_event EV_ERROR_PACKET w"
  have okb: "client_ok ?c ?w"
    using ok by (subst client_ok_cong) simp_all
  obtain c3 w3 where ack: "Acknowledge ?c 1 ?w = Inr (c3, w3)" "enqueued ?c ?w [ack_packet 1] c3 w3"
    using Acknowledge_total [OF okb, of 1] by (auto simp: total_ex)
  have "handled c w [ack_packet 1] ?c ?w (c3, w3)"
    by (rule enqueued_handled [OF okb _ ack(2)]) (simp add: queued_def)
  from handled_destroy [OF this, of 1] show ?thesis
    using parsed ack(1) by (simp add: process_error_def end_resend_plain [OF ok] sizeof_packet_def)
qed

text \<open>
  The block buffer: fresh or reused, it takes a block without touching the queue.
\<close>

lemma fill_block:
  assumes "p \<noteq> NULL" "blocks h p = Some b" "n \<le> length b" "length bs \<le> n"
  shows "\<exists>h2 b'. memset p NUL n h = Inr h2
    \<and> store p 0 bs h2 = Inr (h\<lparr>blocks := (blocks h)(p \<mapsto> b')\<rparr>)
    \<and> load p 0 (length bs) (h\<lparr>blocks := (blocks h)(p \<mapsto> b')\<rparr>) = Inr bs \<and> length b' = length b"
proof -
  let ?b = "bs @ replicate (n - length bs) NUL @ drop n b"
  have "length ?b = length b" using assms(3,4) by simp
  with assms show ?thesis
    by (intro exI [of _ "h\<lparr>blocks := (blocks h)(p \<mapsto> replicate n NUL @ drop n b)\<rparr>"] exI [of _ ?b])
      (simp add: memset_def store_def load_def)
qed

lemma client_ok_blk:
  assumes ok: "client_ok c w" and wf: "heap_wf h" and ooms: "oom h = oom (w_mem w)"
    and same: "\<And>pq. pq \<in> set (c_queue c) \<Longrightarrow> pq_p pq \<noteq> p \<and> blocks h (pq_p pq) = blocks (w_mem w) (pq_p pq)"
    and b: "blocks h p = Some b" "unat (c_blksize c) \<le> length b"
  shows "client_ok (c\<lparr>c_blk := p\<rparr>) (w\<lparr>w_mem := h\<rparr>)
    \<and> queued (c\<lparr>c_blk := p\<rparr>) (w\<lparr>w_mem := h\<rparr>) = queued c w"
proof -
  have "pq_live h pq = pq_live (w_mem w) pq" "pq_bytes h pq = pq_bytes (w_mem w) pq"
    if "pq \<in> set (c_queue c)" for pq
    using same [OF that] by (simp_all add: pq_live_def pq_bytes_def)
  then show ?thesis
    using ok wf b same ooms
    by (auto simp: client_ok_def queue_ok_def plain_marks_def blk_ok_def mem_ok_def queued_def)
qed

lemma blk_prepare:
  assumes ok: "client_ok c w" and bs: "length bs \<le> unat (c_blksize c)" "0 < unat (c_blksize c)"
  shows "\<exists>blk h1 h2 h3.
    (if c_blk c = NULL then nmalloc (unat (c_blksize c)) (w_mem w) else Inr (c_blk c, w_mem w)) = Inr (blk, h1)
    \<and> memset blk NUL (unat (c_blksize c)) h1 = Inr h2 \<and> store blk 0 bs h2 = Inr h3
    \<and> load blk 0 (length bs) h3 = Inr bs
    \<and> client_ok (c\<lparr>c_blk := blk\<rparr>) (w\<lparr>w_mem := h3\<rparr>)
    \<and> queued (c\<lparr>c_blk := blk\<rparr>) (w\<lparr>w_mem := h3\<rparr>) = queued c w"
proof (cases "c_blk c = NULL")
  case True
  let ?h = "w_mem w" and ?n = "unat (c_blksize c)"
  let ?h1 = "?h\<lparr>blocks := (blocks ?h)(brk ?h \<mapsto> replicate ?n NUL), brk := Suc (brk ?h)\<rparr>"
  have wf: "heap_wf ?h" and mem: "mem_ok ?h" using ok by (simp_all add: client_okD)
  have nm: "nmalloc ?n ?h = Inr (brk ?h, ?h1)"
    using mem bs(2) by (simp add: nmalloc_eq heap_wf_brk [OF wf] mem_ok_def)
  obtain h2 b' where f: "memset (brk ?h) NUL ?n ?h1 = Inr h2"
      "store (brk ?h) 0 bs h2 = Inr (?h1\<lparr>blocks := (blocks ?h1)(brk ?h \<mapsto> b')\<rparr>)"
      "load (brk ?h) 0 (length bs) (?h1\<lparr>blocks := (blocks ?h1)(brk ?h \<mapsto> b')\<rparr>) = Inr bs"
      "length b' = ?n"
    using fill_block [of "brk ?h" ?h1 "replicate ?n NUL" ?n bs] heap_wf_brk [OF wf] bs(1) by auto
  have "client_ok (c\<lparr>c_blk := brk ?h\<rparr>) (w\<lparr>w_mem := ?h1\<lparr>blocks := (blocks ?h1)(brk ?h \<mapsto> b')\<rparr>\<rparr>)
    \<and> queued (c\<lparr>c_blk := brk ?h\<rparr>) (w\<lparr>w_mem := ?h1\<lparr>blocks := (blocks ?h1)(brk ?h \<mapsto> b')\<rparr>\<rparr>) = queued c w"
  proof (rule client_ok_blk [OF ok, where b = b'])
    show "heap_wf (?h1\<lparr>blocks := (blocks ?h1)(brk ?h \<mapsto> b')\<rparr>)"
      using wf by (auto simp: heap_wf_def)
    show "pq_p pq \<noteq> brk ?h \<and> blocks (?h1\<lparr>blocks := (blocks ?h1)(brk ?h \<mapsto> b')\<rparr>) (pq_p pq)
        = blocks ?h (pq_p pq)" if "pq \<in> set (c_queue c)" for pq
      using queue_ok_addr [OF client_okD(1) [OF ok] that] by simp
  qed (use f(4) in simp_all)
  with True nm f show ?thesis by auto
next
  case False
  let ?h = "w_mem w" and ?n = "unat (c_blksize c)" and ?p = "c_blk c"
  have wf: "heap_wf ?h" using ok by (simp add: client_okD)
  obtain b where b: "blocks ?h ?p = Some b" "?n \<le> length b"
      "\<forall>pq \<in> set (c_queue c). pq_p pq \<noteq> ?p"
    using ok False by (auto simp: client_ok_def blk_ok_def)
  obtain h2 b' where f: "memset ?p NUL ?n ?h = Inr h2"
      "store ?p 0 bs h2 = Inr (?h\<lparr>blocks := (blocks ?h)(?p \<mapsto> b')\<rparr>)"
      "load ?p 0 (length bs) (?h\<lparr>blocks := (blocks ?h)(?p \<mapsto> b')\<rparr>) = Inr bs"
      "length b' = length b"
    using fill_block [OF False b(1,2) bs(1)] by blast
  have "client_ok (c\<lparr>c_blk := ?p\<rparr>) (w\<lparr>w_mem := ?h\<lparr>blocks := (blocks ?h)(?p \<mapsto> b')\<rparr>\<rparr>)
    \<and> queued (c\<lparr>c_blk := ?p\<rparr>) (w\<lparr>w_mem := ?h\<lparr>blocks := (blocks ?h)(?p \<mapsto> b')\<rparr>\<rparr>) = queued c w"
  proof (rule client_ok_blk [OF ok, where b = b'])
    show "heap_wf (?h\<lparr>blocks := (blocks ?h)(?p \<mapsto> b')\<rparr>)"
      using wf b(1) by (auto simp: heap_wf_def)
    show "pq_p pq \<noteq> ?p \<and> blocks (?h\<lparr>blocks := (blocks ?h)(?p \<mapsto> b')\<rparr>) (pq_p pq)
        = blocks ?h (pq_p pq)" if "pq \<in> set (c_queue c)" for pq
      using b(3) that by simp
  qed (use b f(4) in simp_all)
  with False f show ?thesis by auto
qed

lemma process_ack_sat:
  assumes ok: "client_ok c w" and sending: "c_sendingfile c \<noteq> 0" and size: "0 < unat (c_blksize c)"
    and rd: "fread (unat (c_blksize c)) (c_f c) (w_fs w) = Inr (bs, fs)"
  shows "total (\<lambda>r. \<exists>blk. handled c w [data_packet (c_currentblockno c + 1) bs]
      (c\<lparr>c_waiting := 0, c_blk := blk, c_currentblockno := c_currentblockno c + 1,
         c_actualblockno := c_actualblockno c + 1,
         c_destroy := (if length bs < unat (c_blksize c) then 1 else c_destroy c)\<rparr>)
      ((call_event EV_ACK_PACKET w)\<lparr>w_fs := fs\<rparr>) r) (process_ack c buf len w)"
proof -
  let ?n = "unat (c_blksize c)"
  let ?w = "(call_event EV_ACK_PACKET w)\<lparr>w_fs := fs\<rparr>"
  let ?w3m = "\<lambda>h. (call_event EV_ACK_PACKET w)\<lparr>w_mem := h, w_fs := fs\<rparr>"
  have le: "length bs \<le> ?n" using fread_frame [OF rd] by simp
  obtain blk h1 h2 h3 where p:
    "(if c_blk c = NULL then nmalloc ?n (w_mem w) else Inr (c_blk c, w_mem w)) = Inr (blk, h1)"
    "memset blk NUL ?n h1 = Inr h2" "store blk 0 bs h2 = Inr h3" "load blk 0 (length bs) h3 = Inr bs"
    "client_ok (c\<lparr>c_blk := blk\<rparr>) (w\<lparr>w_mem := h3\<rparr>)"
    "queued (c\<lparr>c_blk := blk\<rparr>) (w\<lparr>w_mem := h3\<rparr>) = queued c w"
    using blk_prepare [OF ok le size] by blast
  let ?c = "c\<lparr>c_waiting := 0, c_blk := blk, c_currentblockno := c_currentblockno c + 1,
         c_actualblockno := c_actualblockno c + 1\<rparr>"
  have okb: "client_ok ?c (?w3m h3)"
    using p(5) by (subst client_ok_cong [where c = "c\<lparr>c_blk := blk\<rparr>" and w = "w\<lparr>w_mem := h3\<rparr>"]) simp_all
  have qb: "queued ?c (?w3m h3) = queued c w"
    using p(6) by (simp add: queued_def)
  obtain c3 w3 where sd: "SendData ?c bs (?w3m h3) = Inr (c3, w3)"
      "enqueued ?c (?w3m h3) [data_packet (c_currentblockno c + 1) bs] c3 w3"
    using SendData_total [OF okb, of bs] by (auto simp: total_ex)
  have h: "handled c w [data_packet (c_currentblockno c + 1) bs] ?c (?w3m h3) (c3, w3)"
    by (rule enqueued_handled [OF okb qb sd(2)])
  then have h: "handled c w [data_packet (c_currentblockno c + 1) bs] ?c ?w (c3, w3)"
    by (simp add: handled_def same_world_def)
  have run: "process_ack c buf len w = Inr (if length bs < ?n then c3\<lparr>c_destroy := 1\<rparr> else c3, w3)"
    using sending p(1-4) rd sd(1) le
    by (simp add: process_ack_def end_resend_plain [OF ok] Let_def min_def split del: if_split)
      (auto)
  show ?thesis
  proof (cases "length bs < ?n")
    case True
    with run handled_destroy [OF h, of 1] show ?thesis by auto
  next
    case False
    with run h show ?thesis by auto
  qed
qed

section \<open>Parsing requests\<close>

text \<open>
  The strings of a request are those of the packet, option or not; and in a buffer that
  is zero behind the packet parsing never leaves it.
\<close>

lemma drop_cstr: "drop off buf = s @ NUL # t \<Longrightarrow> drop (off + length s + 1) buf = t"
  using drop_drop [of "length s + 1" off buf] by (simp add: add.commute add.left_commute)

lemma parse_request_option:
  assumes buf: "drop 2 buf = fn @ NUL # mode @ NUL # opt @ NUL # param @ NUL # rest"
    and c: "cstring fn" "cstring mode" "cstring opt" "cstring param" and opt: "opt \<noteq> []"
  shows "parse_request buf = Inr (fn, mode, opt, Some param)"
proof -
  let ?m = "length buf - 2"
  have m: "length fn < ?m" "length mode < ?m" "length opt < ?m" "length param < ?m"
    using arg_cong [OF buf, of length] by simp_all
  note d1 = drop_cstr [OF buf]
  note d2 = drop_cstr [OF d1]
  note d3 = drop_cstr [OF d2]
  show ?thesis
    unfolding parse_request_def Let_def
      GetNext_at [OF buf c(1) m(1)] GetNext_at [OF d1 c(2) m(2)] GetNext_at [OF d2 c(3) m(3)]
      GetNext_at [OF d3 c(4) m(4)] and_then.simps prod.case
    using opt by simp
qed

lemma parse_request_plain:
  assumes buf: "drop 2 buf = fn @ NUL # mode @ NUL # NUL # rest"
    and c: "cstring fn" "cstring mode"
  shows "parse_request buf = Inr (fn, mode, [], None)"
proof -
  let ?m = "length buf - 2"
  have m: "length fn < ?m" "length mode < ?m" "length [] < ?m"
    using arg_cong [OF buf, of length] by simp_all
  note d1 = drop_cstr [OF buf]
  have d2: "drop (2 + length fn + 1 + length mode + 1) buf = [] @ NUL # rest"
    using drop_cstr [OF d1] by simp
  show ?thesis
    unfolding parse_request_def Let_def
      GetNext_at [OF buf c(1) m(1)] GetNext_at [OF d1 c(2) m(2)] GetNext_at [OF d2 cstring_simps(1) m(3)]
      and_then.simps prod.case
    by simp
qed

lemma parse_request_safe:
  assumes tail: "\<And>i. n \<le> i \<Longrightarrow> i < length buf \<Longrightarrow> buf ! i = NUL" and len: "n + 6 \<le> length buf"
  shows "\<exists>r. parse_request buf = Inr r"
proof -
  let ?m = "length buf - 2"
  have next_at: "\<exists>s. GetNext buf off ?m = Inr (s, off + length s + 1) \<and> off + length s \<le> max off n"
    if "off < length buf" for off
    by (rule GetNext_zero_tail [OF tail that]) (use len in simp_all)
  obtain s1 where 1: "GetNext buf 2 ?m = Inr (s1, 2 + length s1 + 1)" "2 + length s1 \<le> max 2 n"
    using next_at [of 2] len by auto
  let ?o1 = "2 + length s1 + 1"
  have o1: "?o1 \<le> n + 3"
    using 1(2) by (simp add: max_def split: if_splits)
  obtain s2 where 2: "GetNext buf ?o1 ?m = Inr (s2, ?o1 + length s2 + 1)"
      "?o1 + length s2 \<le> max ?o1 n"
    using next_at [of ?o1] o1 len by auto
  let ?o2 = "?o1 + length s2 + 1"
  have o2: "?o2 \<le> n + 4"
    using 2(2) o1 by (simp add: max_def split: if_splits)
  obtain s3 where 3: "GetNext buf ?o2 ?m = Inr (s3, ?o2 + length s3 + 1)"
      "?o2 + length s3 \<le> max ?o2 n"
    using next_at [of ?o2] o2 len by auto
  let ?o3 = "?o2 + length s3 + 1"
  have o3: "?o3 \<le> n + 5"
    using 3(2) o2 by (simp add: max_def split: if_splits)
  obtain s4 where "GetNext buf ?o3 ?m = Inr (s4, ?o3 + length s4 + 1)"
    using next_at [of ?o3] o3 len by auto
  with 1 2 3 show ?thesis
    by (simp add: parse_request_def Let_def)
qed

section \<open>Write requests\<close>

lemma free_tmp_total:
  assumes "client_ok cb wb"
    and "total (\<lambda>(c', w'). enqueued cb (wb\<lparr>w_mem := with_str s (w_mem wb)\<rparr>) ps c' w') m"
  shows "total (\<lambda>(c', w'). enqueued cb wb ps c' w') (and_then m (free_tmp (brk (w_mem wb))))"
proof -
  obtain c' w' where m: "m = Inr (c', w')"
      and enq: "enqueued cb (wb\<lparr>w_mem := with_str s (w_mem wb)\<rparr>) ps c' w'"
    using assms(2) by (auto simp: total_ex)
  from free_temp_enqueued [OF client_okD(1) [OF assms(1)] enq] m show ?thesis
    by (auto simp: free_tmp_def)
qed

lemma free_tmp_handled:
  assumes "client_ok cb wb" "queued cb wb = queued c w"
    and "total (\<lambda>(c', w'). enqueued cb (wb\<lparr>w_mem := with_str s (w_mem wb)\<rparr>) ps c' w') m"
  shows "total (handled c w ps cb wb) (and_then m (free_tmp (brk (w_mem wb))))"
  by (rule total_handled [OF free_tmp_total [OF assms(1,3)] assms(1,2)])

lemma client_ok_with_str:
  assumes "client_ok c w"
  shows "client_ok c (w\<lparr>w_mem := with_str s (w_mem w)\<rparr>)"
proof -
  have wf: "heap_wf (w_mem w)" using assms by (simp add: client_okD)
  have "blk_ok c (with_str s (w_mem w))"
    using assms extends_live [OF wf with_str_wf(2), of "c_blk c"]
    by (auto simp: client_ok_def blk_ok_def)
  with assms queue_ok_with_str(1) [of c w "w\<lparr>w_mem := with_str s (w_mem w)\<rparr>" s] show ?thesis
    by (simp add: client_ok_def with_str_wf)
qed

text \<open>The mail mode is refused by both requests.\<close>

lemma Error_handled:
  assumes "client_ok cb wb" "queued cb wb = queued c w" "length m + 4 \<le> MAX_PACKET_SIZE"
  shows "total (handled c w [error_packet e m] (cb\<lparr>c_destroy := 1\<rparr>) wb) (Error cb e m wb)"
proof (rule total_handled [OF Error_total [OF assms(1,3)]])
  show "client_ok (cb\<lparr>c_destroy := 1\<rparr>) wb"
    using assms(1) by (subst client_ok_cong) simp_all
  show "queued (cb\<lparr>c_destroy := 1\<rparr>) wb = queued c w"
    using assms(2) by (simp add: queued_def)
qed

lemma client_ok_waiting: "client_ok c w \<Longrightarrow> client_ok (c\<lparr>c_waiting := 0\<rparr>) w"
  by (subst client_ok_cong) simp_all

lemma process_wrq_mail:
  assumes ok: "client_ok c w" and parsed: "parse_request buf = Inr (fn, mode, opt, param)"
    and mail: "strcasecmp mode ''mail'' = 0"
  shows "total (handled c w [error_packet ERROR_ILLEGAL ''Mail mode not supported by NBSTFTP'']
      (c\<lparr>c_waiting := 0, c_destroy := 1\<rparr>) w) (process_wrq c buf len w)"
  using Error_handled [OF client_ok_waiting [OF ok], of c w
      "''Mail mode not supported by NBSTFTP''" ERROR_ILLEGAL] parsed mail
  by (simp add: process_wrq_def end_resend_plain [OF ok] MAX_PACKET_SIZE_def queued_def)

lemma process_rrq_mail:
  assumes ok: "client_ok c w" and parsed: "parse_request buf = Inr (fn, mode, opt, param)"
    and mail: "strcasecmp mode ''mail'' = 0"
  shows "total (handled c w [error_packet ERROR_ILLEGAL ''Mail mode not supported by NBSTFTP'']
      (c\<lparr>c_waiting := 0, c_destroy := 1\<rparr>) w) (process_rrq c buf len w)"
  using Error_handled [OF client_ok_waiting [OF ok], of c w
      "''Mail mode not supported by NBSTFTP''" ERROR_ILLEGAL] parsed mail
  by (simp add: process_rrq_def end_resend_plain [OF ok] MAX_PACKET_SIZE_def queued_def)

text \<open>A request that passed the mode check, with its path in a temporary string.\<close>

lemma process_wrq_path:
  assumes ok: "client_ok c w" and parsed: "parse_request buf = Inr (fn, mode, opt, param)"
    and mode: "strcasecmp mode ''mail'' \<noteq> 0" and dir: "cf_directory (w_conf w) = Some dir"
    and path: "request_path fn (w_conf w) = Inr path"
  shows "process_wrq c buf len w
    = and_then (wrq_open (c\<lparr>c_waiting := 0\<rparr>) dir path (w\<lparr>w_mem := with_str path (w_mem w)\<rparr>))
        (free_tmp (brk (w_mem w)))"
proof -
  have "strdup path (w_mem w) = (brk (w_mem w), with_str path (w_mem w))"
    by (rule strdup_with_str) (use ok in \<open>simp_all add: client_okD\<close>)
  moreover have "brk (w_mem w) \<noteq> NULL"
    using heap_wf_brk [OF client_okD(3) [OF ok]] by simp
  ultimately show ?thesis
    using parsed mode dir path by (simp add: process_wrq_def end_resend_plain [OF ok])
qed

lemma process_wrq_ok:
  assumes ok: "client_ok c w" and parsed: "parse_request buf = Inr (fn, mode, opt, param)"
    and mode: "strcasecmp mode ''mail'' \<noteq> 0" and dir: "cf_directory (w_conf w) = Some dir"
    and path: "request_path fn (w_conf w) = Inr path"
    and access: "e = access_errno path dir (w_fs w)" "e \<noteq> EACCES"
    and opened: "fopen_write path (if e \<noteq> 0 then e else w_errno w, w_fs w) = (f, e', fs)" "f \<noteq> 0"
  shows "total (handled c w [ack_packet 0]
      (c\<lparr>c_waiting := 0, c_f := f, c_currentblockno := 1, c_actualblockno := 1, c_sendingfile := 1\<rparr>)
      (call_event EV_NEWWRITEREQUEST (w\<lparr>w_errno := e', w_fs := fs\<rparr>))) (process_wrq c buf len w)"
proof -
  let ?c = "c\<lparr>c_waiting := 0, c_f := f, c_currentblockno := 1, c_actualblockno := 1, c_sendingfile := 1\<rparr>"
  let ?w = "call_event EV_NEWWRITEREQUEST (w\<lparr>w_errno := e', w_fs := fs\<rparr>)"
  let ?ws = "?w\<lparr>w_mem := with_str path (w_mem ?w)\<rparr>"
  have okb: "client_ok ?c ?w"
    using ok by (subst client_ok_cong) simp_all
  have "wrq_open (c\<lparr>c_waiting := 0\<rparr>) dir path (w\<lparr>w_mem := with_str path (w_mem w)\<rparr>)
      = Acknowledge ?c 0 ?ws"
    using access opened by (cases "e = 0") (simp_all add: wrq_open_def Let_def call_event_def mem_last)
  then have "process_wrq c buf len w = and_then (Acknowledge ?c 0 ?ws) (free_tmp (brk (w_mem ?w)))"
    by (simp add: process_wrq_path [OF ok parsed mode dir path])
  moreover have "total (handled c w [ack_packet 0] ?c ?w)
      (and_then (Acknowledge ?c 0 ?ws) (free_tmp (brk (w_mem ?w))))"
    by (rule free_tmp_handled [OF okb _ Acknowledge_total [OF client_ok_with_str [OF okb]]])
      (simp add: queued_def)
  ultimately show ?thesis by (simp only:)
qed

text \<open>
  A write request that may not write is answered with the error, whether \<open>access\<close> or
  \<open>fopen\<close> refuses it.
\<close>

lemma Error_tmp_handled:
  assumes ok: "client_ok cb wb" and q: "queued cb wb = queued c w"
    and len: "length m + 4 \<le> MAX_PACKET_SIZE"
  shows "total (handled c w [error_packet e m] (cb\<lparr>c_destroy := 1\<rparr>) wb)
      (and_then (Error cb e m (wb\<lparr>w_mem := with_str s (w_mem wb)\<rparr>)) (free_tmp (brk (w_mem wb))))"
proof (rule free_tmp_handled)
  show "client_ok (cb\<lparr>c_destroy := 1\<rparr>) wb"
    using ok by (subst client_ok_cong) simp_all
  show "queued (cb\<lparr>c_destroy := 1\<rparr>) wb = queued c w"
    using q by (simp add: queued_def)
  show "total (\<lambda>(c', w'). enqueued (cb\<lparr>c_destroy := 1\<rparr>) (wb\<lparr>w_mem := with_str s (w_mem wb)\<rparr>)
      [error_packet e m] c' w') (Error cb e m (wb\<lparr>w_mem := with_str s (w_mem wb)\<rparr>))"
    by (rule Error_total [OF client_ok_with_str [OF ok] len])
qed

lemma process_wrq_refused:
  assumes ok: "client_ok c w" and parsed: "parse_request buf = Inr (fn, mode, opt, param)"
    and mode: "strcasecmp mode ''mail'' \<noteq> 0" and dir: "cf_directory (w_conf w) = Some dir"
    and path: "request_path fn (w_conf w) = Inr path"
    and e: "e = access_errno path dir (w_fs w)"
    and len: "\<And>n. length (w_strerror w n) \<le> 400"
  shows "e = EACCES \<Longrightarrow> total (handled c w
        [error_packet ERROR_NOUSER (''Cannot access file: '' @ w_strerror w EACCES)]
        (c\<lparr>c_waiting := 0, c_destroy := 1\<rparr>) (w\<lparr>w_errno := EACCES\<rparr>)) (process_wrq c buf len w)"
    and "e \<noteq> EACCES \<Longrightarrow>
      fopen_write path (if e \<noteq> 0 then e else w_errno w, w_fs w) = (0, e', fs) \<Longrightarrow> total (handled c w
        [error_packet ERROR_NOFILE (''Cannot write file: '' @ w_strerror w e')]
        (c\<lparr>c_waiting := 0, c_destroy := 1\<rparr>) (w\<lparr>w_errno := e', w_fs := fs\<rparr>)) (process_wrq c buf len w)"
proof -
  let ?c = "c\<lparr>c_waiting := 0\<rparr>"
  let ?tmp = "\<lambda>w'. w'\<lparr>w_mem := with_str path (w_mem w')\<rparr>"
  have okb: "client_ok ?c w'" "queued ?c w' = queued c w" if "w_mem w' = w_mem w" "w_mux w' = w_mux w" for w'
    using ok that by (auto simp: queued_def client_ok_def queue_ok_def plain_marks_def blk_ok_def)
  {
    let ?w = "w\<lparr>w_errno := EACCES\<rparr>"
    assume "e = EACCES"
    then have "wrq_open ?c dir path (w\<lparr>w_mem := with_str path (w_mem w)\<rparr>)
        = Error ?c ERROR_NOUSER (''Cannot access file: '' @ w_strerror w EACCES) (?tmp ?w)"
      using e by (simp add: wrq_open_def Let_def mem_last EACCES_def)
    then have "process_wrq c buf len w = and_then (Error ?c ERROR_NOUSER
        (''Cannot access file: '' @ w_strerror w EACCES) (?tmp ?w)) (free_tmp (brk (w_mem ?w)))"
      by (simp add: process_wrq_path [OF ok parsed mode dir path])
    then show "total (handled c w
        [error_packet ERROR_NOUSER (''Cannot access file: '' @ w_strerror w EACCES)]
        (c\<lparr>c_waiting := 0, c_destroy := 1\<rparr>) ?w) (process_wrq c buf len w)"
      using Error_tmp_handled [OF okb(1) [of ?w] okb(2) [of ?w],
        of "''Cannot access file: '' @ w_strerror w EACCES" ERROR_NOUSER path] len [of EACCES]
      by (simp add: MAX_PACKET_SIZE_def del: sat_and_then)
  next
    let ?w = "w\<lparr>w_errno := e', w_fs := fs\<rparr>"
    assume *: "e \<noteq> EACCES"
      "fopen_write path (if e \<noteq> 0 then e else w_errno w, w_fs w) = (0, e', fs)"
    then have "wrq_open ?c dir path (w\<lparr>w_mem := with_str path (w_mem w)\<rparr>)
        = Error ?c ERROR_NOFILE (''Cannot write file: '' @ w_strerror w e') (?tmp ?w)"
      using e by (cases "e = 0") (simp_all add: wrq_open_def Let_def mem_last)
    then have "process_wrq c buf len w = and_then (Error ?c ERROR_NOFILE
        (''Cannot write file: '' @ w_strerror w e') (?tmp ?w)) (free_tmp (brk (w_mem ?w)))"
      by (simp add: process_wrq_path [OF ok parsed mode dir path])
    then show "total (handled c w
        [error_packet ERROR_NOFILE (''Cannot write file: '' @ w_strerror w e')]
        (c\<lparr>c_waiting := 0, c_destroy := 1\<rparr>) ?w) (process_wrq c buf len w)"
      using Error_tmp_handled [OF okb(1) [of ?w] okb(2) [of ?w],
        of "''Cannot write file: '' @ w_strerror w e'" ERROR_NOFILE path] len [of e']
      by (simp add: MAX_PACKET_SIZE_def del: sat_and_then)
  }
qed

end
