(* ===== verification/Read_Contracts.thy ===== *)
theory Read_Contracts
  imports Packet_Contracts
begin

text \<open>
  The contracts of the read request of src/src/process.c: the plain transfer, the options
  \<open>blksize\<close> and \<open>tsize\<close>, the refusals.
\<close>

section \<open>Composing contracts\<close>

lemma same_client_trans: "same_client a b \<Longrightarrow> same_client b c \<Longrightarrow> same_client a c"
  by (simp add: same_defs)

lemma same_world_trans: "same_world a b \<Longrightarrow> same_world b c \<Longrightarrow> same_world a c"
  by (simp add: same_world_def)

lemma handled_rebase:
  "handled c w ps cb wb r \<Longrightarrow> same_client cb0 cb \<Longrightarrow> same_world wb0 wb \<Longrightarrow> handled c w ps cb0 wb0 r"
  by (auto simp: handled_def intro: same_client_trans same_world_trans)

lemma handled_step:
  "handled c w ps cb wb (c1, w1) \<Longrightarrow> queued c2 w2 = queued c1 w1 \<Longrightarrow> handled c2 w2 qs cb2 wb2 r \<Longrightarrow>
     handled c w (ps @ qs) cb2 wb2 r"
  by (auto simp: handled_def)

lemma handledD:
  "handled c w ps cb wb (c1, w1) \<Longrightarrow> client_ok c1 w1 \<and> queued c1 w1 = queued c w @ ps
     \<and> same_client cb c1 \<and> same_world wb w1"
  by (simp add: handled_def)

section \<open>The file of a read request\<close>

text \<open>
  For a readable regular file the check, \<open>fopen\<close>, the measuring and \<open>rewind\<close> leave a stream
  that will deliver the whole file.
\<close>

definition opened :: "filesys \<Rightarrow> nat \<Rightarrow> byte list \<Rightarrow> filesys \<Rightarrow> bool" where
  "opened fs f bs fs' \<longleftrightarrow> handles fs f = None \<and> reading f fs' \<and> unread f fs' = bs \<and> fs_wf fs'
     \<and> nodes fs' = nodes fs \<and> same_perms fs fs' \<and> (\<forall>g. g \<noteq> f \<longrightarrow> handles fs' g = handles fs g)"

lemma rrq_open_file:
  assumes wf: "fs_wf (w_fs w)" and reg: "nodes (w_fs w) path = Some (Reg bs)" "r_perm (w_fs w) path = 0"
  shows "\<exists>f e fs. opened (w_fs w) f bs fs
    \<and> rrq_open c opt tsize path tmp w
      = (if tsize then rrq_tsize c opt tmp f (length bs) (w\<lparr>w_errno := e, w_fs := fs\<rparr>)
         else and_then (rrq_send c f (w\<lparr>w_errno := e, w_fs := fs\<rparr>)) (free_tmp tmp))"
proof -
  obtain e1 fs1 where ex: "FileExists path (w_errno w, w_fs w) = Inr (True, e1, fs1)"
    and fs1: "fs_wf fs1" "nodes fs1 = nodes (w_fs w)" "handles fs1 = handles (w_fs w)"
      "same_perms (w_fs w) fs1"
    using FileExists_spec [OF wf, of path "w_errno w"] reg by auto
  obtain f e2 fs2 where op: "fopen_read path (e1, fs1) = (f, e2, fs2)"
    by (metis surj_pair)
  have "access_read path fs1 = 0"
    using reg fs1 by (simp add: access_read_def same_perms_def)
  then have fs2: "f \<noteq> 0" "fs_wf fs2" "handles fs1 f = None" "same_perms fs1 fs2" "nodes fs2 = nodes fs1"
      "handles fs2 = (handles fs1)(f \<mapsto> \<lparr>of_path = path, of_pos = 0, of_writing = False\<rparr>)"
    using fopen_read_spec [OF fs1(1) op] by auto
  then have st: "stream f fs2 = Inr \<lparr>of_path = path, of_pos = 0, of_writing = False\<rparr>"
    by (simp add: stream_def)
  have len: "ftell_end f fs2 = Inr (length bs)"
    using st reg fs1 fs2 by (simp add: ftell_end_def)
  let ?o = "\<lparr>of_path = path, of_pos = 0, of_writing = False\<rparr>"
  let ?fs3 = "fs2\<lparr>handles := (handles fs2)(f \<mapsto> ?o)\<rparr>"
  have rw: "rewind f fs2 = Inr ?fs3"
    using st by (simp add: rewind_def)
  have "opened (w_fs w) f bs ?fs3"
    using fs1 fs2 reg
    by (auto simp: opened_def reading_def unread_def file_bytes_def fs_wf_def same_perms_def)
  moreover have "rrq_open c opt tsize path tmp w
      = (if tsize then rrq_tsize c opt tmp f (length bs) (w\<lparr>w_errno := e2, w_fs := ?fs3\<rparr>)
         else and_then (rrq_send c f (w\<lparr>w_errno := e2, w_fs := ?fs3\<rparr>)) (free_tmp tmp))"
    using ex op fs2(1) len rw by (simp add: rrq_open_def Let_def)
  ultimately show ?thesis by blast
qed

lemma process_rrq_path:
  assumes ok: "client_ok c w" and parsed: "parse_request buf = Inr (fn, mode, opt, param)"
    and mode: "strcasecmp mode ''mail'' \<noteq> 0"
    and opt: "rrq_option (c\<lparr>c_waiting := 0\<rparr>) opt param w = Inr (Some tsize, c1, w1)"
    and ok1: "client_ok c1 w1" and path: "request_path fn (w_conf w1) = Inr path"
  shows "process_rrq c buf len w
    = rrq_open c1 opt tsize path (brk (w_mem w1)) (w1\<lparr>w_mem := with_str path (w_mem w1)\<rparr>)"
proof -
  have "strdup path (w_mem w1) = (brk (w_mem w1), with_str path (w_mem w1))"
    by (rule strdup_with_str) (use ok1 in \<open>simp_all add: client_okD\<close>)
  moreover have "brk (w_mem w1) \<noteq> NULL"
    using heap_wf_brk [OF client_okD(3) [OF ok1]] by simp
  ultimately show ?thesis
    using parsed mode opt path by (simp add: process_rrq_def end_resend_plain [OF ok])
qed

section \<open>A plain read request\<close>

lemma no_option:
  "strcasecmp opt ''blksize'' \<noteq> 0 \<Longrightarrow> strcasecmp opt ''tsize'' \<noteq> 0 \<Longrightarrow>
     rrq_option c opt param w = Inr (Some False, c, w)"
  by (simp add: rrq_option_def)

lemma process_rrq_plain:
  assumes ok: "client_ok c w" and parsed: "parse_request buf = Inr (fn, mode, opt, param)"
    and mode: "strcasecmp mode ''mail'' \<noteq> 0"
    and opt: "strcasecmp opt ''blksize'' \<noteq> 0" "strcasecmp opt ''tsize'' \<noteq> 0"
    and path: "request_path fn (w_conf w) = Inr path" and wf: "fs_wf (w_fs w)"
    and reg: "nodes (w_fs w) path = Some (Reg bs)" "r_perm (w_fs w) path = 0"
    and idle: "c_sendingfile c = 0"
  shows "total (\<lambda>r. \<exists>f e fs fs1. opened (w_fs w) f bs fs \<and> fread 512 f fs = Inr (take 512 bs, fs1)
      \<and> reading f fs1 \<and> unread f fs1 = drop 512 bs
      \<and> handled c w [data_packet 1 (take 512 bs)]
        (c\<lparr>c_waiting := 0, c_f := f, c_sendingfile := 1, c_currentblockno := 1, c_actualblockno := 1\<rparr>)
        (call_event EV_NEWWRITEREQUEST (w\<lparr>w_errno := e, w_fs := fs1\<rparr>)) r)
    (process_rrq c buf len w)"
proof -
  let ?cw = "c\<lparr>c_waiting := 0\<rparr>" and ?h = "w_mem w"
  obtain f e fs where op: "opened (w_fs w) f bs fs" and run:
    "rrq_open ?cw opt False path (brk ?h) (w\<lparr>w_mem := with_str path ?h\<rparr>)
      = and_then (rrq_send ?cw f (w\<lparr>w_mem := with_str path ?h, w_errno := e, w_fs := fs\<rparr>)) (free_tmp (brk ?h))"
    using rrq_open_file [of "w\<lparr>w_mem := with_str path ?h\<rparr>" path bs ?cw opt False "brk ?h"] wf reg by auto
  have rd: "reading f fs" "unread f fs = bs" using op by (simp_all add: opened_def)
  obtain fs1 where fs1: "fread 512 f fs = Inr (take 512 bs, fs1)" "reading f fs1"
      "unread f fs1 = drop 512 bs"
    using cfile.read_law [OF rd(1), of 512] rd(2) by auto
  let ?c = "c\<lparr>c_waiting := 0, c_f := f, c_sendingfile := 1, c_currentblockno := 1, c_actualblockno := 1\<rparr>"
  let ?w = "call_event EV_NEWWRITEREQUEST (w\<lparr>w_errno := e, w_fs := fs1\<rparr>)"
  let ?ws = "?w\<lparr>w_mem := with_str path (w_mem ?w)\<rparr>"
  have okb: "client_ok ?c ?w"
    using ok by (subst client_ok_cong) simp_all
  have "rrq_send ?cw f (w\<lparr>w_mem := with_str path ?h, w_errno := e, w_fs := fs\<rparr>)
      = SendData ?c (take 512 bs) ?ws"
    using idle fs1(1) by (simp add: rrq_send_def Let_def call_event_def mem_last)
  then have "process_rrq c buf len w
      = and_then (SendData ?c (take 512 bs) ?ws) (free_tmp (brk (w_mem ?w)))"
    using run process_rrq_path [OF ok parsed mode no_option [OF opt] client_ok_waiting [OF ok] path]
    by simp
  moreover have "total (handled c w [data_packet 1 (take 512 bs)] ?c ?w)
      (and_then (SendData ?c (take 512 bs) ?ws) (free_tmp (brk (w_mem ?w))))"
    by (rule free_tmp_handled [OF okb])
      (use SendData_total [OF client_ok_with_str [OF okb], of path "take 512 bs"] in
        \<open>simp_all add: queued_def\<close>)
  ultimately have "total (handled c w [data_packet 1 (take 512 bs)] ?c ?w) (process_rrq c buf len w)"
    by (simp only:)
  with op fs1 show ?thesis by (auto elim!: sat_mono)
qed

section \<open>The block size option\<close>

text \<open>
  A block size in range is acknowledged; the transfer starts with the block 0 and the
  whole file still to read, so that the ACK of the client asks for the first block.
\<close>

lemma client_ok_blksize:
  "client_ok c w \<Longrightarrow> c_blk c = NULL \<Longrightarrow> c_queue c' = c_queue c \<Longrightarrow> c_lastpacket c' = c_lastpacket c \<Longrightarrow>
     c_blk c' = NULL \<Longrightarrow> sk_fd (c_s c') = sk_fd (c_s c) \<Longrightarrow> w_mem w' = w_mem w \<Longrightarrow> w_mux w' = w_mux w \<Longrightarrow>
     client_ok c' w'"
  by (simp add: client_ok_def queue_ok_def plain_marks_def blk_ok_def)

lemma process_rrq_blksize:
  assumes ok: "client_ok c w" and parsed: "parse_request buf = Inr (fn, mode, opt, Some param)"
    and mode: "strcasecmp mode ''mail'' \<noteq> 0"
    and opt: "strcasecmp opt ''blksize'' = 0" "strtol param = (b, False)" "8 \<le> b" "b \<le> 65464"
    and path: "request_path fn (w_conf w) = Inr path" and wf: "fs_wf (w_fs w)"
    and reg: "nodes (w_fs w) path = Some (Reg bs)" "r_perm (w_fs w) path = 0"
    and blk: "c_blk c = NULL"
  shows "total (\<lambda>r. \<exists>f e fs. opened (w_fs w) f bs fs
      \<and> handled c w [oack_packet opt param]
        (c\<lparr>c_waiting := 0, c_f := f, c_sendingfile := 1, c_currentblockno := 0, c_actualblockno := 0,
           c_blksize := word_of_int b\<rparr>)
        (w\<lparr>w_errno := e, w_fs := fs\<rparr>) r)
    (process_rrq c buf len w)"
proof -
  let ?cw = "c\<lparr>c_waiting := 0\<rparr>" and ?we = "w\<lparr>w_errno := 0\<rparr>"
  have okw: "client_ok ?cw ?we"
    using ok by (subst client_ok_cong) simp_all
  obtain ca wa where oa: "OptionAcknowledge ?cw opt param ?we = Inr (ca, wa)"
      "handled c w [oack_packet opt param] ?cw ?we (ca, wa)"
    using total_handled [OF OptionAcknowledge_total [OF okw] okw, of c w opt param]
    by (auto simp: total_ex queued_def)
  note ha = handledD [OF oa(2)]
  let ?cb = "ca\<lparr>c_sendingfile := 1, c_currentblockno := 0, c_actualblockno := 0,
      c_blksize := word_of_int b\<rparr>"
  have oopt: "rrq_option ?cw opt (Some param) w = Inr (Some False, ?cb, wa)"
    using opt oa(1) by (simp add: rrq_option_def Let_def ERANGE_def)
  have blka: "c_blk ca = NULL" and fsa: "w_fs wa = w_fs w" "w_conf wa = w_conf w"
    using ha blk by (simp_all add: same_defs)
  have okb: "client_ok ?cb wa"
    by (rule client_ok_blksize [of ca wa]) (use ha blka in simp_all)
  let ?h = "w_mem wa"
  have path': "request_path fn (w_conf wa) = Inr path" using path fsa by simp
  obtain f e fs where op: "opened (w_fs w) f bs fs" and run:
    "rrq_open ?cb opt False path (brk ?h) (wa\<lparr>w_mem := with_str path ?h\<rparr>)
      = and_then (rrq_send ?cb f (wa\<lparr>w_mem := with_str path ?h, w_errno := e, w_fs := fs\<rparr>)) (free_tmp (brk ?h))"
    using rrq_open_file [of "wa\<lparr>w_mem := with_str path ?h\<rparr>" path bs ?cb opt False "brk ?h"] wf reg fsa
    by auto
  let ?cf = "?cb\<lparr>c_f := f\<rparr>" and ?wf = "wa\<lparr>w_errno := e, w_fs := fs\<rparr>"
  let ?ws = "?wf\<lparr>w_mem := with_str path (w_mem ?wf)\<rparr>"
  have okf: "client_ok ?cf ?wf"
    using okb by (subst client_ok_cong) simp_all
  have "process_rrq c buf len w = and_then (Inr (?cf, ?ws)) (free_tmp (brk (w_mem ?wf)))"
    using run process_rrq_path [OF ok parsed mode oopt okb path']
    by (simp add: rrq_send_def Let_def mem_last)
  moreover have "total (handled ?cf wa [] ?cf ?wf)
      (and_then (Inr (?cf, ?ws)) (free_tmp (brk (w_mem ?wf))))"
    using enqueued_refl [OF client_okD(1) [OF client_ok_with_str [OF okf]]]
    by (intro free_tmp_handled [OF okf]) (simp_all add: queued_def)
  ultimately have "total (handled ?cf wa [] ?cf ?wf) (process_rrq c buf len w)"
    by (simp only:)
  then obtain r where r: "process_rrq c buf len w = Inr r" "handled ?cf wa [] ?cf ?wf r"
    by (auto simp: total_ex)
  have "handled c w [oack_packet opt param] ?cf ?wf r"
    using handled_step [OF oa(2) _ r(2)] by (simp add: queued_def)
  then have "handled c w [oack_packet opt param]
      (c\<lparr>c_waiting := 0, c_f := f, c_sendingfile := 1, c_currentblockno := 0, c_actualblockno := 0,
         c_blksize := word_of_int b\<rparr>) (w\<lparr>w_errno := e, w_fs := fs\<rparr>) r"
    by (rule handled_rebase) (use ha in \<open>simp_all add: same_defs\<close>)
  with op r(1) show ?thesis by auto
qed

text \<open>A block size out of range is refused.\<close>

lemma process_rrq_bad_blksize:
  assumes ok: "client_ok c w" and parsed: "parse_request buf = Inr (fn, mode, opt, Some param)"
    and mode: "strcasecmp mode ''mail'' \<noteq> 0"
    and opt: "strcasecmp opt ''blksize'' = 0" "strtol param = (b, False)" "b < 8 \<or> 65464 < b"
    and len: "length (dec_int b) \<le> 400"
  shows "total (handled c w [error_packet ERROR_OPTION (''Invalid block size '' @ dec_int b)]
      (c\<lparr>c_waiting := 0, c_destroy := 1\<rparr>) (w\<lparr>w_errno := 0\<rparr>)) (process_rrq c buf len' w)"
proof -
  let ?cw = "c\<lparr>c_waiting := 0\<rparr>" and ?we = "w\<lparr>w_errno := 0\<rparr>"
  have okw: "client_ok ?cw ?we"
    using ok by (subst client_ok_cong) simp_all
  obtain r where r: "Error ?cw ERROR_OPTION (''Invalid block size '' @ dec_int b) ?we = Inr r"
      "handled c w [error_packet ERROR_OPTION (''Invalid block size '' @ dec_int b)]
        (?cw\<lparr>c_destroy := 1\<rparr>) ?we r"
    using Error_handled [OF okw, of c w "''Invalid block size '' @ dec_int b" ERROR_OPTION] len
    by (auto simp: total_ex queued_def MAX_PACKET_SIZE_def)
  have "rrq_option ?cw opt (Some param) w = Inr (None, r)"
    using opt r(1) by (auto simp: rrq_option_def Let_def ERANGE_def)
  with r parsed mode show ?thesis
    by (cases r) (simp add: process_rrq_def end_resend_plain [OF ok])
qed

section \<open>The size option\<close>

lemma free_with_str: "heap_wf h \<Longrightarrow> free (brk h) (with_str s h) = Inr (h\<lparr>brk := Suc (brk h)\<rparr>)"
  using heap_wf_brk [of h] heap_wf_fresh [of h "brk h"]
  by (simp add: free_def with_str_def fun_upd_idem)

lemma client_ok_brk:
  "client_ok c w \<Longrightarrow> w_mem w' = (w_mem w)\<lparr>brk := Suc (brk (w_mem w))\<rparr> \<Longrightarrow> w_mux w' = w_mux w \<Longrightarrow>
     client_ok c w' \<and> queued c w' = queued c w"
  by (auto simp: client_ok_def queue_ok_def blk_ok_def mem_ok_def heap_wf_def queued_def
      pq_live_def pq_bytes_def less_Suc_eq)

text \<open>
  The size of the file is acknowledged, in decimal, and the file closed again: the streams
  are those from before the request, and no transfer is started.
\<close>

lemma process_rrq_tsize:
  assumes ok: "client_ok c w" and parsed: "parse_request buf = Inr (fn, mode, opt, param)"
    and mode: "strcasecmp mode ''mail'' \<noteq> 0"
    and opt: "strcasecmp opt ''blksize'' \<noteq> 0" "strcasecmp opt ''tsize'' = 0"
    and path: "request_path fn (w_conf w) = Inr path" and wf: "fs_wf (w_fs w)"
    and reg: "nodes (w_fs w) path = Some (Reg bs)" "r_perm (w_fs w) path = 0"
  shows "total (\<lambda>r. \<exists>e fs. nodes fs = nodes (w_fs w) \<and> handles fs = handles (w_fs w)
      \<and> handled c w [oack_packet opt (dec_nat (length bs))] (c\<lparr>c_waiting := 0\<rparr>)
          (w\<lparr>w_errno := e, w_fs := fs\<rparr>) r)
    (process_rrq c buf len w)"
proof -
  let ?cw = "c\<lparr>c_waiting := 0\<rparr>" and ?h = "w_mem w" and ?n = "dec_nat (length bs)"
  have wfh: "heap_wf ?h" using ok by (rule client_okD)
  have oopt: "rrq_option ?cw opt param w = Inr (Some True, ?cw, w)"
    using opt by (simp add: rrq_option_def)
  obtain f e fs where op: "opened (w_fs w) f bs fs" and run:
    "rrq_open ?cw opt True path (brk ?h) (w\<lparr>w_mem := with_str path ?h\<rparr>)
      = rrq_tsize ?cw opt (brk ?h) f (length bs) (w\<lparr>w_mem := with_str path ?h, w_errno := e, w_fs := fs\<rparr>)"
    using rrq_open_file [of "w\<lparr>w_mem := with_str path ?h\<rparr>" path bs ?cw opt True "brk ?h"] wf reg by auto
  let ?hq = "?h\<lparr>brk := Suc (brk ?h)\<rparr>"
  let ?wb = "w\<lparr>w_errno := e, w_fs := fs, w_mem := ?hq\<rparr>"
  have okb: "client_ok ?cw ?wb" and qb: "queued ?cw ?wb = queued c w"
    using client_ok_brk [OF client_ok_waiting [OF ok], of ?wb] by (simp_all add: queued_def)
  let ?ws = "?wb\<lparr>w_mem := with_str ?n (w_mem ?wb)\<rparr>"
  obtain c1 w1 where oa: "OptionAcknowledge ?cw opt ?n ?ws = Inr (c1, w1)"
      "enqueued ?cw ?ws [oack_packet opt ?n] c1 w1"
    using OptionAcknowledge_total [OF client_ok_with_str [OF okb, of ?n], of opt ?n] by (auto simp: total_ex)
  obtain h where fr: "free (brk (w_mem ?wb)) (w_mem w1) = Inr h"
      "enqueued ?cw ?wb [oack_packet opt ?n] c1 (w1\<lparr>w_mem := h\<rparr>)"
    using free_temp_enqueued [OF client_okD(1) [OF okb] oa(2)] by blast
  have fs1: "w_fs w1 = fs" using oa(2) by (simp add: enqueued_defs same_defs)
  let ?fs = "fs\<lparr>handles := (handles fs)(f := None)\<rparr>"
  have cl: "fclose f fs = Inr ?fs"
    using op by (auto simp: opened_def reading_def fclose_def stream_def)
  have hs: "handles ?fs = handles (w_fs w)" "nodes ?fs = nodes (w_fs w)"
    using op by (auto simp: opened_def fun_eq_iff)
  have tmp2: "strdup ?n ?hq = (brk ?hq, with_str ?n ?hq)"
    using client_okD(2,3) [OF okb] by (intro strdup_with_str) simp_all
  have res: "process_rrq c buf len w = Inr (c1, w1\<lparr>w_fs := ?fs, w_mem := h\<rparr>)"
    using run process_rrq_path [OF ok parsed mode oopt client_ok_waiting [OF ok] path]
      oa(1) fr(1) cl fs1 free_with_str [OF wfh] tmp2
    by (simp add: rrq_tsize_def free_tmp_def mem_last)
  have "handled c w [oack_packet opt ?n] ?cw ?wb (c1, w1\<lparr>w_mem := h\<rparr>)"
    by (rule enqueued_handled [OF okb qb fr(2)])
  then have h: "handled c w [oack_packet opt ?n] ?cw (w\<lparr>w_errno := e, w_fs := ?fs\<rparr>)
      (c1, w1\<lparr>w_fs := ?fs, w_mem := h\<rparr>)"
    by (simp add: handled_def client_ok_def queue_ok_def queued_def same_world_def)
  show ?thesis
    unfolding res sat_Inr by (intro exI [of _ e] exI [of _ ?fs] conjI hs h)
qed

section \<open>A file that is not there\<close>

text \<open>
  Two errors are sent, since the first does not end the request. The path is part of the
  first one: if it is too long, the assertion of \<open>Error\<close> stops the server.
\<close>

definition missing_text :: "string \<Rightarrow> string" where
  "missing_text path = ''File '' @ path @ '' does not exist on the filesystem.''"

lemma FileExists_missing:
  "nodes fs path = None \<Longrightarrow> FileExists path (e, fs) = Inr (False, ENOENT, fs)"
  by (simp add: FileExists_def)

lemma process_rrq_missing:
  assumes ok: "client_ok c w" and parsed: "parse_request buf = Inr (fn, mode, opt, param)"
    and mode: "strcasecmp mode ''mail'' \<noteq> 0"
    and opt: "strcasecmp opt ''blksize'' \<noteq> 0" "strcasecmp opt ''tsize'' \<noteq> 0"
    and path: "request_path fn (w_conf w) = Inr path"
    and gone: "nodes (w_fs w) path = None"
    and len: "length (missing_text path) \<le> 512" "length (w_strerror w ENOENT) \<le> 400"
  shows "total (handled c w
      [error_packet ERROR_NOFILE (missing_text path),
       error_packet ERROR_NOFILE (''Cannot open file: '' @ w_strerror w ENOENT)]
      (c\<lparr>c_waiting := 0, c_destroy := 1\<rparr>) (w\<lparr>w_errno := ENOENT\<rparr>)) (process_rrq c buf len' w)"
proof -
  let ?cw = "c\<lparr>c_waiting := 0\<rparr>" and ?h = "w_mem w"
  let ?w = "w\<lparr>w_errno := ENOENT, w_mem := with_str path ?h\<rparr>"
  have okb: "client_ok ?cw ?w" and qb: "queued ?cw ?w = queued c w"
    using client_ok_with_str [OF client_ok_waiting [OF ok], of path]
      queue_ok_with_str(2) [OF client_okD(1) [OF client_ok_waiting [OF ok]], of ?w path]
    by (auto simp: client_ok_def queue_ok_def queued_def)
  let ?m1 = "missing_text path" and ?m2 = "''Cannot open file: '' @ w_strerror w ENOENT"
  obtain c1 w1 where e1: "Error ?cw ERROR_NOFILE ?m1 ?w = Inr (c1, w1)"
      "handled c w [error_packet ERROR_NOFILE ?m1] (?cw\<lparr>c_destroy := 1\<rparr>) ?w (c1, w1)"
    using Error_handled [OF okb qb, of ?m1 ERROR_NOFILE] len(1)
    by (auto simp: total_ex MAX_PACKET_SIZE_def)
  note h1 = handledD [OF e1(2)]
  have w1: "w_fs w1 = w_fs w" "w_errno w1 = ENOENT" "w_strerror w1 = w_strerror w"
    using h1 by (simp_all add: same_defs)
  then have same: "w1\<lparr>w_errno := ENOENT, w_fs := w_fs w\<rparr> = w1"
    by (simp flip: w1(1,2))
  obtain r where e2: "Error c1 ERROR_NOFILE ?m2 w1 = Inr r"
      "handled c1 w1 [error_packet ERROR_NOFILE ?m2] (c1\<lparr>c_destroy := 1\<rparr>) w1 r"
    using Error_handled [of c1 w1 c1 w1 ?m2 ERROR_NOFILE] h1 len(2)
    by (auto simp: total_ex MAX_PACKET_SIZE_def)
  have "process_rrq c buf len' w = Inr r"
    using process_rrq_path [OF ok parsed mode no_option [OF opt] client_ok_waiting [OF ok] path]
      gone e1(1) e2(1) w1
    by (simp add: same rrq_open_def Let_def FileExists_missing mem_last missing_text_def fopen_read_def)
  moreover have "handled c w [error_packet ERROR_NOFILE ?m1, error_packet ERROR_NOFILE ?m2]
      (c1\<lparr>c_destroy := 1\<rparr>) w1 r"
    using handled_step [OF e1(2) refl e2(2)] by simp
  then have "handled c w [error_packet ERROR_NOFILE ?m1, error_packet ERROR_NOFILE ?m2]
      (c\<lparr>c_waiting := 0, c_destroy := 1\<rparr>) (w\<lparr>w_errno := ENOENT\<rparr>) r"
    by (rule handled_rebase) (use h1 in \<open>simp_all add: same_defs\<close>)
  ultimately show ?thesis by simp
qed

lemma process_rrq_missing_assert:
  assumes ok: "client_ok c w" and parsed: "parse_request buf = Inr (fn, mode, opt, param)"
    and mode: "strcasecmp mode ''mail'' \<noteq> 0"
    and opt: "strcasecmp opt ''blksize'' \<noteq> 0" "strcasecmp opt ''tsize'' \<noteq> 0"
    and path: "request_path fn (w_conf w) = Inr path"
    and gone: "nodes (w_fs w) path = None" and len: "512 < length (missing_text path)"
  shows "process_rrq c buf len' w = Inl Assert_failed"
proof -
  let ?w = "w\<lparr>w_errno := ENOENT, w_mem := with_str path (w_mem w)\<rparr>"
  have "Error (c\<lparr>c_waiting := 0\<rparr>) ERROR_NOFILE (missing_text path) ?w = Inl Assert_failed"
    using client_okD(2,3) [OF ok] len
    by (intro Error_assert) (simp_all add: with_str_wf MAX_PACKET_SIZE_def)
  then show ?thesis
    using process_rrq_path [OF ok parsed mode no_option [OF opt] client_ok_waiting [OF ok] path] gone
    by (simp add: rrq_open_def Let_def FileExists_missing mem_last missing_text_def)
qed

end
