(* ===== verification/File_Transfer.thy ===== *)
theory File_Transfer
  imports Read_Contracts
begin

text \<open>
  Whole transfers: what a client gets that sends a read request and then ACK packets, and
  what the file holds after a write request and DATA packets. Each is the run of
  \<open>ProcessPacket\<close> of src/src/process.c over the packets in the order they arrive.
\<close>

section \<open>Runs\<close>

text \<open>A packet as it arrives: the receive buffer and the number of bytes received.\<close>

definition process_all :: "(byte list \<times> nat) list \<Rightarrow> client \<times> world \<Rightarrow> fault + client \<times> world" where
  "process_all = fold_res (\<lambda>(buf, len) (c, w). ProcessPacket c buf len w)"

lemma process_all_simps [simp]:
  "process_all [] r = Inr r"
  "process_all ((buf, len) # ps) (c, w) = and_then (ProcessPacket c buf len w) (process_all ps)"
  by (simp_all add: process_all_def)

definition is_packet :: "16 word \<Rightarrow> byte list \<times> nat \<Rightarrow> bool" where
  "is_packet opcode p \<longleftrightarrow> field16 0 (fst p) = Inr opcode \<and> snd p \<le> MAX_PACKET_SIZE"

lemma ProcessPacket_cases:
  "is_packet PACKET_DATA (buf, len) \<Longrightarrow> ProcessPacket c buf len w = process_data c buf len w"
  "is_packet PACKET_ERROR (buf, len) \<Longrightarrow> ProcessPacket c buf len w = process_error c buf len w"
  "is_packet PACKET_ACK (buf, len) \<Longrightarrow> ProcessPacket c buf len w = process_ack c buf len w"
  "is_packet PACKET_WRQ (buf, len) \<Longrightarrow> ProcessPacket c buf len w = process_wrq c buf len w"
  "is_packet PACKET_RRQ (buf, len) \<Longrightarrow> ProcessPacket c buf len w = process_rrq c buf len w"
  by (simp_all add: is_packet_def ProcessPacket_def opcode_defs)

section \<open>Sending a file\<close>

text \<open>
  \<open>sending b bs i c w\<close>: the client is being sent the file \<open>bs\<close> in blocks of \<open>b\<close> bytes,
  and \<open>i\<close> blocks are out.
\<close>

definition sending :: "nat \<Rightarrow> byte list \<Rightarrow> nat \<Rightarrow> client \<Rightarrow> world \<Rightarrow> bool" where
  "sending b bs i c w \<longleftrightarrow> client_ok c w \<and> c_sendingfile c \<noteq> 0 \<and> 0 < b \<and> unat (c_blksize c) = b
     \<and> c_currentblockno c = word_of_nat i \<and> c_actualblockno c = word_of_nat i
     \<and> reading (c_f c) (w_fs w) \<and> unread (c_f c) (w_fs w) = drop (i * b) bs"

text \<open>The DATA packet number \<open>i\<close> (from 0) of a file; its block number is \<open>i + 1\<close>, in 16 bits.\<close>

definition data_of :: "nat \<Rightarrow> byte list \<Rightarrow> nat \<Rightarrow> byte list" where
  "data_of b bs i = data_packet (word_of_nat (Suc i)) (block_of b i bs)"

lemma ack_step:
  assumes snd: "sending b bs i c w" and p: "is_packet PACKET_ACK (buf, len)"
  shows "total (\<lambda>(c', w'). sending b bs (Suc i) c' w' \<and> queued c' w' = queued c w @ [data_of b bs i]
      \<and> c_destroy c' = (if length (block_of b i bs) < b then 1 else c_destroy c)
      \<and> nodes (w_fs w') = nodes (w_fs w))
    (ProcessPacket c buf len w)"
proof -
  have *: "client_ok c w" "c_sendingfile c \<noteq> 0" "0 < unat (c_blksize c)" "unat (c_blksize c) = b"
      "c_currentblockno c = word_of_nat i" "c_actualblockno c = word_of_nat i"
    using snd by (simp_all add: sending_def)
  obtain fs where fs: "fread b (c_f c) (w_fs w) = Inr (block_of b i bs, fs)" "reading (c_f c) fs"
      "unread (c_f c) fs = drop (Suc i * b) bs"
    using cfile.read_block [of "c_f c" "w_fs w" i b bs] snd by (auto simp: sending_def)
  obtain c' w' blk where run: "process_ack c buf len w = Inr (c', w')" and h:
    "handled c w [data_packet (c_currentblockno c + 1) (block_of b i bs)]
      (c\<lparr>c_waiting := 0, c_blk := blk, c_currentblockno := c_currentblockno c + 1,
         c_actualblockno := c_actualblockno c + 1,
         c_destroy := (if length (block_of b i bs) < b then 1 else c_destroy c)\<rparr>)
      ((call_event EV_ACK_PACKET w)\<lparr>w_fs := fs\<rparr>) (c', w')"
    using process_ack_sat [OF *(1-3), of "block_of b i bs" fs buf len] fs(1) *(4)
    by (auto simp: total_ex)
  have suc: "(word_of_nat i + 1 :: 'a::len word) = word_of_nat (Suc i)"
    by (simp add: add.commute)
  show ?thesis
    using run h fs snd fread_frame [OF fs(1)] *
    by (auto simp: ProcessPacket_cases(3) [OF p] handled_def sending_def same_defs data_of_def suc)
qed

lemma acks_run:
  assumes "sending b bs i c w" "\<forall>p \<in> set ps. is_packet PACKET_ACK p"
  shows "total (\<lambda>(c', w'). sending b bs (i + length ps) c' w'
      \<and> queued c' w' = queued c w @ map (data_of b bs) [i ..< i + length ps]
      \<and> nodes (w_fs w') = nodes (w_fs w))
    (process_all ps (c, w))"
  using assms
proof (induction ps arbitrary: i c w)
  case (Cons p ps)
  obtain buf len where p: "p = (buf, len)" by force
  obtain c1 w1 where 1: "ProcessPacket c buf len w = Inr (c1, w1)" "sending b bs (Suc i) c1 w1"
      "queued c1 w1 = queued c w @ [data_of b bs i]" "nodes (w_fs w1) = nodes (w_fs w)"
    using ack_step [OF Cons.prems(1), of buf len] Cons.prems(2) p by (auto simp: total_ex)
  have "[i ..< i + length (p # ps)] = i # [Suc i ..< Suc i + length ps]"
    using upt_conv_Cons [of i "i + length (p # ps)"] by simp
  with 1 p Cons.IH [OF 1(2)] Cons.prems(2) show ?case
    by (auto simp: total_ex)
qed simp

text \<open>
  The payloads of the packets of a transfer, put together, are the file, as soon as there
  are enough of them.
\<close>

definition payload :: "byte list \<Rightarrow> byte list" where
  "payload p = drop 4 p"

lemma payload_data_of [simp]: "payload (data_of b bs i) = block_of b i bs"
  by (simp add: payload_def data_of_def data_packet_def be16_def)

lemma payloads_data_of: "concat (map payload (map (data_of b bs) [0 ..< n])) = take (n * b) bs"
  using concat_blocks_of [of b n bs] by (simp add: blocks_of_def comp_def)

text \<open>
  What a request needs to be served: a client in order with no transfer going, a request
  for a readable regular file below the configured directory.
\<close>

definition serves :: "client \<Rightarrow> world \<Rightarrow> byte list \<Rightarrow> string \<Rightarrow> byte list \<Rightarrow> bool" where
  "serves c w buf path bs \<longleftrightarrow> client_ok c w \<and> c_sendingfile c = 0 \<and> c_blk c = NULL \<and> c_blksize c = 512
     \<and> fs_wf (w_fs w) \<and> nodes (w_fs w) path = Some (Reg bs) \<and> r_perm (w_fs w) path = 0
     \<and> (case parse_request buf of
          Inr (fn, mode, opt, param) \<Rightarrow>
            strcasecmp mode ''mail'' \<noteq> 0 \<and> request_path fn (w_conf w) = Inr path
        | Inl _ \<Rightarrow> False)"

definition request_option :: "byte list \<Rightarrow> string \<times> string option" where
  "request_option buf = (case parse_request buf of
     Inr (fn, mode, opt, param) \<Rightarrow> (opt, param) | Inl _ \<Rightarrow> ([], None))"

lemma servesE:
  assumes "serves c w buf path bs" "request_option buf = (opt, param)"
  obtains fn mode where "client_ok c w" "c_sendingfile c = 0" "c_blk c = NULL" "c_blksize c = 512"
    "fs_wf (w_fs w)" "nodes (w_fs w) path = Some (Reg bs)" "r_perm (w_fs w) path = 0"
    "parse_request buf = Inr (fn, mode, opt, param)" "strcasecmp mode ''mail'' \<noteq> 0"
    "request_path fn (w_conf w) = Inr path"
  using assms by (auto simp: serves_def request_option_def split: sum.splits)

lemma rrq_sending:
  assumes s: "serves c w buf path bs" and o: "request_option buf = (opt, param)"
    "strcasecmp opt ''blksize'' \<noteq> 0" "strcasecmp opt ''tsize'' \<noteq> 0"
    and p: "is_packet PACKET_RRQ (buf, len)"
  shows "total (\<lambda>(c', w'). sending 512 bs 1 c' w' \<and> queued c' w' = queued c w @ [data_of 512 bs 0]
      \<and> nodes (w_fs w') = nodes (w_fs w) \<and> c_destroy c' = c_destroy c)
    (ProcessPacket c buf len w)"
proof -
  from s o(1) obtain fn mode where *: "client_ok c w" "c_sendingfile c = 0" "c_blk c = NULL"
    "c_blksize c = 512" "fs_wf (w_fs w)" "nodes (w_fs w) path = Some (Reg bs)" "r_perm (w_fs w) path = 0"
    "parse_request buf = Inr (fn, mode, opt, param)" "strcasecmp mode ''mail'' \<noteq> 0"
    "request_path fn (w_conf w) = Inr path"
    by (rule servesE)
  obtain c' w' f e fs fs1 where run: "process_rrq c buf len w = Inr (c', w')"
    and op: "opened (w_fs w) f bs fs"
    and rd: "fread 512 f fs = Inr (take 512 bs, fs1)" "reading f fs1" "unread f fs1 = drop 512 bs"
    and h: "handled c w [data_packet 1 (take 512 bs)]
        (c\<lparr>c_waiting := 0, c_f := f, c_sendingfile := 1, c_currentblockno := 1, c_actualblockno := 1\<rparr>)
        (call_event EV_NEWWRITEREQUEST (w\<lparr>w_errno := e, w_fs := fs1\<rparr>)) (c', w')"
    using process_rrq_plain [OF *(1,8,9) o(2,3) *(10,5-7,2), of len] by (auto simp: total_ex)
  have nodes: "nodes fs1 = nodes (w_fs w)"
    using fread_frame [OF rd(1)] op by (simp add: opened_def)
  note h = handledD [OF h]
  then have "c_f c' = f" "w_fs w' = fs1" "c_sendingfile c' = 1" "c_currentblockno c' = 1"
      "c_actualblockno c' = 1" "c_blksize c' = 512"
    using *(4) by (simp_all add: same_defs)
  then have "sending 512 bs 1 c' w'"
    using h rd by (simp add: sending_def)
  moreover have "data_packet 1 (take 512 bs) = data_of 512 bs 0"
    by (simp add: data_of_def block_of_def)
  ultimately show ?thesis
    using run h nodes \<open>w_fs w' = fs1\<close> by (simp add: ProcessPacket_cases(5) [OF p] same_defs)
qed

text \<open>
  A plain read request and \<open>n\<close> ACK packets make the server send the first \<open>n + 1\<close> blocks of
  the file, in order, numbered from 1.
\<close>

lemma read_run:
  assumes s: "serves c w buf path bs" and o: "request_option buf = (opt, param)"
    "strcasecmp opt ''blksize'' \<noteq> 0" "strcasecmp opt ''tsize'' \<noteq> 0"
    and p: "is_packet PACKET_RRQ (buf, len)" and acks: "\<forall>p \<in> set ps. is_packet PACKET_ACK p"
  shows "total (\<lambda>(c', w'). queued c' w' = queued c w @ map (data_of 512 bs) [0 ..< Suc (length ps)]
      \<and> nodes (w_fs w') = nodes (w_fs w))
    (process_all ((buf, len) # ps) (c, w))"
proof -
  obtain c1 w1 where 1: "ProcessPacket c buf len w = Inr (c1, w1)" "sending 512 bs 1 c1 w1"
      "queued c1 w1 = queued c w @ [data_of 512 bs 0]" "nodes (w_fs w1) = nodes (w_fs w)"
    using rrq_sending [OF s o p] by (auto simp: total_ex)
  have "[0 ..< Suc (length ps)] = 0 # [1 ..< 1 + length ps]"
    using upt_conv_Cons [of 0 "Suc (length ps)"] by simp
  with 1 acks_run [OF 1(2) acks] show ?thesis
    by (auto simp: total_ex)
qed

text \<open>
  With a block size the request is answered by the packet of \<open>OptionAcknowledge\<close>, and each ACK is
  then answered by a block of that size, from the first on.
\<close>

lemma rrq_blksize_sending:
  assumes s: "serves c w buf path bs" and o: "request_option buf = (opt, Some param)"
    "strcasecmp opt ''blksize'' = 0" "strtol param = (b, False)" "8 \<le> b" "b \<le> 65464"
    and p: "is_packet PACKET_RRQ (buf, len)"
  shows "total (\<lambda>(c', w'). sending (nat b) bs 0 c' w'
      \<and> queued c' w' = queued c w @ [oack_packet opt param] \<and> nodes (w_fs w') = nodes (w_fs w) \<and> c_destroy c' = c_destroy c)
    (ProcessPacket c buf len w)"
proof -
  from s o(1) obtain fn mode where *: "client_ok c w" "c_sendingfile c = 0" "c_blk c = NULL"
    "c_blksize c = 512" "fs_wf (w_fs w)" "nodes (w_fs w) path = Some (Reg bs)" "r_perm (w_fs w) path = 0"
    "parse_request buf = Inr (fn, mode, opt, Some param)" "strcasecmp mode ''mail'' \<noteq> 0"
    "request_path fn (w_conf w) = Inr path"
    by (rule servesE)
  obtain c' w' f e fs where "process_rrq c buf len w = Inr (c', w')" "opened (w_fs w) f bs fs"
    "handled c w [oack_packet opt param]
        (c\<lparr>c_waiting := 0, c_f := f, c_sendingfile := 1, c_currentblockno := 0, c_actualblockno := 0,
           c_blksize := word_of_int b\<rparr>)
        (w\<lparr>w_errno := e, w_fs := fs\<rparr>) (c', w')"
    using process_rrq_blksize [OF *(1,8,9) o(2-5) *(10,5-7,3), of len] by (auto simp: total_ex)
  moreover have "unat (word_of_int b :: 32 word) = nat b"
    using o(4,5) by (simp add: unsigned_of_int take_bit_int_eq_self)
  ultimately show ?thesis
    using * o(4) by (auto simp: ProcessPacket_cases(5) [OF p] handled_def sending_def same_defs
        opened_def)
qed

lemma read_blksize_run:
  assumes s: "serves c w buf path bs" and o: "request_option buf = (opt, Some param)"
    "strcasecmp opt ''blksize'' = 0" "strtol param = (b, False)" "8 \<le> b" "b \<le> 65464"
    and p: "is_packet PACKET_RRQ (buf, len)" and acks: "\<forall>p \<in> set ps. is_packet PACKET_ACK p"
  shows "total (\<lambda>(c', w'). queued c' w'
        = queued c w @ oack_packet opt param # map (data_of (nat b) bs) [0 ..< length ps]
      \<and> nodes (w_fs w') = nodes (w_fs w))
    (process_all ((buf, len) # ps) (c, w))"
proof -
  obtain c1 w1 where 1: "ProcessPacket c buf len w = Inr (c1, w1)" "sending (nat b) bs 0 c1 w1"
      "queued c1 w1 = queued c w @ [oack_packet opt param]" "nodes (w_fs w1) = nodes (w_fs w)"
    using rrq_blksize_sending [OF s o p] by (auto simp: total_ex)
  with acks_run [OF 1(2) acks] show ?thesis
    by (auto simp: total_ex)
qed

section \<open>Receiving a file\<close>

definition receiving :: "string \<Rightarrow> byte list \<Rightarrow> client \<Rightarrow> world \<Rightarrow> bool" where
  "receiving path bs c w \<longleftrightarrow> client_ok c w \<and> c_sendingfile c \<noteq> 0 \<and> appending (c_f c) path bs (w_fs w)"

text \<open>A DATA packet as it arrives: block number, payload, and the rest of the buffer.\<close>

definition arrives :: "16 word \<Rightarrow> byte list \<Rightarrow> byte list \<times> nat \<Rightarrow> bool" where
  "arrives b d p \<longleftrightarrow> snd p = 4 + length d \<and> snd p \<le> MAX_PACKET_SIZE
     \<and> take (snd p) (fst p) = data_packet b d"

lemma arrivesD:
  assumes "arrives b d (buf, len)"
  shows "is_packet PACKET_DATA (buf, len)" "field16 2 buf = Inr b" "4 \<le> len" "len \<le> MAX_PACKET_SIZE"
    "len \<le> length buf" "take (len - 4) (drop 4 buf) = d" "len = 4 + length d"
proof -
  from assms have len: "len = 4 + length d" "len \<le> MAX_PACKET_SIZE"
    and t: "take (4 + length d) buf = be16 PACKET_DATA @ be16 b @ d"
    by (auto simp: arrives_def data_packet_def)
  define rest where "rest = drop (4 + length d) buf"
  have buf: "buf = be16 PACKET_DATA @ be16 b @ d @ rest"
    using append_take_drop_id [of "4 + length d" buf] by (simp add: t rest_def)
  show "len \<le> length buf" "take (len - 4) (drop 4 buf) = d"
    using len by (simp_all add: buf)
  show "is_packet PACKET_DATA (buf, len)" "field16 2 buf = Inr b"
    using len by (simp_all add: buf is_packet_def field16_def nth_append be16_def)
  show "4 \<le> len" "len \<le> MAX_PACKET_SIZE" "len = 4 + length d"
    using len by simp_all
qed

lemma data_step:
  assumes r: "receiving path bs c w" and a: "arrives b d (buf, len)"
  shows "total (\<lambda>(c', w'). receiving path (bs @ d) c' w' \<and> queued c' w' = queued c w @ [ack_packet b]
      \<and> c_destroy c' = (if length d < 512 then 1 else c_destroy c)
      \<and> (\<forall>q. q \<noteq> path \<longrightarrow> nodes (w_fs w') q = nodes (w_fs w) q))
    (ProcessPacket c buf len w)"
proof -
  note a = arrivesD [OF a]
  from r have *: "client_ok c w" "c_sendingfile c \<noteq> 0" "appending (c_f c) path bs (w_fs w)"
    by (simp_all add: receiving_def)
  obtain fs where fs: "fwrite d (c_f c) (w_fs w) = Inr (length d, fs)" "appending (c_f c) path (bs @ d) fs"
      "\<forall>q. q \<noteq> path \<longrightarrow> nodes fs q = nodes (w_fs w) q"
    using fwrite_appending [OF *(3), of d] by auto
  have "total (handled c w [ack_packet b]
      (c\<lparr>c_waiting := 0, c_currentblockno := c_currentblockno c + 1,
         c_actualblockno := c_actualblockno c + 1,
         c_destroy := (if len < 516 then 1 else c_destroy c)\<rparr>)
      ((call_event EV_DATA_PACKET w)\<lparr>w_fs := fs\<rparr>)) (process_data c buf len w)"
    by (rule process_data_sat [OF *(1,2) a(3-5,2)]) (use a fs in simp)
  then obtain c' w' where run: "ProcessPacket c buf len w = Inr (c', w')"
    and h: "client_ok c' w'" "queued c' w' = queued c w @ [ack_packet b]" "w_fs w' = fs"
      "c_f c' = c_f c" "c_sendingfile c' = c_sendingfile c"
      "c_destroy c' = (if len < 516 then 1 else c_destroy c)"
    unfolding ProcessPacket_cases(1) [OF a(1)]
    by (auto simp: handled_def same_defs total_ex simp del: sat_and_then)
  have "len < 516 \<longleftrightarrow> length d < 512" using a(7) by auto
  with run h * fs show ?thesis
    by (simp add: receiving_def)
qed

lemma datas_run:
  assumes "receiving path bs c w" "list_all2 (\<lambda>(b, d) p. arrives b d p) xs ps"
  shows "total (\<lambda>(c', w'). receiving path (bs @ concat (map snd xs)) c' w'
      \<and> queued c' w' = queued c w @ map (\<lambda>(b, d). ack_packet b) xs
      \<and> c_destroy c' = (if \<exists>(b, d) \<in> set xs. length d < 512 then 1 else c_destroy c)
      \<and> (\<forall>q. q \<noteq> path \<longrightarrow> nodes (w_fs w') q = nodes (w_fs w) q))
    (process_all ps (c, w))"
  using assms(2,1)
proof (induction xs ps arbitrary: bs c w rule: list_all2_induct)
  case (Cons x xs p ps)
  obtain b d buf len where xp: "x = (b, d)" "p = (buf, len)" by (metis surj_pair)
  obtain c1 w1 where 1: "ProcessPacket c buf len w = Inr (c1, w1)" "receiving path (bs @ d) c1 w1"
      "queued c1 w1 = queued c w @ [ack_packet b]" "c_destroy c1 = (if length d < 512 then 1 else c_destroy c)"
      "\<forall>q. q \<noteq> path \<longrightarrow> nodes (w_fs w1) q = nodes (w_fs w) q"
    using data_step [OF Cons.prems, of b d buf len] Cons.hyps xp by (auto simp: total_ex)
  with xp Cons.IH [OF 1(2)] show ?case
    by (auto simp: total_ex)
qed simp

text \<open>
  What a write request needs: a path that \<open>access\<close> does not refuse for lack of permission
  and that \<open>fopen\<close> can create or truncate.
\<close>

definition writable :: "string \<Rightarrow> filesys \<Rightarrow> bool" where
  "writable path fs = (case nodes fs path of
     Some Dir \<Rightarrow> False | Some (Reg _) \<Rightarrow> w_perm fs path = 0 | None \<Rightarrow> c_perm fs path = 0)"

definition accepts :: "client \<Rightarrow> world \<Rightarrow> byte list \<Rightarrow> string \<Rightarrow> bool" where
  "accepts c w buf path \<longleftrightarrow> client_ok c w \<and> fs_wf (w_fs w) \<and> writable path (w_fs w)
     \<and> (case (cf_directory (w_conf w), parse_request buf) of
          (Some dir, Inr (fn, mode, opt, param)) \<Rightarrow>
            strcasecmp mode ''mail'' \<noteq> 0 \<and> request_path fn (w_conf w) = Inr path
            \<and> access_errno path dir (w_fs w) \<noteq> EACCES
        | _ \<Rightarrow> False)"

lemma fopen_writable:
  assumes "fs_wf fs" "writable path fs"
  shows "\<exists>f fs'. fopen_write path (e, fs) = (f, e, fs') \<and> f \<noteq> 0 \<and> appending f path [] fs'
    \<and> (\<forall>q. q \<noteq> path \<longrightarrow> nodes fs' q = nodes fs q)"
  using assms
  by (auto simp: writable_def fopen_write_def Let_def open_handle_def appending_def fs_wf_def
      split: option.splits fnode.splits)

lemma wrq_receiving:
  assumes a: "accepts c w buf path" and p: "is_packet PACKET_WRQ (buf, len)"
  shows "total (\<lambda>(c', w'). receiving path [] c' w' \<and> queued c' w' = queued c w @ [ack_packet 0]
      \<and> c_destroy c' = c_destroy c \<and> (\<forall>q. q \<noteq> path \<longrightarrow> nodes (w_fs w') q = nodes (w_fs w) q))
    (ProcessPacket c buf len w)"
proof -
  from a obtain fn mode opt param dir where *: "client_ok c w" "fs_wf (w_fs w)" "writable path (w_fs w)"
    "parse_request buf = Inr (fn, mode, opt, param)" "strcasecmp mode ''mail'' \<noteq> 0"
    "cf_directory (w_conf w) = Some dir" "request_path fn (w_conf w) = Inr path"
    "access_errno path dir (w_fs w) \<noteq> EACCES"
    by (auto simp: accepts_def split: option.splits sum.splits)
  let ?e = "access_errno path dir (w_fs w)"
  let ?e' = "if ?e \<noteq> 0 then ?e else w_errno w"
  obtain f fs where op: "fopen_write path (?e', w_fs w) = (f, ?e', fs)" "f \<noteq> 0" "appending f path [] fs"
      "\<forall>q. q \<noteq> path \<longrightarrow> nodes fs q = nodes (w_fs w) q"
    using fopen_writable [OF *(2,3), of ?e'] by blast
  obtain c' w' where run: "process_wrq c buf len w = Inr (c', w')"
    and h: "handled c w [ack_packet 0]
      (c\<lparr>c_waiting := 0, c_f := f, c_currentblockno := 1, c_actualblockno := 1, c_sendingfile := 1\<rparr>)
      (call_event EV_NEWWRITEREQUEST (w\<lparr>w_errno := ?e', w_fs := fs\<rparr>)) (c', w')"
    using process_wrq_ok [OF *(1,4-7) refl *(8) op(1,2), of len] by (auto simp: total_ex simp del: sat_and_then)
  note h = handledD [OF h]
  then have "c_f c' = f" "w_fs w' = fs" "c_sendingfile c' = 1" "c_destroy c' = c_destroy c"
    by (simp_all add: same_defs)
  with run h op show ?thesis
    by (simp add: ProcessPacket_cases(4) [OF p] receiving_def)
qed

text \<open>
  A write request and DATA packets: the file ends up as the payloads in the order of
  arrival, every packet is acknowledged with its own number, and no other file changes.
\<close>

lemma write_run:
  assumes a: "accepts c w buf path" and p: "is_packet PACKET_WRQ (buf, len)"
    and datas: "list_all2 (\<lambda>(b, d) p. arrives b d p) xs ps"
  shows "total (\<lambda>(c', w'). nodes (w_fs w') path = Some (Reg (concat (map snd xs)))
      \<and> queued c' w' = queued c w @ ack_packet 0 # map (\<lambda>(b, d). ack_packet b) xs
      \<and> ((\<exists>(b, d) \<in> set xs. length d < 512) \<longrightarrow> c_destroy c' = 1)
      \<and> (\<forall>q. q \<noteq> path \<longrightarrow> nodes (w_fs w') q = nodes (w_fs w) q))
    (process_all ((buf, len) # ps) (c, w))"
proof -
  obtain c1 w1 where 1: "ProcessPacket c buf len w = Inr (c1, w1)" "receiving path [] c1 w1"
      "queued c1 w1 = queued c w @ [ack_packet 0]"
      "\<forall>q. q \<noteq> path \<longrightarrow> nodes (w_fs w1) q = nodes (w_fs w) q"
    using wrq_receiving [OF a p] by (auto simp: total_ex)
  with datas_run [OF 1(2) datas] show ?thesis
    by (auto simp: total_ex receiving_def appending_def)
qed

end
