(* ===== verification/Clients.thy ===== *)
theory Clients
  imports Sockets
begin

text \<open>
  The client pool of src/src/client.c: finding, adding, removing and checking clients.
  The pool is the list of pointers \<open>w_pool\<close>, in the order of the vector.
\<close>

section \<open>Finding\<close>

text \<open>\<open>c->tid\<close> and \<open>GetPort(s)\<close> are short; the negation and the comparison are those of int.\<close>

definition tid_matches :: "client \<Rightarrow> int \<Rightarrow> sockaddr \<Rightarrow> bool" where
  "tid_matches cl fd a \<longleftrightarrow> sk_fd (c_s cl) = fd \<and> sint (c_tid cl) = - sint (GetPort a)"

fun find_client :: "int \<Rightarrow> sockaddr \<Rightarrow> addr list \<Rightarrow> world \<Rightarrow> fault + addr" where
  "find_client fd a [] w = Inr NULL"
| "find_client fd a (c # cs) w =
     and_then (client_at c w) (\<lambda>cl. if tid_matches cl fd a then Inr c else find_client fd a cs w)"

definition FindClient :: "int \<Rightarrow> sockaddr \<Rightarrow> world \<Rightarrow> fault + addr" where
  "FindClient fd a w = find_client fd a (w_pool w) w"

definition CompareClients :: "addr \<Rightarrow> addr \<Rightarrow> world \<Rightarrow> fault + bool" where
  "CompareClients c1 c2 w =
     (if c1 = NULL \<or> c2 = NULL then Inl Assert_failed
      else and_then (client_at c1 w) (\<lambda>a. and_then (client_at c2 w) (\<lambda>b. Inr (c_tid a = c_tid b))))"

section \<open>Removing\<close>

text \<open>\<open>free\<close> of each packet of the queue whose \<open>allocated\<close> is not 0.\<close>

definition free_packets :: "packetqueue list \<Rightarrow> heap \<Rightarrow> fault + heap" where
  "free_packets = fold_res (\<lambda>pq h. if pq_allocated pq \<noteq> 0 then free (pq_p pq) h else Inr h)"

definition RemoveClient :: "addr \<Rightarrow> world \<Rightarrow> fault + world" where
  "RemoveClient c w =
     (if c = NULL then Inl Assert_failed
      else and_then (client_at c w) (\<lambda>cl.
        and_then (DestroySocket (c_s cl) False w) (\<lambda>w1.
        and_then (free_packets (c_queue cl) (w_mem w1)) (\<lambda>h1.
        and_then (if pq_allocated (c_lastpacket cl) \<noteq> 0
                  then free (pq_p (c_lastpacket cl)) h1 else Inr h1) (\<lambda>h2.
        and_then (if c_blk cl \<noteq> NULL then free (c_blk cl) h2 else Inr h2) (\<lambda>h3.
          Inr (w1\<lparr>w_mem := h3, w_pool := remove1 c (w_pool w1),
                  w_clients := (w_clients w1)(c := None)\<rparr>)))))))"

section \<open>Adding\<close>

text \<open>
  \<open>AddClient\<close> assigns to the client after it may have removed it: in that case the two
  assignments are a use after free.
\<close>

definition AddClient :: "addr \<Rightarrow> world \<Rightarrow> fault + world" where
  "AddClient c w =
     (if c = NULL then Inl Assert_failed
      else and_then (list_push c (w_pool w, w_mem w)) (\<lambda>(pool, h).
        and_then (client_at c w) (\<lambda>cl0.
        let w1 = set_client c (cl0\<lparr>c_queue := []\<rparr>) (w\<lparr>w_pool := pool, w_mem := h\<rparr>) in
        and_then (if w_errno w1 = ENOMEM then RemoveClient c w1 else Inr w1) (\<lambda>w2.
        and_then (client_at c w2) (\<lambda>cl.
          Inr (set_client c (cl\<lparr>c_tid := - GetPort (sk_addr (c_s cl)), c_blksize := 512\<rparr>) w2))))))"

text \<open>A client structure is allocated like any other block, and freed like one.\<close>

definition new_client :: "world \<Rightarrow> fault + addr \<times> world" where
  "new_client w =
     (let h = w_mem w in
      if oom h (brk h) then Inl Exit_failure
      else Inr (brk h, set_client (brk h) zero_client (w\<lparr>w_mem := h\<lparr>brk := Suc (brk h)\<rparr>\<rparr>)))"

definition free_client :: "addr \<Rightarrow> world \<Rightarrow> fault + world" where
  "free_client c w =
     (if w_clients w c = None then Inl Invalid_free
      else Inr (w\<lparr>w_clients := (w_clients w)(c := None)\<rparr>))"

definition FindOrAllocateClient :: "int \<Rightarrow> sockaddr \<Rightarrow> world \<Rightarrow> fault + addr \<times> world" where
  "FindOrAllocateClient fd a w =
     and_then (FindClient fd a w) (\<lambda>found.
       if found \<noteq> NULL then Inr (found, w)
       else and_then (new_client w) (\<lambda>(c, w1).
         and_then (AddSocket fd None a False w1) (\<lambda>((r, sock), w2).
           if r = - 1 then and_then (free_client c w2) (\<lambda>w3. Inr (NULL, w3))
           else and_then (client_at c w2) (\<lambda>cl.
             let w3 = set_client c (cl\<lparr>c_s := sock, c_queue := []\<rparr>) w2 in
             if w_errno w3 = ENOMEM then Inr (NULL, w3)
             else and_then (AddClient c w3) (\<lambda>w4. Inr (c, w4))))))"

section \<open>All clients\<close>

text \<open>
  \<open>vec_foreach\<close> over the pool, with the pool and its length read again in every round.
  A body answers 0 to go on. The number of rounds is bounded by the first argument; see
  \<open>pool_loop_fuel\<close>.
\<close>

fun pool_loop ::
  "(addr \<Rightarrow> world \<Rightarrow> fault + int \<times> world) \<Rightarrow> nat \<Rightarrow> nat \<Rightarrow> world \<Rightarrow> fault + int \<times> world" where
  "pool_loop body 0 i w = Inr (0, w)"
| "pool_loop body (Suc n) i w =
     (if i < length (w_pool w)
      then and_then (body (w_pool w ! i) w) (\<lambda>(r, w').
             if r \<noteq> 0 then Inr (r, w') else pool_loop body n (Suc i) w')
      else Inr (0, w))"

definition check_client :: "addr \<Rightarrow> world \<Rightarrow> fault + int \<times> world" where
  "check_client c w =
     and_then (client_at c w) (\<lambda>cl.
       if c_waiting cl \<noteq> 0 \<and> c_nextresend cl \<le> w_now w
       then let cl1 = cl\<lparr>c_waiting := c_waiting cl + 1\<rparr>; w1 = set_client c cl1 w in
         if 3 \<le> c_waiting cl then and_then (RemoveClient c w1) (\<lambda>w2. Inr (0, w2))
         else let w2 = call_event EV_RESEND w1; lp = c_lastpacket cl1 in
           and_then (QueuePacket cl1 (pq_p lp) (pq_len lp) 2 w2) (\<lambda>(cl2, w3).
             Inr (0, set_client c cl2 w3))
       else Inr (0, w))"

definition CheckClients :: "world \<Rightarrow> fault + world" where
  "CheckClients w =
     and_then (pool_loop check_client (length (w_pool w)) 0 w) (\<lambda>(_, w'). Inr w')"

fun free_clients :: "addr list \<Rightarrow> world \<Rightarrow> fault + world" where
  "free_clients [] w = Inr w"
| "free_clients (c # cs) w =
     and_then (client_at c w) (\<lambda>cl. and_then (free_client c w) (free_clients cs))"

definition DeallocateClients :: "world \<Rightarrow> fault + world" where
  "DeallocateClients w =
     and_then (free_clients (w_pool w) w) (\<lambda>w'. Inr (w'\<lparr>w_pool := []\<rparr>))"

section \<open>The loop over the pool\<close>

text \<open>
  What a body of \<open>vec_foreach(&clientpool, ...)\<close> promises: it never makes the pool longer.
  Then as many rounds as the pool has clients are enough.
\<close>

locale pool_body =
  fixes body :: "addr \<Rightarrow> world \<Rightarrow> fault + int \<times> world"
  assumes shrinks: "body c w = Inr (r, w') \<Longrightarrow> length (w_pool w') \<le> length (w_pool w)"
begin

lemma pool_loop_done: "length (w_pool w) \<le> i \<Longrightarrow> pool_loop body n i w = Inr (0, w)"
  by (cases n) auto

lemma pool_loop_fuel:
  "length (w_pool w) \<le> n + i \<Longrightarrow> pool_loop body (n + k) i w = pool_loop body n i w"
proof (induction n arbitrary: i w)
  case 0
  then show ?case by (simp add: pool_loop_done)
next
  case (Suc n)
  show ?case
  proof (cases "i < length (w_pool w) \<and> (\<exists>w'. body (w_pool w ! i) w = Inr (0, w'))")
    case True
    then obtain w' where w': "body (w_pool w ! i) w = Inr (0, w')" by blast
    with shrinks [OF w'] Suc.prems True Suc.IH [of w' "Suc i"] show ?thesis by simp
  next
    case False
    then show ?thesis
      by (cases "body (w_pool w ! i) w") auto
  qed
qed

end

lemma pool_loop_inv:
  assumes "I w" and "\<And>c w. I w \<Longrightarrow> c \<in> set (w_pool w) \<Longrightarrow> sat E (\<lambda>(r, w'). I w') (body c w)"
  shows "sat E (\<lambda>(r, w'). I w') (pool_loop body n i w)"
  using assms(1)
proof (induction n arbitrary: i w)
  case (Suc n)
  show ?case
  proof (cases "i < length (w_pool w)")
    case True
    then have "sat E (\<lambda>(r, w'). I w') (body (w_pool w ! i) w)"
      by (intro assms(2) Suc.prems nth_mem)
    then show ?thesis
      using True by (auto elim!: sat_mono intro: Suc.IH)
  qed (simp add: Suc.prems)
qed simp

section \<open>Finding the client of a packet\<close>

text \<open>Every pointer of the pool is to a live client.\<close>

definition pool_live :: "world \<Rightarrow> bool" where
  "pool_live w \<longleftrightarrow> (\<forall>c \<in> set (w_pool w). c \<noteq> NULL \<and> w_clients w c \<noteq> None)"

definition or_null :: "addr option \<Rightarrow> addr" where
  "or_null r = (case r of None \<Rightarrow> NULL | Some c \<Rightarrow> c)"

lemma find_client_find:
  "(\<forall>c \<in> set cs. c \<noteq> NULL \<and> w_clients w c \<noteq> None) \<Longrightarrow>
     find_client fd a cs w
     = Inr (or_null (find (\<lambda>c. tid_matches (the (w_clients w c)) fd a) cs))"
  by (induction cs) (auto simp: client_at_def or_null_def)

lemma FindClient_find:
  "pool_live w \<Longrightarrow> FindClient fd a w
     = Inr (or_null (find (\<lambda>c. tid_matches (the (w_clients w c)) fd a) (w_pool w)))"
  by (simp add: FindClient_def pool_live_def find_client_find)

text \<open>
  A client created for a port has the negated port as its id. It matches exactly the
  addresses with the same port, of any host, except for the port whose negation
  overflows a short: no client is ever found for that one.
\<close>

lemma sint_uminus_neq_8000: "sint (- (x :: 16 word)) = - sint y \<longleftrightarrow> y = x \<and> y \<noteq> 0x8000"
proof (cases "x = 0x8000")
  case True
  then have "sint (- x) = - 32768" by simp
  with True sint_16_range [of y] show ?thesis by auto
next
  case False
  then show ?thesis
    by (auto simp: sint_uminus_16 sint_16_eq)
qed

lemma tid_matches_created:
  "c_tid cl = - GetPort b \<Longrightarrow> tid_matches cl fd a \<longleftrightarrow>
     sk_fd (c_s cl) = fd \<and> GetPort a = GetPort b \<and> GetPort a \<noteq> 0x8000"
  by (auto simp: tid_matches_def sint_uminus_neq_8000)

lemma tid_matches_8000: "GetPort a = 0x8000 \<Longrightarrow> \<not> tid_matches cl fd a"
  using sint_16_range [of "c_tid cl"] by (auto simp: tid_matches_def)

lemma find_False: "(\<And>x. x \<in> set xs \<Longrightarrow> \<not> P x) \<Longrightarrow> find P xs = None"
  by (simp add: find_None_iff)

lemma FindClient_8000: "pool_live w \<Longrightarrow> GetPort a = 0x8000 \<Longrightarrow> FindClient fd a w = Inr NULL"
  by (simp add: FindClient_find tid_matches_8000 find_False or_null_def)

section \<open>Frames\<close>

text \<open>What the socket pool and the client pool never touch.\<close>

definition same_outside :: "world \<Rightarrow> world \<Rightarrow> bool" where
  "same_outside w w' \<longleftrightarrow> w_now w' = w_now w \<and> w_net w' = w_net w \<and> w_fs w' = w_fs w
     \<and> w_mods w' = w_mods w \<and> w_conf w' = w_conf w \<and> w_strerror w' = w_strerror w"

lemma same_outside_refl [simp]: "same_outside w w"
  by (simp add: same_outside_def)

lemma same_outside_trans [trans]:
  "same_outside w w1 \<Longrightarrow> same_outside w1 w2 \<Longrightarrow> same_outside w w2"
  by (simp add: same_outside_def)

text \<open>Sockets leave the pool, and the multiplexer stays of its kind.\<close>

definition socks_shrink :: "world \<Rightarrow> world \<Rightarrow> bool" where
  "socks_shrink w w' \<longleftrightarrow> length (w_socks w') \<le> length (w_socks w) \<and> set (w_socks w') \<subseteq> set (w_socks w)
     \<and> mux_le (w_mux w) (w_mux w')"

lemma socks_shrink_refl [simp]: "socks_shrink w w"
  by (simp add: socks_shrink_def)

lemma socks_shrink_trans [trans]: "socks_shrink w w1 \<Longrightarrow> socks_shrink w1 w2 \<Longrightarrow> socks_shrink w w2"
  by (auto simp: socks_shrink_def intro: mux_le_trans)

lemma free_frame: "free p h = Inr h' \<Longrightarrow> brk h' = brk h \<and> oom h' = oom h"
  by (auto simp: free_def split: if_splits)

lemma free_packets_frame: "free_packets q h = Inr h' \<Longrightarrow> brk h' = brk h \<and> oom h' = oom h"
  by (induction q arbitrary: h)
    (auto simp: free_packets_def and_then_eq_Inr split: if_splits dest!: free_frame)

lemma DestroySocket_frame:
  assumes run: "DestroySocket s b w = Inr w'"
  shows "w_clients w' = w_clients w \<and> w_pool w' = w_pool w
     \<and> same_outside w w' \<and> w_errno w' = w_errno w \<and> brk (w_mem w') = brk (w_mem w)
     \<and> socks_shrink w w'"
proof -
  from run obtain w1 r socks h1 h2 where
    w1: "(if b then and_then (RemoveFromMultiplexer (sk_fd s) (sk_flags s) (w_mux w)) (\<lambda>(r, m). Inr (w\<lparr>w_mux := m\<rparr>))
          else Inr w) = Inr w1"
    and socks: "(case r of None \<Rightarrow> Inr (w_socks w1) | Some i \<Rightarrow> list_delete_at i (w_socks w1)) = Inr socks"
    and h: "free (sk_bindaddr s) (w_mem w1) = Inr h1" "free (sk_packet s) h1 = Inr h2"
    and w': "w' = w1\<lparr>w_socks := socks, w_mux := (if b then close_fd (sk_fd s) (w_mux w1) else w_mux w1), w_mem := h2\<rparr>"
    by (cases b) (auto simp: DestroySocket_def and_then_eq_Inr Let_def)
  have "\<exists>m. w1 = w\<lparr>w_mux := m\<rparr> \<and> mux_le (w_mux w) m"
    using w1 by (cases b) (auto simp: and_then_eq_Inr intro: RemoveFromMultiplexer_le exI [of _ "w_mux w"])
  then obtain m where "w1 = w\<lparr>w_mux := m\<rparr>" "mux_le (w_mux w) m" by blast
  moreover have "length socks \<le> length (w_socks w1) \<and> set socks \<subseteq> set (w_socks w1)"
    using socks by (auto simp: list_delete_at_def split: option.splits if_splits dest!: in_set_takeD in_set_dropD)
  ultimately show ?thesis
    using w' free_frame [OF h(1)] free_frame [OF h(2)]
    by (auto simp: same_outside_def socks_shrink_def intro: mux_le_trans)
qed

lemma RemoveClient_frame:
  assumes "RemoveClient c w = Inr w'"
  shows "c \<noteq> NULL \<and> w_pool w' = remove1 c (w_pool w) \<and> w_clients w' = (w_clients w)(c := None)
    \<and> same_outside w w' \<and> w_errno w' = w_errno w \<and> brk (w_mem w') = brk (w_mem w)
    \<and> socks_shrink w w'"
  using assms unfolding RemoveClient_def
  by (auto simp: and_then_eq_Inr same_outside_def socks_shrink_def split: if_splits
      dest!: DestroySocket_frame free_frame free_packets_frame)

lemma AddSocket_frame:
  assumes "AddSocket fd addr a False w = Inr ((r, sock), w')"
  shows "w_clients w' = w_clients w \<and> w_pool w' = w_pool w \<and> same_outside w w'
    \<and> brk (w_mem w) \<le> brk (w_mem w') \<and> mux_le (w_mux w) (w_mux w')
    \<and> (r = 0 \<and> sk_fd sock = fd \<and> sk_addr sock = a \<and> w_errno w' \<noteq> ENOMEM
        \<and> w_socks w' = w_socks w @ [sock] \<or> r = - 1)"
  using assms unfolding AddSocket_def
  by (auto simp: and_then_eq_Inr Let_def same_outside_def socks_shrink_def
      split: option.splits prod.splits if_splits dest!: strdup_brk nmalloc_brk list_push_extends DestroySocket_frame)

text \<open>When it succeeds, memory has only grown, and the packet of the new socket is new.\<close>

lemma AddSocket_extends:
  assumes run: "AddSocket fd addr a False w = Inr ((0, sock), w')"
  shows "extends (w_mem w) (w_mem w') \<and> brk (w_mem w) \<le> sk_packet sock \<and> sk_packet sock < brk (w_mem w')"
proof -
  obtain nm where nm: "(case addr of Some x \<Rightarrow> Some x | None \<Rightarrow> ntop (w_net w) a) = Some nm"
    using run by (auto simp: AddSocket_def split: option.splits)
  obtain ba h1 where d: "strdup nm (w_mem w) = (ba, h1)" by (metis surj_pair)
  from run nm d obtain pk h2 socks h4 where n: "nmalloc SOCK_PKTLEN h1 = Inr (pk, h2)"
    and l: "list_push sock (w_socks w, h2) = Inr (socks, h4)" and r: "sk_packet sock = pk" "w_mem w' = h4"
    by (auto simp: AddSocket_def and_then_eq_Inr Let_def split: if_splits)
  have "extends (w_mem w) h1" using d by (auto simp: strdup_def malloc_def extends_def split: if_splits)
  moreover have "extends h1 h2 \<and> pk = brk h1 \<and> brk h2 = Suc (brk h1)"
    using n by (auto simp: nmalloc_def malloc_def memset_def store_def extends_def and_then_eq_Inr split: if_splits option.splits)
  moreover have "extends h2 h4" using list_push_extends [OF l] by simp
  ultimately show ?thesis using r by (auto simp: extends_def)
qed

section \<open>The client of a packet\<close>

text \<open>
  The pool holds each live client once, and every client was allocated before.
\<close>

definition pool_wf :: "world \<Rightarrow> bool" where
  "pool_wf w \<longleftrightarrow> 0 < brk (w_mem w) \<and> distinct (w_pool w)
     \<and> (\<forall>c \<in> set (w_pool w). w_clients w c \<noteq> None)
     \<and> (\<forall>c. w_clients w c \<noteq> None \<longrightarrow> 0 < c \<and> c < brk (w_mem w))"

lemma pool_wf_live: "pool_wf w \<Longrightarrow> pool_live w"
  by (auto simp: pool_wf_def pool_live_def)

lemma RemoveClient_pool_wf: "RemoveClient c w = Inr w' \<Longrightarrow> pool_wf w \<Longrightarrow> pool_wf w'"
  by (auto simp: pool_wf_def set_remove1_eq split: if_splits dest!: RemoveClient_frame)

lemma AddClient_frame:
  assumes "AddClient c w = Inr w'" "w_errno w \<noteq> ENOMEM"
  shows "\<exists>cl. w_clients w c = Some cl \<and> w_pool w' = w_pool w @ [c] \<and> same_outside w w'
    \<and> w_socks w' = w_socks w \<and> w_mux w' = w_mux w \<and> brk (w_mem w') = Suc (brk (w_mem w)) \<and> c \<noteq> NULL
    \<and> w_errno w' = w_errno w \<and> extends (w_mem w) (w_mem w')
    \<and> w_clients w' = (w_clients w)(c \<mapsto> cl\<lparr>c_queue := [], c_tid := - GetPort (sk_addr (c_s cl)),
        c_blksize := 512\<rparr>)"
  using assms unfolding AddClient_def
  by (auto simp: and_then_eq_Inr Let_def client_at_def set_client_def same_outside_def
      split: option.splits if_splits dest!: list_push_extends)

lemma FindClient_NULL:
  assumes "pool_wf w"
  shows "FindClient fd a w = Inr NULL
    \<longleftrightarrow> (\<forall>c \<in> set (w_pool w). \<not> tid_matches (the (w_clients w c)) fd a)"
proof (cases "find (\<lambda>c. tid_matches (the (w_clients w c)) fd a) (w_pool w)")
  case (Some c)
  then obtain i where i: "i < length (w_pool w)" "c = w_pool w ! i"
      "tid_matches (the (w_clients w c)) fd a"
    by (auto simp: find_Some_iff)
  then have c: "c \<in> set (w_pool w)" by simp
  with assms have "c \<noteq> NULL" by (auto simp: pool_wf_def)
  then have "FindClient fd a w \<noteq> Inr NULL"
    using Some by (simp add: FindClient_find [OF pool_wf_live [OF assms]] or_null_def)
  with c i(3) show ?thesis by blast
next
  case None
  then have "FindClient fd a w = Inr NULL"
    by (simp add: FindClient_find [OF pool_wf_live [OF assms]] or_null_def)
  with None show ?thesis
    by (simp add: find_None_iff)
qed

text \<open>A client as \<open>FindOrAllocateClient\<close> makes it for a packet from \<open>a\<close> on \<open>fd\<close>.\<close>

definition fresh_client :: "int \<Rightarrow> sockaddr \<Rightarrow> socket \<Rightarrow> client" where
  "fresh_client fd a sock = zero_client\<lparr>c_s := sock, c_tid := - GetPort a, c_blksize := 512\<rparr>"

lemma FindOrAllocateClient_cases:
  assumes wf: "pool_wf w" and run: "FindOrAllocateClient fd a w = Inr (c, w')" and c: "c \<noteq> NULL"
  obtains (found) cl where "w' = w" "c \<in> set (w_pool w)" "w_clients w c = Some cl"
      "tid_matches cl fd a" "FindClient fd a w = Inr c"
  | (new) sock where "FindClient fd a w = Inr NULL" "w_clients w c = None"
      "w_pool w' = w_pool w @ [c]" "w_clients w' = (w_clients w)(c \<mapsto> fresh_client fd a sock)"
      "sk_fd sock = fd" "sk_addr sock = a" "w_socks w' = w_socks w @ [sock]"
      "same_outside w w'" "pool_wf w'"
      "extends (w_mem w) (w_mem w')" "brk (w_mem w) \<le> sk_packet sock" "sk_packet sock < brk (w_mem w')"
proof -
  let ?P = "\<lambda>c. tid_matches (the (w_clients w c)) fd a"
  have find: "FindClient fd a w = Inr (or_null (find ?P (w_pool w)))"
    by (rule FindClient_find [OF pool_wf_live [OF wf]])
  show thesis
  proof (cases "find ?P (w_pool w)")
    case (Some c0)
    from Some obtain i where i: "i < length (w_pool w)" "?P (w_pool w ! i)" "c0 = w_pool w ! i"
      by (auto simp: find_Some_iff)
    then have c0: "c0 \<in> set (w_pool w)" by simp
    then obtain cl where cl: "w_clients w c0 = Some cl" "c0 \<noteq> NULL"
      using wf by (auto simp: pool_wf_def)
    with run find Some have "c = c0" "w' = w"
      by (auto simp: FindOrAllocateClient_def or_null_def)
    with c0 cl i find Some show thesis
      by (intro found) (auto simp: or_null_def)
  next
    case None
    let ?w1 = "set_client (brk (w_mem w)) zero_client
       (w\<lparr>w_mem := (w_mem w)\<lparr>brk := Suc (brk (w_mem w))\<rparr>\<rparr>)"
    from run find None obtain r sock w2 where nc: "new_client w = Inr (brk (w_mem w), ?w1)"
      and add: "AddSocket fd None a False ?w1 = Inr ((r, sock), w2)"
      by (auto simp: FindOrAllocateClient_def or_null_def and_then_eq_Inr new_client_def Let_def
          split: if_splits)
    note frame = AddSocket_frame [OF add]
    have c': "c = brk (w_mem w)" and r: "r = 0"
      using run find None nc add c frame
      by (auto simp: FindOrAllocateClient_def or_null_def and_then_eq_Inr Let_def split: if_splits)
    let ?cl = "zero_client\<lparr>c_s := sock, c_queue := []\<rparr>"
    have at: "client_at c w2 = Inr zero_client"
      using frame c c' by (simp add: client_at_def set_client_def)
    have add': "AddClient c (set_client c ?cl w2) = Inr w'"
      using run find None nc add c frame r at c'
      by (auto simp: FindOrAllocateClient_def or_null_def and_then_eq_Inr Let_def set_client_def
          split: if_splits)
    note frame' = AddClient_frame [OF add']
    have ext: "extends ((w_mem w)\<lparr>brk := Suc (brk (w_mem w))\<rparr>) (w_mem w2)"
        "brk (w_mem w) < sk_packet sock" "sk_packet sock < brk (w_mem w2)"
      using AddSocket_extends [OF add [unfolded r]] by (auto simp: set_client_def)
    show thesis
    proof (rule new [of sock])
      show "FindClient fd a w = Inr NULL"
        using find None by (simp add: or_null_def)
      show "w_clients w c = None"
        using wf c' by (auto simp: pool_wf_def)
      show "w_clients w' = (w_clients w)(c \<mapsto> fresh_client fd a sock)"
        using frame frame' r c' by (auto simp: set_client_def fresh_client_def zero_client_def)
      show "pool_wf w'"
        using wf frame frame' r c' 
        by (fastforce simp: pool_wf_def set_client_def)
      show "extends (w_mem w) (w_mem w')" "brk (w_mem w) \<le> sk_packet sock" "sk_packet sock < brk (w_mem w')"
        using ext frame frame' r by (auto simp: extends_def set_client_def)
    qed (use frame frame' r c' in \<open>auto simp: set_client_def same_outside_def\<close>)
  qed
qed

text \<open>
  The client a packet was given to is the one the next packet from the same port on the
  same descriptor finds.
\<close>

lemma FindOrAllocateClient_again:
  assumes wf: "pool_wf w" and run: "FindOrAllocateClient fd a w = Inr (c, w')" and c: "c \<noteq> NULL"
    and port: "GetPort a \<noteq> 0x8000" "GetPort b = GetPort a"
  shows "FindClient fd b w' = Inr c"
proof -
  have same: "tid_matches cl fd b = tid_matches cl fd a" for cl
    by (simp add: tid_matches_def port)
  have ab: "FindClient fd b w' = FindClient fd a w'"
  proof -
    have "find_client fd b cs w' = find_client fd a cs w'" for cs
      by (induction cs) (simp_all add: same cong: if_cong)
    then show ?thesis by (simp add: FindClient_def)
  qed
  show ?thesis
    using wf run c
  proof (cases rule: FindOrAllocateClient_cases)
    case (found cl)
    with ab show ?thesis by simp
  next
    case (new sock)
    have "tid_matches (fresh_client fd a sock) fd a"
      using new port by (simp add: fresh_client_def tid_matches_created)
    moreover have "\<not> tid_matches (the (w_clients w' x)) fd a" if "x \<in> set (w_pool w)" for x
      using new that wf by (auto simp: FindClient_NULL pool_wf_def)
    ultimately show ?thesis
      using ab new by (simp add: FindClient_find [OF pool_wf_live] find_snoc or_null_def)
  qed
qed

section \<open>Resending\<close>

lemma check_client_shrinks:
  "check_client c w = Inr (r, w') \<Longrightarrow> length (w_pool w') \<le> length (w_pool w)"
  unfolding check_client_def
  by (auto simp: and_then_eq_Inr Let_def set_client_def same_world_def length_remove1
      split: if_splits dest!: RemoveClient_frame QueuePacket_frame)

interpretation check: pool_body check_client
  by unfold_locales (rule check_client_shrinks)

text \<open>While no client is marked as waiting, checking the clients does nothing.\<close>

definition none_waiting :: "world \<Rightarrow> bool" where
  "none_waiting w \<longleftrightarrow> (\<forall>c \<in> set (w_pool w). \<forall>cl. w_clients w c = Some cl \<longrightarrow> c_waiting cl = 0)"

lemma check_loop_quiet:
  "pool_live w \<Longrightarrow> none_waiting w \<Longrightarrow> pool_loop check_client n i w = Inr (0, w)"
proof (induction n arbitrary: i)
  case (Suc n)
  have "check_client (w_pool w ! i) w = Inr (0, w)" if "i < length (w_pool w)"
    using nth_mem [OF that] Suc.prems
    by (auto simp: check_client_def pool_live_def none_waiting_def client_at_def dest!: bspec)
  with Suc show ?case by simp
qed simp

lemma CheckClients_quiet: "pool_live w \<Longrightarrow> none_waiting w \<Longrightarrow> CheckClients w = Inr w"
  by (simp add: CheckClients_def check_loop_quiet)

end
