(* ===== verification/Transport.thy ===== *)
theory Transport
  imports Clients Process_Packet
begin

text \<open>
  Sending and receiving: \<open>SendPackets\<close> and \<open>ReceivePackets\<close> of src/src/socket.c and
  \<open>ProcessSockets\<close> of the four multiplexers. What the kernel reports
  is an argument: descriptors and their events, in the bits of epoll, which poll shares; for kqueue
  filter and flags of an event are the two halves of the bits. The argument is arbitrary, not only what a kernel
  would report of the descriptors it was told to watch: what is shown for every report holds for those.
  On a non-blocking socket with nothing to read \<open>recvfrom\<close> fails with
  \<open>EAGAIN\<close>. A datagram is sent whole or not at all. The error number of
  a failed \<open>sendto\<close> is not kept: nothing reads it before \<open>ReceivePackets\<close> clears it.
\<close>

section \<open>SendPackets\<close>

text \<open>
  The inner loop, over the queue of the client \<open>c\<close>. When \<open>sendto\<close> fails the function
  returns at once, and the packets that were sent and freed stay in the queue.
\<close>

fun send_queue :: "addr \<Rightarrow> packetqueue list \<Rightarrow> world \<Rightarrow> fault + int \<times> world" where
  "send_queue c [] w = Inr (0, w)"
| "send_queue c (pq # pqs) w =
     and_then (client_at c w) (\<lambda>cl.
     and_then (load (pq_p pq) 0 (pq_len pq) (w_mem w)) (\<lambda>bytes.
     let w1 = call_event EV_SENDING_PACKETS w;
         net = w_net w1;
         net1 = net\<lparr>nsend := Suc (nsend net)\<rparr> in
     if send_fail net (nsend net) then Inr (- 1, w1\<lparr>w_net := net1\<rparr>)
     else
       let net2 = net1\<lparr>sent := sent net1 @ [(sk_fd (c_s cl), sk_addr (c_s cl), bytes)]\<rparr>;
           w2 = set_client c (cl\<lparr>c_bytestransferred := c_bytestransferred cl + int (pq_len pq)\<rparr>)
                  (w1\<lparr>w_net := net2\<rparr>) in
       and_then (if pq_allocated pq \<noteq> 0 \<and> pq_allocated pq \<noteq> 2
                 then free (pq_p pq) (w_mem w2) else Inr (w_mem w2)) (\<lambda>h.
         send_queue c pqs (w2\<lparr>w_mem := h\<rparr>))))"

text \<open>The body of the outer loop.\<close>

definition send_client :: "addr \<Rightarrow> world \<Rightarrow> fault + int \<times> world" where
  "send_client c w =
     and_then (client_at c w) (\<lambda>cl0.
     and_then (send_queue c (c_queue cl0) w) (\<lambda>(r, w1).
       if r \<noteq> 0 then Inr (- 1, w1)
       else and_then (client_at c w1) (\<lambda>cl.
       and_then (SetSocketStatus (sk_fd (c_s cl)) SF_READABLE (sk_flags (c_s cl)) (w_mux w1)) (\<lambda>(_, fl, m).
         let cl1 = cl\<lparr>c_queue := [], c_s := (c_s cl)\<lparr>sk_flags := fl\<rparr>\<rparr>;
             w2 = set_client c cl1 (w1\<lparr>w_mux := m\<rparr>) in
         if c_destroy cl1 = 0 then Inr (0, w2)
         else and_then (if c_f cl1 \<noteq> 0 then fclose (c_f cl1) (w_fs w2) else Inr (w_fs w2)) (\<lambda>fs.
              and_then (RemoveClient c (w2\<lparr>w_fs := fs\<rparr>)) (\<lambda>w3. Inr (0, w3)))))))"

definition SendPackets :: "world \<Rightarrow> fault + int \<times> world" where
  "SendPackets w = pool_loop send_client (length (w_pool w)) 0 w"

section \<open>ReceivePackets\<close>

definition recvfrom :: "int \<Rightarrow> network \<Rightarrow> recv \<times> network" where
  "recvfrom fd net =
     (case inq net fd of
        [] \<Rightarrow> (Recv_error EAGAIN, net)
      | r # rs \<Rightarrow> (r, net\<lparr>inq := (inq net)(fd := rs)\<rparr>))"

definition ReceivePackets :: "socket \<Rightarrow> world \<Rightarrow> fault + int \<times> world" where
  "ReceivePackets s w =
     and_then (memset (sk_packet s) NUL (sk_pktlen s) (w_mem w)) (\<lambda>h1.
     case recvfrom (sk_fd s) (w_net w) of (r, net) \<Rightarrow>
       let w1 = w\<lparr>w_mem := h1, w_net := net, w_errno := 0\<rparr> in
       case r of
         Recv_error e \<Rightarrow> Inr (if e = EAGAIN \<or> e = EINTR then 0 else - 1, w1\<lparr>w_errno := e\<rparr>)
       | Recv_packet data from \<Rightarrow>
           let bytes = take (sk_pktlen s) data; recvlen = length bytes in
           and_then (store (sk_packet s) 0 bytes h1) (\<lambda>h2.
           and_then (FindOrAllocateClient (sk_fd s) from (w1\<lparr>w_mem := h2\<rparr>)) (\<lambda>(c, w2).
           and_then (client_at c w2) (\<lambda>cl.
           let cl1 = cl\<lparr>c_bytestransferred := c_bytestransferred cl + int recvlen\<rparr>;
               w3 = call_event EV_RECEIVING_PACKETS (set_client c cl1 w2) in
           and_then (load (sk_packet s) 0 (sk_pktlen s) (w_mem w3)) (\<lambda>buf.
           and_then (ProcessPacket cl1 buf recvlen w3) (\<lambda>(cl2, w4).
             Inr (0, set_client c cl2 w4)))))))"

section \<open>ProcessSockets\<close>

text \<open>
  What all multiplexers do with a socket that has an event: destroy it on an error, else send
  and receive, and destroy it when one of these fails. \<open>inp\<close> is evaluated after sending, as
  in the source.
\<close>

definition serve_socket :: "socket \<Rightarrow> bool \<Rightarrow> bool \<Rightarrow> (world \<Rightarrow> bool) \<Rightarrow> world \<Rightarrow> fault + world" where
  "serve_socket s err out inp w =
     (if err then DestroySocket s True w
      else
        and_then (if out
                  then and_then (SendPackets w) (\<lambda>(r, w2).
                         if r = - 1 then DestroySocket s True w2 else Inr w2)
                  else Inr w) (\<lambda>w3.
        if inp w3
        then and_then (ReceivePackets s w3) (\<lambda>(r, w4).
               if r = - 1 then DestroySocket s True w4 else Inr w4)
        else Inr w3))"

subsection \<open>epoll\<close>

text \<open>The handling of one event \<open>(fd, events)\<close>.\<close>

definition process_event :: "int \<times> flags \<Rightarrow> world \<Rightarrow> fault + world" where
  "process_event ev w =
     (case ev of (fd, events) \<Rightarrow>
       case FindSocket fd w of
         (r, None) \<Rightarrow>
           and_then (RemoveFromMultiplexer fd 0 (w_mux w)) (\<lambda>(_, m). Inr (w\<lparr>w_mux := close_fd fd m\<rparr>))
       | (r, Some s) \<Rightarrow>
           serve_socket s (has_flag events (EPOLLHUP OR EPOLLERR)) (has_flag events EPOLLOUT)
             (\<lambda>_. has_flag events EPOLLIN) (call_event EV_SOCKETACTIVITY w))"

text \<open>
  \<open>None\<close> stands for a failed \<open>epoll_wait\<close>. A body does not touch the vector, so the events are those of
  the first cells.
\<close>

definition epoll_ProcessSockets :: "(int \<times> flags) list option \<Rightarrow> epoll \<Rightarrow> world \<Rightarrow> fault + world" where
  "epoll_ProcessSockets evs k w =
     and_then (epoll_reserve (length (w_socks w)) (w_errno w) k) (\<lambda>(e, k1).
     and_then (epoll_wait (case evs of None \<Rightarrow> [] | Some es \<Rightarrow> es) k1) (\<lambda>(es, k2).
       let w1 = w\<lparr>w_errno := e, w_mux := Epoll k2\<rparr> in
       case evs of None \<Rightarrow> Inr w1 | Some _ \<Rightarrow> fold_res process_event es w1))"

subsection \<open>poll\<close>

text \<open>
  \<open>ev\<close> points at the cell \<open>i\<close> of the vector, which shifts when an entry is removed; behind
  the new end the old cell stays in memory.
\<close>

definition pollfd_at :: "nat \<Rightarrow> pollfd \<Rightarrow> world \<Rightarrow> pollfd" where
  "pollfd_at i old w =
     (case w_mux w of Poll evs \<Rightarrow> if i < length evs then evs ! i else old | _ \<Rightarrow> old)"

definition poll_event :: "nat \<Rightarrow> pollfd \<Rightarrow> world \<Rightarrow> fault + world" where
  "poll_event i ev w =
     (case FindSocket (pf_fd ev) w of
        (r, None) \<Rightarrow>
          and_then (RemoveFromMultiplexer (pf_fd ev) 0 (w_mux w)) (\<lambda>(_, m).
            let w1 = w\<lparr>w_mux := m\<rparr> in Inr (w1\<lparr>w_mux := close_fd (pf_fd (pollfd_at i ev w1)) m\<rparr>))
      | (r, Some s) \<Rightarrow>
          serve_socket s (has_flag (pf_revents ev) (POLLERR OR POLLRDHUP)) (has_flag (pf_revents ev) POLLOUT)
            (\<lambda>w3. has_flag (pf_revents (pollfd_at i ev w3)) POLLIN) (call_event EV_SOCKETACTIVITY w))"

text \<open>The loop; its rounds are bounded by the first argument, see \<open>poll_loop_fuel\<close>.\<close>

fun poll_loop :: "nat \<Rightarrow> nat \<Rightarrow> nat \<Rightarrow> nat \<Rightarrow> world \<Rightarrow> fault + world" where
  "poll_loop 0 count i processed w = Inr w"
| "poll_loop (Suc n) count i processed w =
     (case w_mux w of
        Poll evs \<Rightarrow>
          if i < length evs \<and> processed \<noteq> count
          then let ev = evs ! i in
            if pf_revents ev \<noteq> 0
            then and_then (poll_event i ev w) (poll_loop n count (Suc i) (Suc processed))
            else poll_loop n count (Suc i) processed w
          else Inr w
      | _ \<Rightarrow> Inr w)"

definition poll_ProcessSockets :: "(int \<times> flags) list option \<Rightarrow> pollfd list \<Rightarrow> world \<Rightarrow> fault + world" where
  "poll_ProcessSockets evs pfs w =
     (case evs of
        None \<Rightarrow> Inr w
      | Some es \<Rightarrow>
          let ready = (\<lambda>fd. case map_of es fd of None \<Rightarrow> 0 | Some ev \<Rightarrow> ucast ev);
              pfs1 = poll_revents ready pfs;
              count = length (filter (\<lambda>p. pf_revents p \<noteq> 0) pfs1)
          in poll_loop (length pfs1) count 0 0 (w\<lparr>w_mux := Poll pfs1\<rparr>))"

subsection \<open>kqueue\<close>

definition kevent_of :: "int \<times> flags \<Rightarrow> kevent" where
  "kevent_of ev = \<lparr>ke_ident = fst ev, ke_filter = ucast (snd ev), ke_flags = ucast (drop_bit 16 (snd ev))\<rparr>"

text \<open>
  The branch for an unknown descriptor reads a member that \<open>struct kevent\<close> does not have
  (\<open>ev->data.fd\<close>, where \<open>ev->ident\<close> is meant), so the file does not compile. It is taken for the descriptor;
  since the temporary socket has no flags, \<open>RemoveFromMultiplexer\<close> does nothing with it.
\<close>

definition kqueue_event :: "kevent \<Rightarrow> world \<Rightarrow> fault + world" where
  "kqueue_event ev w =
     (if has_flag (ke_flags ev) EV_ERROR then Inr w
      else case FindSocket (ke_ident ev) w of
        (r, None) \<Rightarrow>
          and_then (RemoveFromMultiplexer (ke_ident ev) 0 (w_mux w)) (\<lambda>(_, m).
            Inr (w\<lparr>w_mux := close_fd (ke_ident ev) m\<rparr>))
      | (r, Some s) \<Rightarrow>
          serve_socket s (has_flag (ke_flags ev) EV_EOF) (kqueue_sends (ke_filter ev))
            (\<lambda>_. kqueue_receives (ke_filter ev)) (call_event EV_SOCKETACTIVITY w))"

text \<open>\<open>None\<close> stands for a failed \<open>kevent\<close>, which has taken the changes all the same.\<close>

definition kqueue_ProcessSockets :: "kevent list option \<Rightarrow> kqueue \<Rightarrow> world \<Rightarrow> fault + world" where
  "kqueue_ProcessSockets evs k w =
     (let n = int (length (w_socks w)) in
      and_then (if n > vcapacity (kq_events k)
                then if 2 ^ 30 \<le> n then Inl Signed_overflow
                     else vec_reserve (kq_avail k) sizeof_kevent (n * 2) (w_errno w, kq_events k)
                else Inr (w_errno w, kq_events k)) (\<lambda>(e, v).
      and_then (kevent_call (case evs of None \<Rightarrow> [] | Some es \<Rightarrow> es) (k\<lparr>kq_events := v\<rparr>)) (\<lambda>(es, k').
        let w1 = w\<lparr>w_errno := e, w_mux := Kqueue k'\<rparr> in
        case evs of None \<Rightarrow> Inr w1 | Some _ \<Rightarrow> fold_res kqueue_event es w1)))"

subsection \<open>select\<close>

definition select_socket :: "int set \<times> int set \<times> int set \<Rightarrow> socket \<Rightarrow> world \<Rightarrow> fault + world" where
  "select_socket sets s w =
     (case sets of (rd, wr, er) \<Rightarrow>
       and_then (FD_ISSET (sk_fd s) rd) (\<lambda>has_read.
       and_then (FD_ISSET (sk_fd s) wr) (\<lambda>has_write.
       and_then (FD_ISSET (sk_fd s) er) (\<lambda>has_error.
         serve_socket s has_error has_write (\<lambda>_. has_read)
           (if has_error \<or> has_read \<or> has_write then call_event EV_SOCKETACTIVITY w else w)))))"

text \<open>
  \<open>vec_foreach\<close> over the socket pool, which grows when a datagram comes from a new client; the
  new sockets, having the same descriptor, are visited too. The rounds are bounded by the
  first argument, see \<open>select_loop_fuel\<close>.
\<close>

fun select_loop :: "nat \<Rightarrow> int set \<times> int set \<times> int set \<Rightarrow> nat \<Rightarrow> world \<Rightarrow> fault + world" where
  "select_loop 0 sets i w = Inr w"
| "select_loop (Suc n) sets i w =
     (if i < length (w_socks w)
      then and_then (select_socket sets (w_socks w ! i) w) (select_loop n sets (Suc i))
      else Inr w)"

definition pending :: "int list \<Rightarrow> network \<Rightarrow> nat" where
  "pending fds net = sum_list (map (\<lambda>fd. length (inq net fd)) (remdups fds))"

text \<open>\<open>select\<close> answers the number of descriptors in the three sets; when it is 0 nothing is done.\<close>

definition select_ProcessSockets :: "(int \<times> flags) list option \<Rightarrow> select \<Rightarrow> world \<Rightarrow> fault + world" where
  "select_ProcessSockets evs m w =
     (case evs of
        None \<Rightarrow> Inr w
      | Some es \<Rightarrow>
          let ready = (\<lambda>bit fd. case map_of es fd of None \<Rightarrow> False | Some ev \<Rightarrow> has_flag ev bit);
              sets = select_sets (ready EPOLLIN) (ready EPOLLOUT) (ready EPOLLERR) m
          in if sets = ({}, {}, {}) then Inr w
             else select_loop (length (w_socks w) + pending (map sk_fd (w_socks w)) (w_net w)) sets 0 w)"

subsection \<open>The one that is linked\<close>

definition ProcessSockets :: "(int \<times> flags) list option \<Rightarrow> world \<Rightarrow> fault + world" where
  "ProcessSockets evs w =
     (case w_mux w of
        Epoll k \<Rightarrow> epoll_ProcessSockets evs k w
      | Poll pfs \<Rightarrow> poll_ProcessSockets evs pfs w
      | Select m \<Rightarrow> select_ProcessSockets evs m w
      | Kqueue k \<Rightarrow> kqueue_ProcessSockets (map_option (map kevent_of) evs) k w)"

section \<open>The loop over the clients\<close>

lemma fclose_frame: "fclose f fs = Inr fs' \<Longrightarrow> nodes fs' = nodes fs \<and> same_perms fs fs'"
  by (auto simp: fclose_def and_then_eq_Inr same_perms_def)

text \<open>Closing the stream \<open>f\<close> changes no other.\<close>

definition only_stream :: "nat \<Rightarrow> filesys \<Rightarrow> filesys \<Rightarrow> bool" where
  "only_stream f fs fs' \<longleftrightarrow> next_handle fs' = next_handle fs \<and> (\<forall>g. g \<noteq> f \<longrightarrow> handles fs' g = handles fs g)"

lemma fclose_only: "fclose f fs = Inr fs' \<Longrightarrow> only_stream f fs fs'"
  by (auto simp: fclose_def and_then_eq_Inr only_stream_def)

text \<open>What sending the queue of the client \<open>c\<close> leaves alone.\<close>

definition send_frame :: "addr \<Rightarrow> world \<Rightarrow> world \<Rightarrow> bool" where
  "send_frame c w w' \<longleftrightarrow>
     w_pool w' = w_pool w \<and> w_socks w' = w_socks w \<and> w_errno w' = w_errno w \<and> w_now w' = w_now w
     \<and> w_fs w' = w_fs w \<and> w_conf w' = w_conf w \<and> w_mux w' = w_mux w
     \<and> inq (w_net w') = inq (w_net w) \<and> brk (w_mem w') = brk (w_mem w) \<and> (\<forall>d. d \<noteq> c \<longrightarrow> w_clients w' d = w_clients w d)
     \<and> map_option (c_bytestransferred_update (\<lambda>_. 0)) (w_clients w' c)
       = map_option (c_bytestransferred_update (\<lambda>_. 0)) (w_clients w c)"

lemma send_frame_trans: "send_frame c w w1 \<Longrightarrow> send_frame c w1 w2 \<Longrightarrow> send_frame c w w2"
  by (simp add: send_frame_def)

lemma send_queue_frame: "send_queue c pqs w = Inr (r, w') \<Longrightarrow> send_frame c w w'"
proof (induction pqs arbitrary: w)
  case Nil
  then show ?case by (simp add: send_frame_def)
next
  case (Cons pq pqs)
  then obtain cl bytes where cl: "client_at c w = Inr cl" "load (pq_p pq) 0 (pq_len pq) (w_mem w) = Inr bytes"
    by (auto simp: and_then_eq_Inr)
  then have at: "w_clients w c = Some cl"
    by (auto simp: client_at_def split: if_splits option.splits)
  show ?case
  proof (cases "send_fail (w_net w) (nsend (w_net w))")
    case True
    with Cons.prems cl show ?thesis by (auto simp: Let_def send_frame_def)
  next
    case False
    let ?net = "(w_net w)\<lparr>nsend := Suc (nsend (w_net w)),
      sent := sent (w_net w) @ [(sk_fd (c_s cl), sk_addr (c_s cl), bytes)]\<rparr>"
    let ?w2 = "set_client c (cl\<lparr>c_bytestransferred := c_bytestransferred cl + int (pq_len pq)\<rparr>)
        ((call_event EV_SENDING_PACKETS w)\<lparr>w_net := ?net\<rparr>)"
    obtain h where h: "brk h = brk (w_mem w)" "send_queue c pqs (?w2\<lparr>w_mem := h\<rparr>) = Inr (r, w')"
      using Cons.prems cl False
      by (auto simp: Let_def and_then_eq_Inr set_client_def split: if_splits dest!: free_frame)
    have "send_frame c w (?w2\<lparr>w_mem := h\<rparr>)"
      using at h(1) by (simp add: send_frame_def set_client_def)
    with Cons.IH [OF h(2)] show ?thesis by (rule send_frame_trans [rotated])
  qed
qed

lemma client_at_Inr: "client_at c w = Inr cl \<longleftrightarrow> c \<noteq> NULL \<and> w_clients w c = Some cl"
  by (auto simp: client_at_def split: option.splits)

definition drained :: "client \<Rightarrow> flags \<Rightarrow> client" where
  "drained cl fl = cl\<lparr>c_queue := [], c_s := (c_s cl)\<lparr>sk_flags := fl\<rparr>\<rparr>"

lemma send_client_cases:
  assumes run: "send_client c w = Inr (r, w')"
  obtains (failed) "r = - 1" "send_frame c w w'"
  | (kept) cl w1 fl ep where "r = 0" "send_frame c w w1" "w_clients w1 c = Some cl" "c_destroy cl = 0"
      "mux_le (w_mux w1) ep" "w' = set_client c (drained cl fl) (w1\<lparr>w_mux := ep\<rparr>)"
  | (removed) cl w1 fl ep fs where "r = 0" "send_frame c w w1" "w_clients w1 c = Some cl"
      "c_destroy cl \<noteq> 0" "mux_le (w_mux w1) ep"
      "RemoveClient c ((set_client c (drained cl fl) (w1\<lparr>w_mux := ep\<rparr>))\<lparr>w_fs := fs\<rparr>) = Inr w'"
      "only_stream (c_f cl) (w_fs w1) fs"
proof -
  from run obtain cl0 r1 w1 where at: "client_at c w = Inr cl0"
    and q: "send_queue c (c_queue cl0) w = Inr (r1, w1)"
    by (auto simp: send_client_def and_then_eq_Inr)
  note frame = send_queue_frame [OF q]
  show thesis
  proof (cases "r1 = 0")
    case False
    with run q at have "r = - 1" "w' = w1"
      by (simp_all add: send_client_def)
    with frame show thesis by (intro failed) simp_all
  next
    case True
    with run q at obtain cl where cl: "client_at c w1 = Inr cl"
      by (auto simp: send_client_def and_then_eq_Inr)
    then obtain r2 fl ep where ss: "SetSocketStatus (sk_fd (c_s cl)) SF_READABLE (sk_flags (c_s cl)) (w_mux w1)
        = Inr (r2, fl, ep)"
      using run q at True by (auto simp: send_client_def and_then_eq_Inr)
    let ?w = "set_client c (drained cl fl) (w1\<lparr>w_mux := ep\<rparr>)"
    have cl': "w_clients w1 c = Some cl" using cl by (simp add: client_at_Inr)
    show thesis
    proof (cases "c_destroy cl = 0")
      case dz: True
      have "r = 0" "w' = ?w"
        using run q at True cl ss dz by (simp_all add: send_client_def drained_def Let_def)
      then show thesis by (intro kept [OF _ frame cl' dz SetSocketStatus_le [OF ss]])
    next
      case dz: False
      have "\<exists>fs. r = 0 \<and> RemoveClient c (?w\<lparr>w_fs := fs\<rparr>) = Inr w' \<and> only_stream (c_f cl) (w_fs w1) fs"
      proof (cases "c_f cl = 0")
        case True
        have "?w\<lparr>w_fs := w_fs ?w\<rparr> = ?w" by simp
        moreover have "r = 0 \<and> RemoveClient c ?w = Inr w'"
          using run q at \<open>r1 = 0\<close> cl ss dz True
          by (auto simp: send_client_def drained_def Let_def and_then_eq_Inr)
        moreover have "only_stream (c_f cl) (w_fs w1) (w_fs ?w)" by (simp add: only_stream_def set_client_def)
        ultimately show ?thesis by metis
      next
        case False
        then show ?thesis
          using run q at \<open>r1 = 0\<close> cl ss dz
          by (auto simp: send_client_def drained_def Let_def and_then_eq_Inr set_client_def dest: fclose_only)
      qed
      then obtain fs where "r = 0" "RemoveClient c (?w\<lparr>w_fs := fs\<rparr>) = Inr w'" "only_stream (c_f cl) (w_fs w1) fs"
        by blast
      then show thesis by (intro removed [OF _ frame cl' dz SetSocketStatus_le [OF ss]])
    qed
  qed
qed

lemma send_client_shrinks:
  assumes "send_client c w = Inr (r, w')"
  shows "length (w_pool w') \<le> length (w_pool w)"
  using assms
proof (cases rule: send_client_cases)
  case (removed cl w1 fl ep fs)
  then show ?thesis
    by (auto simp: send_frame_def set_client_def length_remove1 dest!: RemoveClient_frame)
qed (auto simp: send_frame_def set_client_def)

interpretation send: pool_body send_client
  by unfold_locales (rule send_client_shrinks)

section \<open>What is received\<close>

lemma ReceivePackets_cases:
  assumes run: "ReceivePackets s w = Inr (r, w')"
  obtains (idle) e net h where "recvfrom (sk_fd s) (w_net w) = (Recv_error e, net)"
      "brk h = brk (w_mem w)" "w' = w\<lparr>w_mem := h, w_net := net, w_errno := e\<rparr>"
      "r = (if e = EAGAIN \<or> e = EINTR then 0 else - 1)"
  | (datagram) data a net h c w2 cl cl1 n buf cl2 w4 where
      "recvfrom (sk_fd s) (w_net w) = (Recv_packet data a, net)" "brk h = brk (w_mem w)"
      "FindOrAllocateClient (sk_fd s) a (w\<lparr>w_net := net, w_errno := 0, w_mem := h\<rparr>) = Inr (c, w2)"
      "c \<noteq> NULL" "w_clients w2 c = Some cl"
      "cl1 = cl\<lparr>c_bytestransferred := c_bytestransferred cl + int n\<rparr>"
      "ProcessPacket cl1 buf n (call_event EV_RECEIVING_PACKETS (set_client c cl1 w2)) = Inr (cl2, w4)"
      "w' = set_client c cl2 w4" "r = 0"
      "sk_packet s \<noteq> NULL" "\<And>p. p \<noteq> sk_packet s \<Longrightarrow> blocks h p = blocks (w_mem w) p"
proof -
  obtain h1 where ms: "memset (sk_packet s) NUL (sk_pktlen s) (w_mem w) = Inr h1"
    using run by (auto simp: ReceivePackets_def and_then_eq_Inr)
  then have brk1: "brk h1 = brk (w_mem w)" and b1: "\<And>p. p \<noteq> sk_packet s \<Longrightarrow> blocks h1 p = blocks (w_mem w) p"
      and nn: "sk_packet s \<noteq> NULL"
    by (auto simp: memset_def store_def split: if_splits option.splits dest: store_frame)
  obtain rc net where rc: "recvfrom (sk_fd s) (w_net w) = (rc, net)" by (metis surj_pair)
  show thesis
  proof (cases rc)
    case (Recv_error e)
    have "w' = w\<lparr>w_mem := h1, w_net := net, w_errno := e\<rparr>" "r = (if e = EAGAIN \<or> e = EINTR then 0 else - 1)"
      using run ms rc Recv_error by (auto simp: ReceivePackets_def Let_def)
    with rc [unfolded Recv_error] brk1 show thesis by (rule idle)
  next
    case (Recv_packet data a)
    let ?bytes = "take (sk_pktlen s) data"
    from run ms rc Recv_packet obtain h2 c w2 cl buf cl2 w4 where
      st: "store (sk_packet s) 0 ?bytes h1 = Inr h2"
      and fc: "FindOrAllocateClient (sk_fd s) a (w\<lparr>w_mem := h1, w_net := net, w_errno := 0, w_mem := h2\<rparr>) = Inr (c, w2)"
      and at: "client_at c w2 = Inr cl"
      and pp: "ProcessPacket (cl\<lparr>c_bytestransferred := c_bytestransferred cl + int (length ?bytes)\<rparr>) buf
        (length ?bytes) (call_event EV_RECEIVING_PACKETS (set_client c
          (cl\<lparr>c_bytestransferred := c_bytestransferred cl + int (length ?bytes)\<rparr>) w2)) = Inr (cl2, w4)"
      and res: "w' = set_client c cl2 w4" "r = 0"
      by (auto simp: ReceivePackets_def Let_def and_then_eq_Inr)
    show thesis
      by (rule datagram [OF rc [unfolded Recv_packet], where h = h2, OF _ _ _ _ refl pp res])
        (use st brk1 b1 nn fc at store_frame [OF st] in \<open>simp_all add: client_at_Inr\<close>)
  qed
qed

section \<open>What is sent\<close>

text \<open>
  A queue of live packets with distinct blocks, all owned by the queue, goes out in order,
  to the client's address, and its blocks are freed.
\<close>

definition queue_owned :: "client \<Rightarrow> heap \<Rightarrow> bool" where
  "queue_owned cl h \<longleftrightarrow> distinct (map pq_p (c_queue cl))
     \<and> (\<forall>pq \<in> set (c_queue cl). pq_allocated pq = 1 \<and> pq_p pq \<noteq> NULL \<and> pq_live h pq)"

definition freed :: "addr set \<Rightarrow> heap \<Rightarrow> heap" where
  "freed ps h = h\<lparr>blocks := (\<lambda>p. if p \<in> ps then None else blocks h p)\<rparr>"

lemma send_queue_all:
  assumes "distinct (map pq_p pqs)"
    and "\<And>pq. pq \<in> set pqs \<Longrightarrow> pq_allocated pq = 1 \<and> pq_p pq \<noteq> NULL \<and> pq_live (w_mem w) pq"
    and "\<And>n. \<not> send_fail (w_net w) n" and "c \<noteq> NULL" and "w_clients w c = Some cl"
  shows "\<exists>w' n. send_queue c pqs w = Inr (0, w') \<and> w_mem w' = freed (pq_p ` set pqs) (w_mem w)
    \<and> sent (w_net w') = sent (w_net w)
        @ map (\<lambda>pq. (sk_fd (c_s cl), sk_addr (c_s cl), pq_bytes (w_mem w) pq)) pqs
    \<and> w_clients w' = (w_clients w)(c \<mapsto> cl\<lparr>c_bytestransferred := n\<rparr>)
    \<and> inq (w_net w') = inq (w_net w) \<and> send_fail (w_net w') = send_fail (w_net w)"
  using assms
proof (induction pqs arbitrary: w cl)
  case Nil
  then show ?case
    by (auto simp: freed_def intro!: exI [of _ "c_bytestransferred cl"])
next
  case (Cons pq pqs)
  have pq: "pq_allocated pq = 1" "pq_p pq \<noteq> NULL" "pq_live (w_mem w) pq"
    using Cons.prems(2) [of pq] by simp_all
  then obtain b where b: "blocks (w_mem w) (pq_p pq) = Some b" "pq_len pq \<le> length b"
    by (auto simp: pq_live_def)
  let ?bytes = "pq_bytes (w_mem w) pq"
  let ?net = "(w_net w)\<lparr>nsend := Suc (nsend (w_net w)),
      sent := sent (w_net w) @ [(sk_fd (c_s cl), sk_addr (c_s cl), ?bytes)]\<rparr>"
  let ?cl = "cl\<lparr>c_bytestransferred := c_bytestransferred cl + int (pq_len pq)\<rparr>"
  let ?h = "(w_mem w)\<lparr>blocks := (blocks (w_mem w))(pq_p pq := None)\<rparr>"
  let ?w = "(set_client c ?cl ((call_event EV_SENDING_PACKETS w)\<lparr>w_net := ?net\<rparr>))\<lparr>w_mem := ?h\<rparr>"
  have step: "send_queue c (pq # pqs) w = send_queue c pqs ?w"
    using pq b Cons.prems(3-5)
    by (simp add: client_at_def load_def Let_def free_def set_client_def pq_bytes_def)
  have live: "pq_live ?h q" "pq_bytes ?h q = pq_bytes (w_mem w) q" if "q \<in> set pqs" for q
  proof -
    have "pq_p pq \<notin> pq_p ` set pqs" using Cons.prems(1) by simp
    with that have "pq_p q \<noteq> pq_p pq" by (metis image_eqI)
    then show "pq_live ?h q" "pq_bytes ?h q = pq_bytes (w_mem w) q"
      using Cons.prems(2) [of q] that by (simp_all add: pq_live_def pq_bytes_def)
  qed
  have fr: "freed (pq_p ` set pqs) ?h = freed (pq_p ` set (pq # pqs)) (w_mem w)"
    by (simp add: freed_def) (rule arg_cong [where f = "\<lambda>b. (w_mem w)\<lparr>blocks := b\<rparr>"], auto simp: fun_eq_iff)
  have "\<exists>w' n. send_queue c pqs ?w = Inr (0, w') \<and> w_mem w' = freed (pq_p ` set pqs) (w_mem ?w)
    \<and> sent (w_net w') = sent (w_net ?w)
        @ map (\<lambda>pq. (sk_fd (c_s ?cl), sk_addr (c_s ?cl), pq_bytes (w_mem ?w) pq)) pqs
    \<and> w_clients w' = (w_clients ?w)(c \<mapsto> ?cl\<lparr>c_bytestransferred := n\<rparr>)
    \<and> inq (w_net w') = inq (w_net ?w) \<and> send_fail (w_net w') = send_fail (w_net ?w)"
    using Cons.prems live by (intro Cons.IH) (auto simp: set_client_def)
  then obtain w' n where w': "send_queue c pqs ?w = Inr (0, w')" "w_mem w' = freed (pq_p ` set pqs) ?h"
      "sent (w_net w') = sent (w_net ?w)
        @ map (\<lambda>pq. (sk_fd (c_s cl), sk_addr (c_s cl), pq_bytes ?h pq)) pqs"
      "w_clients w' = (w_clients ?w)(c \<mapsto> ?cl\<lparr>c_bytestransferred := n\<rparr>)"
      "inq (w_net w') = inq (w_net w)" "send_fail (w_net w') = send_fail (w_net w)"
    by (auto simp: set_client_def)
  have "map (\<lambda>pq. (sk_fd (c_s cl), sk_addr (c_s cl), pq_bytes ?h pq)) pqs
      = map (\<lambda>pq. (sk_fd (c_s cl), sk_addr (c_s cl), pq_bytes (w_mem w) pq)) pqs"
    using live(2) by simp
  with w' show ?case
    unfolding step fr
    by (intro exI [of _ w'] exI [of _ n]) (simp add: set_client_def)
qed

text \<open>
  One client's turn: its queue is on the wire, in order, and empty afterwards.
\<close>

lemma send_client_sends:
  assumes cl: "c \<noteq> NULL" "w_clients w c = Some cl" and own: "queue_owned cl (w_mem w)"
    and net: "\<And>n. \<not> send_fail (w_net w) n" and stay: "c_destroy cl = 0"
    and mux: "mux_ok (sk_fd (c_s cl)) (w_mux w)"
  shows "\<exists>w' cl'. send_client c w = Inr (0, w') \<and> w_clients w' c = Some cl' \<and> c_queue cl' = []
    \<and> sent (w_net w') = sent (w_net w)
        @ map (\<lambda>bytes. (sk_fd (c_s cl), sk_addr (c_s cl), bytes)) (queued cl w)
    \<and> w_mem w' = freed (pq_p ` set (c_queue cl)) (w_mem w)"
proof -
  have own': "distinct (map pq_p (c_queue cl))"
      "\<And>pq. pq \<in> set (c_queue cl) \<Longrightarrow> pq_allocated pq = 1 \<and> pq_p pq \<noteq> NULL \<and> pq_live (w_mem w) pq"
    using own by (auto simp: queue_owned_def)
  from send_queue_all [OF own' net cl] obtain w1 n where w1:
    "send_queue c (c_queue cl) w = Inr (0, w1)"
    "w_mem w1 = freed (pq_p ` set (c_queue cl)) (w_mem w)"
    "sent (w_net w1) = sent (w_net w)
        @ map (\<lambda>pq. (sk_fd (c_s cl), sk_addr (c_s cl), pq_bytes (w_mem w) pq)) (c_queue cl)"
    "w_clients w1 = (w_clients w)(c \<mapsto> cl\<lparr>c_bytestransferred := n\<rparr>)"
    by blast
  have "w_mux w1 = w_mux w" using send_queue_frame [OF w1(1)] by (simp add: send_frame_def)
  with mux obtain r fl ep where ss: "SetSocketStatus (sk_fd (c_s cl)) SF_READABLE (sk_flags (c_s cl)) (w_mux w1)
      = Inr (r, fl, ep)"
    by (metis SetSocketStatus_total)
  show ?thesis
    using w1 ss cl stay
    by (simp add: send_client_def client_at_def Let_def set_client_def queued_def comp_def)
qed

end
