(* ===== verification/Packet_Frames.thy ===== *)
theory Packet_Frames
  imports Transport
begin

text \<open>
  What the packet builders and \<open>ProcessPacket\<close> never change, whatever the packet and whether
  memory is available: who the client is, the pools, the network, the configuration, and the
  memory and streams that are not the client's.
\<close>

section \<open>What belongs to a client\<close>

text \<open>
  The blocks a client points to besides those of its socket: its packets, \<open>lastpacket\<close> if it is
  allocated, and \<open>blk\<close>. An address or a stream of somebody else was given out before and is none of the
  client's.
\<close>

definition owns :: "client \<Rightarrow> addr set" where
  "owns c = (pq_p ` set (c_queue c)
     \<union> (if pq_allocated (c_lastpacket c) = 0 then {} else {pq_p (c_lastpacket c)}) \<union> {c_blk c}) - {NULL}"

definition alien :: "client \<Rightarrow> world \<Rightarrow> addr \<Rightarrow> bool" where
  "alien c w p \<longleftrightarrow> p < brk (w_mem w) \<and> p \<notin> owns c"

definition foreign :: "client \<Rightarrow> world \<Rightarrow> nat \<Rightarrow> bool" where
  "foreign c w g \<longleftrightarrow> g < next_handle (w_fs w) \<and> g \<noteq> c_f c"

text \<open>What a client has was given out before.\<close>

definition settled :: "client \<Rightarrow> world \<Rightarrow> bool" where
  "settled c w \<longleftrightarrow> owns c \<subseteq> {..< brk (w_mem w)} \<and> (c_f c = 0 \<or> c_f c < next_handle (w_fs w))"

definition spares :: "client \<Rightarrow> world \<Rightarrow> client \<Rightarrow> world \<Rightarrow> bool" where
  "spares c w c' w' \<longleftrightarrow> (settled c w \<longrightarrow> settled c' w') \<and> next_handle (w_fs w) \<le> next_handle (w_fs w')
     \<and> (\<forall>p. alien c w p \<longrightarrow> alien c' w' p \<and> blocks (w_mem w') p = blocks (w_mem w) p)
     \<and> (\<forall>g. foreign c w g \<longrightarrow> foreign c' w' g \<and> handles (w_fs w') g = handles (w_fs w) g)"

lemma spares_refl [simp]: "spares c w c w"
  by (simp add: spares_def)

lemma spares_trans: "spares c w c1 w1 \<Longrightarrow> spares c1 w1 c2 w2 \<Longrightarrow> spares c w c2 w2"
  by (auto simp: spares_def)

text \<open>The same of memory and of streams alone: \<open>A\<close> is what may change.\<close>

definition grows :: "addr set \<Rightarrow> heap \<Rightarrow> heap \<Rightarrow> bool" where
  "grows A h h' \<longleftrightarrow> brk h \<le> brk h' \<and> (\<forall>p < brk h. p \<notin> A \<longrightarrow> blocks h' p = blocks h p)"

definition opens :: "nat set \<Rightarrow> filesys \<Rightarrow> filesys \<Rightarrow> bool" where
  "opens A fs fs' \<longleftrightarrow> next_handle fs \<le> next_handle fs' \<and> (\<forall>g < next_handle fs. g \<notin> A \<longrightarrow> handles fs' g = handles fs g)"

lemma grows_refl [simp]: "grows A h h"
  by (simp add: grows_def)

lemma opens_refl [simp]: "opens A fs fs"
  by (simp add: opens_def)

lemma grows_trans: "grows A h h1 \<Longrightarrow> grows B h1 h2 \<Longrightarrow> grows (A \<union> B) h h2"
  by (auto simp: grows_def)

lemma opens_trans: "opens A fs fs1 \<Longrightarrow> opens B fs1 fs2 \<Longrightarrow> opens (A \<union> B) fs fs2"
  by (auto simp: opens_def)

lemma nmalloc_grows: "nmalloc n h = Inr (p, h') \<Longrightarrow> grows {} h h' \<and> p = brk h \<and> brk h' = Suc (brk h)"
  by (auto simp: nmalloc_def malloc_def memset_def store_def grows_def and_then_eq_Inr split: if_splits option.splits)

lemma strdup_grows: "strdup s h = (p, h') \<Longrightarrow> grows {} h h' \<and> (p = NULL \<or> p = brk h) \<and> brk h' = Suc (brk h)"
  by (auto simp: strdup_def malloc_def grows_def split: if_splits)

lemma store_grows: "store p off bs h = Inr h' \<Longrightarrow> grows {p} h h' \<and> brk h' = brk h"
  by (auto simp: grows_def dest!: store_frame)

lemma free_grows: "free p h = Inr h' \<Longrightarrow> grows ({p} - {NULL}) h h' \<and> brk h' = brk h"
  by (auto simp: grows_def free_def split: if_splits)

lemma write_parts_grows: "write_parts store p off xs h = Inr h' \<Longrightarrow> grows {p} h h' \<and> brk h' = brk h"
proof (induction xs arbitrary: off h)
  case (Cons x xs)
  then obtain h1 where h1: "store p off x h = Inr h1" "write_parts store p (off + length x) xs h1 = Inr h'"
    by (auto simp: and_then_eq_Inr)
  with grows_trans [of "{p}" h h1 "{p}" h'] store_grows [OF h1(1)] Cons.IH [OF h1(2)] show ?case by simp
qed simp

lemma fread_opens: "fread n f fs = Inr (bs, fs') \<Longrightarrow> opens {f} fs fs' \<and> next_handle fs' = next_handle fs"
  by (auto simp: fread_def opens_def and_then_eq_Inr Let_def split: if_splits)

lemma fwrite_opens: "fwrite bs f fs = Inr (n, fs') \<Longrightarrow> opens {f} fs fs' \<and> next_handle fs' = next_handle fs"
  by (auto simp: fwrite_def opens_def and_then_eq_Inr split: if_splits)

lemma fclose_opens: "fclose f fs = Inr fs' \<Longrightarrow> opens {f} fs fs' \<and> next_handle fs' = next_handle fs"
  by (auto simp: fclose_def opens_def and_then_eq_Inr)

lemma rewind_opens: "rewind f fs = Inr fs' \<Longrightarrow> opens {f} fs fs' \<and> next_handle fs' = next_handle fs"
  by (auto simp: rewind_def opens_def and_then_eq_Inr)

lemma fopen_read_opens:
  "fopen_read path (e, fs) = (f, e', fs') \<Longrightarrow> opens {} fs fs' \<and> (f \<noteq> 0 \<longrightarrow> next_handle fs \<le> f \<and> f < next_handle fs')"
  by (auto simp: fopen_read_def open_handle_def opens_def split: option.splits if_splits)

lemma fopen_write_opens:
  "fopen_write path (e, fs) = (f, e', fs') \<Longrightarrow> opens {} fs fs' \<and> (f \<noteq> 0 \<longrightarrow> next_handle fs \<le> f \<and> f < next_handle fs')"
  by (auto simp: fopen_write_def open_handle_def opens_def Let_def split: option.splits fnode.splits if_splits)

lemma FileExists_opens:
  assumes "FileExists path (e, fs) = Inr (x, e', fs')"
  shows "opens {} fs fs'"
proof (cases "nodes fs path")
  case (Some n)
  show ?thesis
  proof (cases n)
    case (Reg bs)
    obtain f e1 fs1 where f: "fopen_read path (e, fs) = (f, e1, fs1)" by (metis surj_pair)
    note o = fopen_read_opens [OF f]
    show ?thesis
    proof (cases "f = 0")
      case False
      with assms Some Reg f obtain fs2 where cl: "fclose f fs1 = Inr fs2" "fs' = fs2"
        by (auto simp: FileExists_def and_then_eq_Inr split: if_splits)
      with fclose_opens [OF cl(1)] o False show ?thesis by (auto simp: opens_def)
    qed (use assms Some Reg f o in \<open>simp add: FileExists_def\<close>)
  qed (use assms Some in \<open>simp add: FileExists_def\<close>)
qed (use assms in \<open>simp add: FileExists_def\<close>)

text \<open>Fields that say nothing about what a client has.\<close>

lemma owns_fields [simp]:
  "owns (c\<lparr>c_waiting := a\<rparr>) = owns c" "owns (c\<lparr>c_currentblockno := b\<rparr>) = owns c"
  "owns (c\<lparr>c_actualblockno := b'\<rparr>) = owns c" "owns (c\<lparr>c_sendingfile := d\<rparr>) = owns c"
  "owns (c\<lparr>c_destroy := e\<rparr>) = owns c" "owns (c\<lparr>c_blksize := g\<rparr>) = owns c" "owns (c\<lparr>c_f := f\<rparr>) = owns c"
  "owns (c\<lparr>c_bytestransferred := i\<rparr>) = owns c" "owns (c\<lparr>c_tid := j\<rparr>) = owns c"
  by (simp_all add: owns_def)

lemma spares_fields [simp]:
  "spares c w (c1\<lparr>c_waiting := a\<rparr>) w1 = spares c w c1 w1" "spares c w (c1\<lparr>c_currentblockno := b\<rparr>) w1 = spares c w c1 w1"
  "spares c w (c1\<lparr>c_actualblockno := b'\<rparr>) w1 = spares c w c1 w1" "spares c w (c1\<lparr>c_sendingfile := d\<rparr>) w1 = spares c w c1 w1"
  "spares c w (c1\<lparr>c_destroy := e\<rparr>) w1 = spares c w c1 w1" "spares c w (c1\<lparr>c_blksize := g\<rparr>) w1 = spares c w c1 w1"
  "spares c w c1 (w1\<lparr>w_errno := k\<rparr>) = spares c w c1 w1" "spares c w c1 (call_event ev w1) = spares c w c1 w1"
  by (simp_all add: spares_def settled_def alien_def foreign_def)

lemma spares_files:
  assumes "spares c w c1 w1" "opens A (w_fs w1) fs" "A \<subseteq> {c_f c1} \<union> {next_handle (w_fs w)..}"
  shows "spares c w c1 (w1\<lparr>w_fs := fs\<rparr>)"
proof -
  have nh: "next_handle (w_fs w1) \<le> next_handle fs" using assms(2) by (simp add: opens_def)
  have "foreign c1 (w1\<lparr>w_fs := fs\<rparr>) g \<and> handles fs g = handles (w_fs w) g" if g: "foreign c w g" for g
  proof -
    have 1: "foreign c1 w1 g" "handles (w_fs w1) g = handles (w_fs w) g"
      using assms(1) g by (simp_all add: spares_def)
    then have "g \<notin> A" using assms(3) g by (auto simp: foreign_def)
    with 1 assms(2) nh show ?thesis by (simp add: foreign_def opens_def)
  qed
  with assms(1) nh show ?thesis
    by (auto simp: spares_def settled_def alien_def)
qed

lemma spares_mem:
  assumes "spares c w c1 w1" "grows A (w_mem w1) h" "A \<subseteq> owns c1 \<union> {brk (w_mem w)..}"
  shows "spares c w c1 (w1\<lparr>w_mem := h\<rparr>)"
proof -
  have brk: "brk (w_mem w1) \<le> brk h" using assms(2) by (simp add: grows_def)
  have "alien c1 (w1\<lparr>w_mem := h\<rparr>) p \<and> blocks h p = blocks (w_mem w) p" if p: "alien c w p" for p
  proof -
    have 1: "alien c1 w1 p" "blocks (w_mem w1) p = blocks (w_mem w) p"
      using assms(1) p by (simp_all add: spares_def)
    then have "p \<notin> A" using assms(3) p by (auto simp: alien_def)
    with 1 assms(2) brk show ?thesis by (simp add: alien_def grows_def)
  qed
  with assms(1) brk show ?thesis
    by (auto simp: spares_def settled_def foreign_def)
qed

text \<open>The client takes something over that was given out during the run.\<close>

lemma spares_takes_file:
  "spares c w c1 w1 \<Longrightarrow> next_handle (w_fs w) \<le> f \<Longrightarrow> f < next_handle (w_fs w1) \<Longrightarrow> spares c w (c1\<lparr>c_f := f\<rparr>) w1"
  by (auto simp: spares_def settled_def alien_def foreign_def)

lemma spares_takes_block:
  assumes "spares c w c1 w1" "owns c2 \<subseteq> owns c1 \<union> {brk (w_mem w) ..< brk (w_mem w1)}" "c_f c2 = c_f c1"
  shows "spares c w c2 w1"
  using assms by (auto simp: spares_def settled_def alien_def foreign_def)

section \<open>What processing a packet keeps\<close>

text \<open>
  The identity of a client (descriptor, address, transfer id), the resend state at rest,
  and the client pool.
\<close>

definition keeps :: "client \<Rightarrow> world \<Rightarrow> client \<Rightarrow> world \<Rightarrow> bool" where
  "keeps c w c' w' \<longleftrightarrow> sk_fd (c_s c') = sk_fd (c_s c) \<and> sk_addr (c_s c') = sk_addr (c_s c)
     \<and> c_tid c' = c_tid c \<and> (c_waiting c = 0 \<longrightarrow> c_waiting c' = 0)
     \<and> (pq_allocated (c_lastpacket c) \<noteq> 2 \<longrightarrow> pq_allocated (c_lastpacket c') \<noteq> 2)
     \<and> w_clients w' = w_clients w \<and> w_pool w' = w_pool w \<and> w_net w' = w_net w
     \<and> w_socks w' = w_socks w \<and> mux_le (w_mux w) (w_mux w')
     \<and> w_now w' = w_now w \<and> w_conf w' = w_conf w \<and> brk (w_mem w) \<le> brk (w_mem w') \<and> spares c w c' w'"

lemma keeps_refl [simp]: "keeps c w c w"
  by (simp add: keeps_def)

lemma keeps_trans: "keeps c w c1 w1 \<Longrightarrow> keeps c1 w1 c2 w2 \<Longrightarrow> keeps c w c2 w2"
  by (auto simp: keeps_def intro: mux_le_trans spares_trans)

text \<open>A step that only touches memory; one that takes files or memory given out during the run.\<close>

lemma keeps_mem:
  "keeps c w c1 w1 \<Longrightarrow> grows A (w_mem w1) h \<Longrightarrow> A \<subseteq> owns c1 \<union> {brk (w_mem w)..} \<Longrightarrow> keeps c w c1 (w1\<lparr>w_mem := h\<rparr>)"
  using spares_mem [of c w c1 w1 A h] by (auto simp: keeps_def grows_def)

lemma keeps_files:
  "keeps c w c1 w1 \<Longrightarrow> opens A (w_fs w1) fs \<Longrightarrow> A \<subseteq> {c_f c1} \<union> {next_handle (w_fs w)..} \<Longrightarrow> keeps c w c1 (w1\<lparr>w_fs := fs\<rparr>)"
  using spares_files [of c w c1 w1 A fs] by (simp add: keeps_def)

lemma QueuePacket_keeps:
  assumes run: "QueuePacket c1 p len 1 w1 = Inr (c', w')" and k: "keeps c w c1 w1"
    and p: "brk (w_mem w) \<le> p" "p < brk (w_mem w1)"
  shows "keeps c w c' w'"
proof -
  note fr = QueuePacket_frame [OF run]
  obtain q h1 where push: "list_push \<lparr>pq_p = p, pq_len = len, pq_allocated = 1\<rparr> (c_queue c1, w_mem w1) = Inr (q, h1)"
    using run by (auto simp: QueuePacket_def Let_def and_then_eq_Inr)
  from run push obtain lp h2 bytes h3 fl ep where lp: "nmalloc len h1 = Inr (lp, h2)" "store lp 0 bytes h2 = Inr h3"
    and w': "w' = w1\<lparr>w_mem := h3, w_mux := ep\<rparr>"
    and c': "c' = c1\<lparr>c_queue := q, c_lastpacket := \<lparr>pq_p = lp, pq_len = len, pq_allocated = 1\<rparr>,
         c_nextresend := w_now w1 + 5, c_s := (c_s c1)\<lparr>sk_flags := fl\<rparr>\<rparr>"
    by (auto simp: QueuePacket_def Let_def and_then_eq_Inr)
  have h1: "grows {} (w_mem w1) h1" "brk h1 = Suc (brk (w_mem w1))" "q = c_queue c1 @ [\<lparr>pq_p = p, pq_len = len, pq_allocated = 1\<rparr>]"
    using list_push_extends [OF push] by (auto simp: grows_def)
  have lp': "lp = Suc (brk (w_mem w1))" "grows {} h1 h2" "brk h2 = Suc (Suc (brk (w_mem w1)))"
    using nmalloc_grows [OF lp(1)] h1(2) by simp_all
  have h3: "grows {lp} h2 h3" "brk h3 = brk h2" using store_grows [OF lp(2)] by simp_all
  have g: "grows {lp} (w_mem w1) h3"
    using grows_trans [OF grows_trans [OF h1(1) lp'(2)] h3(1)] by simp
  have brk: "brk (w_mem w) \<le> brk (w_mem w1)" using k by (simp add: keeps_def)
  have "spares c w c1 (w1\<lparr>w_mem := h3\<rparr>)"
    using k g brk lp'(1) by (intro spares_mem [of c w c1 w1 "{lp}" h3]) (auto simp: keeps_def)
  then have "spares c w c' (w1\<lparr>w_mem := h3\<rparr>)"
    by (rule spares_takes_block) (use p brk lp' h3(2) h1(3) in \<open>auto simp: c' owns_def split: if_splits\<close>)
  then have "spares c w c' w'"
    by (simp add: w' spares_def settled_def alien_def foreign_def)
  moreover have "keeps c w c1 w1" by fact
  ultimately show ?thesis
    using fr by (auto simp: keeps_def same_defs intro: mux_le_trans)
qed

text \<open>The builders: memory grows, then the packet is queued.\<close>

lemma build_keeps:
  assumes "nmalloc n (w_mem w) = Inr (p, h1)" "grows {p} h1 h2" "brk h2 = brk h1"
    and "QueuePacket c p len 1 (w\<lparr>w_mem := h2\<rparr>) = Inr (c', w')"
  shows "keeps c w c' w'"
proof -
  have p: "grows {} (w_mem w) h1" "p = brk (w_mem w)" "brk h1 = Suc (brk (w_mem w))"
    using nmalloc_grows [OF assms(1)] by simp_all
  have "grows {p} (w_mem w) h2" using grows_trans [OF p(1) assms(2)] by simp
  then have "keeps c w c (w\<lparr>w_mem := h2\<rparr>)"
    by (rule keeps_mem [OF keeps_refl]) (simp add: p(2))
  from QueuePacket_keeps [OF assms(4) this] show ?thesis by (simp add: p assms(3))
qed

lemma SendData_keeps: "SendData c d w = Inr (c', w') \<Longrightarrow> keeps c w c' w'"
  unfolding SendData_def
  by (auto simp: and_then_eq_Inr simp del: write_parts.simps dest: write_parts_grows intro: build_keeps)

lemma Acknowledge_keeps: "Acknowledge c b w = Inr (c', w') \<Longrightarrow> keeps c w c' w'"
  unfolding Acknowledge_def
  by (auto simp: and_then_eq_Inr simp del: write_parts.simps dest: write_parts_grows intro: build_keeps)

lemma OptionAcknowledge_keeps:
  assumes "OptionAcknowledge c opt v w = Inr (c', w')"
  shows "keeps c w c' w'"
proof -
  let ?n = "sizeof_packet + length opt + length v + 2"
  from assms obtain p h1 h2 h3 h4 h5 h6 where n: "nmalloc ?n (w_mem w) = Inr (p, h1)"
    and s: "store p 0 (be16 PACKET_OACK) h1 = Inr h2" "store p 2 (opt @ [NUL]) h2 = Inr h3"
      "store p (2 + length opt) [NUL] h3 = Inr h4" "store p (2 + length opt + 1) (v @ [NUL]) h4 = Inr h5"
      "store p (2 + length opt + 1) [NUL] h5 = Inr h6"
    and q: "QueuePacket c p ?n 1 (w\<lparr>w_mem := h6\<rparr>) = Inr (c', w')"
    unfolding OptionAcknowledge_def Let_def by (auto simp: and_then_eq_Inr)
  note g = s [THEN store_grows]
  have "grows {p} h1 h6"
    using grows_trans [OF grows_trans [OF grows_trans [OF grows_trans [OF conjunct1 [OF g(1)] conjunct1 [OF g(2)]]
      conjunct1 [OF g(3)]] conjunct1 [OF g(4)]] conjunct1 [OF g(5)]] by simp
  from build_keeps [OF n this _ q] g show ?thesis by simp
qed

lemma keeps_destroy: "keeps c w c' w' \<Longrightarrow> keeps c w (c'\<lparr>c_destroy := d\<rparr>) w'"
  by (simp add: keeps_def)

lemma Error_keeps:
  assumes "Error c e m w = Inr (c', w')"
  shows "keeps c w c' w'"
proof -
  obtain buf h0 where dup: "strdup m (w_mem w) = (buf, h0)" by (metis surj_pair)
  have h0: "grows {} (w_mem w) h0" "buf = NULL \<or> buf = brk (w_mem w)"
    using strdup_grows [OF dup] by simp_all
  have k0: "keeps c w c (w\<lparr>w_mem := h0\<rparr>)" by (rule keeps_mem [OF keeps_refl h0(1)]) simp
  show ?thesis
  proof (cases "buf = NULL")
    case True
    with assms dup have "c' = c" "w' = (w\<lparr>w_mem := h0\<rparr>)\<lparr>w_errno := ENOMEM\<rparr>"
      by (simp_all add: Error_def vasprintf_strdup)
    with k0 show ?thesis by (simp add: keeps_def)
  next
    case False
    with assms dup obtain p h1 h2 c1 w1 h3 where
      n: "nmalloc (length m + sizeof_packet + 1) h0 = Inr (p, h1)"
        "write_parts store p 0 [be16 PACKET_ERROR, be16 e, m, [NUL]] h1 = Inr h2"
      and q: "QueuePacket c p (length m + sizeof_packet + 1) 1 (w\<lparr>w_mem := h2\<rparr>) = Inr (c1, w1)"
      and fr: "free buf (w_mem w1) = Inr h3"
      and res: "c' = c1\<lparr>c_destroy := 1\<rparr>" "w' = w1\<lparr>w_mem := h3\<rparr>"
      by (auto simp: Error_def vasprintf_strdup and_then_eq_Inr simp del: write_parts.simps split: if_splits)
    have "keeps c (w\<lparr>w_mem := h0\<rparr>) c1 w1"
      using write_parts_grows [OF n(2)] n(1) q by (intro build_keeps [of _ "w\<lparr>w_mem := h0\<rparr>" p h1 h2]) simp_all
    with k0 have "keeps c w c1 w1" by (rule keeps_trans)
    with free_grows [OF fr] h0(2) have "keeps c w c1 (w1\<lparr>w_mem := h3\<rparr>)"
      by (intro keeps_mem [of c w c1 w1 "{buf} - {NULL}" h3]) auto
    with res show ?thesis by (simp add: keeps_destroy)
  qed
qed

text \<open>The same for runs: \<open>pk c w m\<close> says that what \<open>m\<close> returns keeps these.\<close>

definition pk :: "client \<Rightarrow> world \<Rightarrow> fault + client \<times> world \<Rightarrow> bool" where
  "pk c w m \<longleftrightarrow> (\<forall>c' w'. m = Inr (c', w') \<longrightarrow> keeps c w c' w')"

lemma pk_fault [simp, intro]: "pk c w (Inl e)"
  by (simp add: pk_def)

lemma pk_return: "keeps c w c' w' \<Longrightarrow> pk c w (Inr (c', w'))"
  by (simp add: pk_def)

lemma pk_bind:
  "pk c w m \<Longrightarrow> (\<And>c1 w1. keeps c w c1 w1 \<Longrightarrow> pk c w (f (c1, w1))) \<Longrightarrow> pk c w (and_then m f)"
  by (auto simp: pk_def and_then_eq_Inr)

lemma pk_let: "(\<And>x. m = Inr x \<Longrightarrow> pk c w (f x)) \<Longrightarrow> pk c w (and_then m f)"
  by (auto simp: pk_def and_then_eq_Inr)

lemma pk_if: "(b \<Longrightarrow> pk c w m) \<Longrightarrow> (\<not> b \<Longrightarrow> pk c w n) \<Longrightarrow> pk c w (if b then m else n)"
  by simp

lemma pk_ops:
  "keeps c w c1 w1 \<Longrightarrow> pk c w (SendData c1 d w1)"
  "keeps c w c1 w1 \<Longrightarrow> pk c w (Acknowledge c1 b w1)"
  "keeps c w c1 w1 \<Longrightarrow> pk c w (OptionAcknowledge c1 opt v w1)"
  "keeps c w c1 w1 \<Longrightarrow> pk c w (Error c1 e m w1)"
  by (auto simp: pk_def intro: keeps_trans
      dest!: SendData_keeps Acknowledge_keeps OptionAcknowledge_keeps Error_keeps)

lemma pk_end_resend: "pk c w (end_resend c w)"
proof (cases "pq_allocated (c_lastpacket c) = 2")
  case True
  let ?c = "c\<lparr>c_waiting := 0, c_lastpacket := (c_lastpacket c)\<lparr>pq_len := 0, pq_allocated := 0\<rparr>\<rparr>"
  have "keeps c w ?c (w\<lparr>w_mem := h\<rparr>)" if "free (pq_p (c_lastpacket c)) (w_mem w) = Inr h" for h
  proof -
    have "keeps c w c (w\<lparr>w_mem := h\<rparr>)"
      using free_grows [OF that] True
      by (intro keeps_mem [OF keeps_refl, of "{pq_p (c_lastpacket c)} - {NULL}"]) (auto simp: owns_def)
    moreover have "owns ?c \<subseteq> owns c" using True by (auto simp: owns_def)
    ultimately show ?thesis
      using spares_takes_block [of c w c "w\<lparr>w_mem := h\<rparr>" ?c] by (auto simp: keeps_def)
  qed
  with True show ?thesis by (auto simp: pk_def end_resend_def Let_def and_then_eq_Inr)
qed (simp add: pk_def end_resend_def keeps_def)

lemma keeps_free:
  "keeps c w c1 w1 \<Longrightarrow> tmp = NULL \<or> brk (w_mem w) \<le> tmp \<Longrightarrow> free tmp (w_mem w1) = Inr h \<Longrightarrow> keeps c w c1 (w1\<lparr>w_mem := h\<rparr>)"
  by (rule keeps_mem [where A = "{tmp} - {NULL}"]) (auto dest: free_grows)

lemma keeps_strdup:
  "keeps c w c1 w1 \<Longrightarrow> strdup s (w_mem w1) = (tmp, h) \<Longrightarrow> keeps c w c1 (w1\<lparr>w_mem := h\<rparr>) \<and> (tmp = NULL \<or> brk (w_mem w) \<le> tmp)"
  using strdup_grows [of s "w_mem w1" tmp h] keeps_mem [of c w c1 w1 "{}" h] by (auto simp: keeps_def)

lemma pk_free_tmp: "keeps c w c1 w1 \<Longrightarrow> tmp = NULL \<or> brk (w_mem w) \<le> tmp \<Longrightarrow> pk c w (free_tmp tmp (c1, w1))"
  by (auto simp: pk_def free_tmp_def and_then_eq_Inr intro: keeps_free)

lemma pk_let2: "(\<And>a b. m = Inr (a, b) \<Longrightarrow> pk c w (f (a, b))) \<Longrightarrow> pk c w (and_then m f)"
  by (auto simp: pk_def and_then_eq_Inr)

lemma pk_case2: "(\<And>a b. x = (a, b) \<Longrightarrow> pk c w (f a b)) \<Longrightarrow> pk c w (case x of (a, b) \<Rightarrow> f a b)"
  by (cases x) simp

text \<open>Fields without meaning for \<open>keeps\<close>, and the steps on files and memory a handler takes.\<close>

lemma keeps_fields [simp]:
  "keeps c w (c1\<lparr>c_currentblockno := b\<rparr>) w1 = keeps c w c1 w1" "keeps c w (c1\<lparr>c_actualblockno := b'\<rparr>) w1 = keeps c w c1 w1"
  "keeps c w (c1\<lparr>c_sendingfile := d\<rparr>) w1 = keeps c w c1 w1" "keeps c w (c1\<lparr>c_destroy := e\<rparr>) w1 = keeps c w c1 w1"
  "keeps c w (c1\<lparr>c_blksize := g\<rparr>) w1 = keeps c w c1 w1"
  "keeps c w c1 (w1\<lparr>w_errno := k\<rparr>) = keeps c w c1 w1" "keeps c w c1 (call_event ev w1) = keeps c w c1 w1"
  "keeps c w c1 ((call_event ev w1)\<lparr>w_fs := fs\<rparr>) = keeps c w c1 (w1\<lparr>w_fs := fs\<rparr>)"
  "keeps c w c1 (w1\<lparr>w_errno := k, w_fs := fs\<rparr>) = keeps c w c1 (w1\<lparr>w_fs := fs\<rparr>)"
  "keeps c w c1 (w1\<lparr>w_mem := h, w_errno := k\<rparr>) = keeps c w c1 (w1\<lparr>w_mem := h\<rparr>)"
  "keeps c (w\<lparr>w_errno := k\<rparr>) c1 w1 = keeps c w c1 w1"
  by (simp_all add: keeps_def spares_def settled_def alien_def foreign_def)

lemma keeps_fwrite: "keeps c w c1 w1 \<Longrightarrow> fwrite bs (c_f c1) (w_fs w1) = Inr (n, fs) \<Longrightarrow> keeps c w c1 (w1\<lparr>w_fs := fs\<rparr>)"
  by (rule keeps_files [where A = "{c_f c1}"]) (auto dest: fwrite_opens)

lemma keeps_stream:
  assumes "keeps c w c1 w1" "next_handle (w_fs w) \<le> f" "opens {f} (w_fs w1) fs"
  shows "keeps c w c1 (w1\<lparr>w_fs := fs\<rparr>)"
  using assms by (intro keeps_files [of c w c1 w1 "{f}"]) auto

lemma keeps_takes_file:
  "keeps c w c1 w1 \<Longrightarrow> next_handle (w_fs w) \<le> f \<Longrightarrow> f < next_handle (w_fs w1) \<Longrightarrow> keeps c w (c1\<lparr>c_f := f\<rparr>) w1"
  by (simp add: keeps_def spares_takes_file)

lemma keeps_handles: "keeps c w c1 w1 \<Longrightarrow> next_handle (w_fs w) \<le> next_handle (w_fs w1)"
  by (simp add: keeps_def spares_def)

lemma keeps_block:
  assumes k: "keeps c w c1 w1" and blk: "(if c_blk c1 = NULL then nmalloc n (w_mem w1) else Inr (c_blk c1, w_mem w1)) = Inr (blk, h1)"
    and w: "memset blk NUL n h1 = Inr h2" "fread n (c_f c1) (w_fs w1) = Inr (bytes, fs)" "store blk 0 bytes h2 = Inr h3"
  shows "keeps c w (c1\<lparr>c_blk := blk\<rparr>) (w1\<lparr>w_mem := h3, w_fs := fs\<rparr>)"
proof -
  have brk: "brk (w_mem w) \<le> brk (w_mem w1)" using k by (simp add: keeps_def)
  have w': "grows {blk} h1 h2" "grows {blk} h2 h3" "brk h3 = brk h1"
    using store_grows [OF w(1) [unfolded memset_def]] store_grows [OF w(3)] by simp_all
  have b: "grows {} (w_mem w1) h1 \<and> (blk = c_blk c1 \<and> blk \<noteq> NULL \<or> blk = brk (w_mem w1) \<and> brk h1 = Suc blk)"
    using blk nmalloc_grows [of n "w_mem w1" blk h1] by (auto split: if_splits)
  have "grows {blk} (w_mem w1) h3"
    using grows_trans [OF grows_trans [OF conjunct1 [OF b] w'(1)] w'(2)] by simp
  then have 1: "keeps c w c1 (w1\<lparr>w_mem := h3\<rparr>)"
    using b brk by (intro keeps_mem [OF k]) (auto simp: owns_def)
  have sub: "owns (c1\<lparr>c_blk := blk\<rparr>) \<subseteq> owns c1 \<union> {blk}" by (auto simp: owns_def cong: if_cong)
  have new: "blk \<in> owns c1 \<union> {brk (w_mem w) ..< brk h3}"
  proof (cases "blk = c_blk c1 \<and> blk \<noteq> NULL")
    case True
    then have "blk \<in> owns c1" by (simp add: owns_def)
    then show ?thesis by simp
  qed (use b brk w'(3) in auto)
  have "spares c w c1 (w1\<lparr>w_mem := h3\<rparr>)" using 1 by (simp only: keeps_def)
  moreover have mem: "w_mem (w1\<lparr>w_mem := h3\<rparr>) = h3" by simp
  have "owns (c1\<lparr>c_blk := blk\<rparr>) \<subseteq> owns c1 \<union> {brk (w_mem w) ..< brk (w_mem (w1\<lparr>w_mem := h3\<rparr>))}"
    unfolding mem using sub new by blast
  ultimately have "spares c w (c1\<lparr>c_blk := blk\<rparr>) (w1\<lparr>w_mem := h3\<rparr>)"
    by (rule spares_takes_block) simp
  with 1 have "keeps c w (c1\<lparr>c_blk := blk\<rparr>) (w1\<lparr>w_mem := h3\<rparr>)" by (simp add: keeps_def)
  from keeps_files [OF this, of "{c_f c1}" fs] fread_opens [OF w(2)] show ?thesis by simp
qed

lemmas keeps_block_event = keeps_block [where ?w1.0 = "call_event ev w1" for ev w1, unfolded keeps_fields]

lemmas pk_bind_ops = pk_ops [THEN pk_bind] pk_end_resend [THEN pk_bind]
lemmas pk_rules = pk_if pk_return pk_fault pk_ops pk_bind_ops pk_free_tmp

lemma pk_process_data: "pk c w (process_data c buf len w)"
  unfolding process_data_def Let_def
  by (rule pk_bind [OF pk_end_resend])
    ((rule pk_rules | rule pk_let2 | rule pk_let | simp only: prod.case | (auto intro: keeps_fwrite; fail))+)

lemma pk_process_error: "pk c w (process_error c buf len w)"
  unfolding process_error_def Let_def
  by (rule pk_bind [OF pk_end_resend])
    ((rule pk_rules | rule pk_let2 | rule pk_let | simp only: prod.case | (simp; fail))+)

lemma pk_process_ack: "pk c w (process_ack c buf len w)"
  unfolding process_ack_def Let_def
  by (rule pk_bind [OF pk_end_resend])
    ((rule pk_rules | rule pk_let2 | rule pk_let | simp only: prod.case
      | (simp; fail) | (simp only: keeps_fields, rule keeps_block_event, assumption+))+)

lemma pk_wrq_open:
  assumes k: "keeps c w c1 w1"
  shows "pk c w (wrq_open c1 dir path w1)"
proof -
  let ?e = "access_errno path dir (w_fs w1)"
  let ?e1 = "if ?e \<noteq> 0 then ?e else w_errno w1"
  obtain f e2 fs where op: "fopen_write path (?e1, w_fs w1) = (f, e2, fs)" by (metis surj_pair)
  note o = fopen_write_opens [OF op]
  have k2: "keeps c w c1 (w1\<lparr>w_fs := fs\<rparr>)" using o by (intro keeps_files [OF k]) auto
  have nh: "next_handle (w_fs w) \<le> next_handle (w_fs w1)" using k by (rule keeps_handles)
  have "keeps c w (c1\<lparr>c_f := f\<rparr>) (w1\<lparr>w_fs := fs\<rparr>)" if "f \<noteq> 0"
    using o that nh by (intro keeps_takes_file [OF k2]) auto
  with k k2 op show ?thesis
    unfolding wrq_open_def Let_def
    by (auto intro!: pk_ops)
qed

lemma pk_let4:
  "(\<And>a b d e. m = Inr (a, b, d, e) \<Longrightarrow> pk c w (f (a, b, d, e))) \<Longrightarrow> pk c w (and_then m f)"
  by (auto simp: pk_def and_then_eq_Inr)

text \<open>A temporary string: \<open>strdup\<close>, and \<open>free\<close> at the end.\<close>

lemma pk_strdup:
  assumes "keeps c w c1 w1" "\<And>tmp h. keeps c w c1 (w1\<lparr>w_mem := h\<rparr>) \<Longrightarrow> tmp = NULL \<or> brk (w_mem w) \<le> tmp \<Longrightarrow> pk c w (f tmp h)"
  shows "pk c w (case strdup s (w_mem w1) of (tmp, h) \<Rightarrow> f tmp h)"
proof -
  obtain tmp h where d: "strdup s (w_mem w1) = (tmp, h)" by (metis surj_pair)
  from assms(2) [OF conjunct1 [OF keeps_strdup [OF assms(1) d]] conjunct2 [OF keeps_strdup [OF assms(1) d]]] d
  show ?thesis by simp
qed

lemma pk_process_wrq: "pk c w (process_wrq c buf len w)"
  unfolding process_wrq_def Let_def
  apply (rule pk_bind [OF pk_end_resend])
  apply (simp only: prod.case)
  apply (rule pk_let4)
  apply (simp only: prod.case)
  apply (rule pk_if)
   apply (rule pk_ops, assumption)
  apply (rule pk_let)
  apply (rule pk_strdup, assumption)
  apply (rule pk_if)
   apply (rule pk_ops, simp)
  apply (rule pk_bind)
   apply (rule pk_wrq_open, assumption)
  apply (rule pk_free_tmp, assumption, assumption)
  done

lemma rrq_option_keeps:
  "rrq_option c opt param w = Inr (r, c', w') \<Longrightarrow> keeps c w c' w'"
proof (cases "strcasecmp opt ''blksize'' = 0")
  case True
  assume run: "rrq_option c opt param w = Inr (r, c', w')"
  with True obtain p where p: "param = Some p"
    by (auto simp: rrq_option_def split: option.splits)
  obtain b ov where b: "strtol p = (b, ov)" by (metis surj_pair)
  show ?thesis
    using run True p b
    by (auto simp: rrq_option_def Let_def and_then_eq_Inr split: if_splits
        dest!: Error_keeps OptionAcknowledge_keeps)
qed (auto simp: rrq_option_def split: if_splits)

lemma pk_rrq_option:
  assumes "keeps c w c1 w1"
    and "\<And>r c2 w2. keeps c w c2 w2 \<Longrightarrow> pk c w (f (r, c2, w2))"
  shows "pk c w (and_then (rrq_option c1 opt param w1) f)"
  using assms
  by (auto simp: pk_def and_then_eq_Inr dest!: rrq_option_keeps) (blast intro: keeps_trans)

text \<open>A stream that was opened during the run.\<close>

lemma pk_rrq_tsize:
  assumes k: "keeps c w c1 w1" and tmp: "tmp = NULL \<or> brk (w_mem w) \<le> tmp" and f: "next_handle (w_fs w) \<le> f"
  shows "pk c w (rrq_tsize c1 opt tmp f n w1)"
  unfolding rrq_tsize_def
proof (rule pk_let)
  fix h1 assume "free tmp (w_mem w1) = Inr h1"
  from keeps_free [OF k tmp this] have k1: "keeps c w c1 (w1\<lparr>w_mem := h1\<rparr>)" .
  obtain tmp2 h2 where d: "strdup (dec_nat n) h1 = (tmp2, h2)" by (metis surj_pair)
  have k2: "keeps c w c1 (w1\<lparr>w_mem := h2\<rparr>)" "tmp2 = NULL \<or> brk (w_mem w) \<le> tmp2"
    using keeps_strdup [OF k1, of "dec_nat n" tmp2 h2] d by simp_all
  have "pk c w (and_then (fclose f (w_fs w2)) (\<lambda>fs. free_tmp tmp2 (c2, w2\<lparr>w_fs := fs\<rparr>)))" if "keeps c w c2 w2" for c2 w2
  proof (rule pk_let)
    fix fs assume "fclose f (w_fs w2) = Inr fs"
    then have "keeps c w c2 (w2\<lparr>w_fs := fs\<rparr>)"
      using keeps_stream [OF that f, of fs] fclose_opens by blast
    then show "pk c w (free_tmp tmp2 (c2, w2\<lparr>w_fs := fs\<rparr>))" using k2(2) by (rule pk_free_tmp)
  qed
  then show "pk c w (case strdup (dec_nat n) h1 of (tmp2, h2) \<Rightarrow>
         if tmp2 = NULL then Inl Null_deref
         else and_then (OptionAcknowledge c1 opt (dec_nat n) (w1\<lparr>w_mem := h2\<rparr>)) (\<lambda>(c1, w1).
              and_then (fclose f (w_fs w1)) (\<lambda>fs. free_tmp tmp2 (c1, w1\<lparr>w_fs := fs\<rparr>))))"
    by (simp only: d prod.case) (rule pk_if [OF pk_fault], rule pk_bind [OF pk_ops(3) [OF k2(1)]], simp)
qed

lemma pk_rrq_send:
  assumes k: "keeps c w c1 w1" and f: "next_handle (w_fs w) \<le> f" "f < next_handle (w_fs w1)"
  shows "pk c w (rrq_send c1 f w1)"
proof -
  have k1: "keeps c w (c1\<lparr>c_f := f\<rparr>) w1" by (rule keeps_takes_file [OF k f])
  have "keeps c w (c1\<lparr>c_f := f\<rparr>) (w1\<lparr>w_fs := fs\<rparr>)" if "fread 512 f (w_fs w1) = Inr (bs, fs)" for bs fs
    using keeps_stream [OF k1 f(1), of fs] fread_opens [OF that] by simp
  with k1 show ?thesis
    unfolding rrq_send_def Let_def by (auto intro!: pk_return pk_let2 pk_ops)
qed

lemma pk_let3:
  "(\<And>a b d. m = Inr (a, b, d) \<Longrightarrow> pk c w (f (a, b, d))) \<Longrightarrow> pk c w (and_then m f)"
  by (auto simp: pk_def and_then_eq_Inr)

lemma pk_case3:
  "(\<And>a b d. x = (a, b, d) \<Longrightarrow> pk c w (f a b d)) \<Longrightarrow> pk c w (case x of (a, b, d) \<Rightarrow> f a b d)"
  by (cases x) simp

lemma pk_rrq_open:
  assumes k: "keeps c w c1 w1" and tmp: "tmp = NULL \<or> brk (w_mem w) \<le> tmp"
  shows "pk c w (rrq_open c1 opt tsize path tmp w1)"
  unfolding rrq_open_def Let_def
proof (rule pk_let3, unfold prod.case)
  fix x e1 fs1 assume "FileExists path (w_errno w1, w_fs w1) = Inr (x, e1, fs1)"
  then have "keeps c w c1 (w1\<lparr>w_fs := fs1\<rparr>)" by (intro keeps_files [OF k FileExists_opens]) auto
  then have k1: "keeps c w c1 (w1\<lparr>w_errno := e1, w_fs := fs1\<rparr>)" by simp
  show "pk c w (and_then (if x then Inr (c1, w1\<lparr>w_errno := e1, w_fs := fs1\<rparr>)
      else Error c1 ERROR_NOFILE (''File '' @ path @ '' does not exist on the filesystem.'') (w1\<lparr>w_errno := e1, w_fs := fs1\<rparr>))
     (\<lambda>(c1, w2). case fopen_read path (w_errno w2, w_fs w2) of (f, e2, fs2) \<Rightarrow>
       if f = 0
       then Error c1 ERROR_NOFILE (''Cannot open file: '' @ w_strerror (w2\<lparr>w_errno := e2, w_fs := fs2\<rparr>)
              (w_errno (w2\<lparr>w_errno := e2, w_fs := fs2\<rparr>))) (w2\<lparr>w_errno := e2, w_fs := fs2\<rparr>)
       else and_then (ftell_end f (w_fs (w2\<lparr>w_errno := e2, w_fs := fs2\<rparr>))) (\<lambda>len.
            and_then (rewind f (w_fs (w2\<lparr>w_errno := e2, w_fs := fs2\<rparr>))) (\<lambda>fs3.
            if tsize then rrq_tsize c1 opt tmp f len (w2\<lparr>w_errno := e2, w_fs := fs2, w_fs := fs3\<rparr>)
            else and_then (rrq_send c1 f (w2\<lparr>w_errno := e2, w_fs := fs2, w_fs := fs3\<rparr>)) (free_tmp tmp)))))"
  proof (rule pk_bind, goal_cases)
    case 1
    show ?case by (rule pk_if [OF pk_return [OF k1] pk_ops(4) [OF k1]])
  next
    case (2 c2 w2)
    obtain f e2 fs2 where op: "fopen_read path (w_errno w2, w_fs w2) = (f, e2, fs2)" by (metis surj_pair)
    note o = fopen_read_opens [OF op]
    have "keeps c w c2 (w2\<lparr>w_fs := fs2\<rparr>)" using o by (intro keeps_files [OF 2]) auto
    then have k3: "keeps c w c2 (w2\<lparr>w_errno := e2, w_fs := fs2\<rparr>)" by simp
    have f: "next_handle (w_fs w) \<le> f \<and> f < next_handle fs2" if "f \<noteq> 0"
      using o that keeps_handles [OF 2] by auto
    have k4: "keeps c w c2 (w2\<lparr>w_errno := e2, w_fs := fs2, w_fs := fs3\<rparr>) \<and> f < next_handle fs3"
      if "f \<noteq> 0" "rewind f fs2 = Inr fs3" for fs3
      using keeps_stream [OF k3, of f fs3] f [OF that(1)] rewind_opens [OF that(2)] by simp
    show ?case
      unfolding op prod.case
    proof (rule pk_if [OF pk_ops(4) [OF k3]], rule pk_let, rule pk_let)
      fix len fs3 assume f0: "f \<noteq> 0" and "rewind f (w_fs (w2\<lparr>w_errno := e2, w_fs := fs2\<rparr>)) = Inr fs3"
      then have r: "rewind f fs2 = Inr fs3" by simp
      show "pk c w (if tsize then rrq_tsize c2 opt tmp f len (w2\<lparr>w_errno := e2, w_fs := fs2, w_fs := fs3\<rparr>)
            else and_then (rrq_send c2 f (w2\<lparr>w_errno := e2, w_fs := fs2, w_fs := fs3\<rparr>)) (free_tmp tmp))"
        using k4 [OF f0 r] f [OF f0] tmp
        by (intro pk_if pk_rrq_tsize pk_bind [OF pk_rrq_send] pk_free_tmp) simp_all
    qed
  qed
qed

lemma pk_process_rrq: "pk c w (process_rrq c buf len w)"
  unfolding process_rrq_def Let_def
  apply (rule pk_bind [OF pk_end_resend])
  apply (simp only: prod.case)
  apply (rule pk_let4)
  apply (simp only: prod.case)
  apply (rule pk_if)
   apply (rule pk_ops, assumption)
  apply (rule pk_rrq_option, assumption)
  apply (simp split: option.split add: pk_return)
  apply (intro allI impI)
  apply (rule pk_let)
  apply (rule pk_strdup, assumption)
  apply (rule pk_if)
   apply (rule pk_fault)
  apply (rule pk_rrq_open, assumption, assumption)
  done

text \<open>Processing any packet keeps the identity of the client.\<close>

lemma ProcessPacket_keeps: "ProcessPacket c buf len w = Inr (c', w') \<Longrightarrow> keeps c w c' w'"
proof -
  have "pk c w (ProcessPacket c buf len w)"
    unfolding ProcessPacket_def process_unknown_def
    by (intro pk_if pk_return pk_let pk_process_data pk_process_error pk_process_ack pk_process_wrq
        pk_process_rrq) (simp_all add: keeps_def)
  then show "ProcessPacket c buf len w = Inr (c', w') \<Longrightarrow> keeps c w c' w'"
    by (simp add: pk_def)
qed

end
