(* ===== verification/Server.thy ===== *)
theory Server
  imports Packet_Frames
begin

text \<open>
  The main loop of src/src/main.c as a state machine: each round checks the clients,
  handles the events the kernel reports and ticks the modules; between rounds time
  passes and the network changes. Invariants of all reachable states.
\<close>

section \<open>Steps\<close>

definition server_round :: "(int \<times> flags) list option \<Rightarrow> world \<Rightarrow> fault + world" where
  "server_round evs w =
     and_then (CheckClients w) (\<lambda>w1.
     and_then (ProcessSockets evs w1) (\<lambda>w2.
       Inr (call_event EV_TICK w2)))"

inductive step :: "world \<Rightarrow> world \<Rightarrow> bool" where
  round: "server_round evs w = Inr w' \<Longrightarrow> step w w'"
| environment: "step w (w\<lparr>w_now := t, w_net := (w_net w)\<lparr>inq := q, send_fail := sf\<rparr>\<rparr>)"

inductive reachable :: "world \<Rightarrow> world \<Rightarrow> bool" for w0 where
  start: "reachable w0 w0"
| more: "reachable w0 w \<Longrightarrow> step w w' \<Longrightarrow> reachable w0 w'"

inductive_cases stepE: "step w w'"

text \<open>The state in which the loop is entered: no clients yet.\<close>

definition initial :: "world \<Rightarrow> bool" where
  "initial w \<longleftrightarrow> w_pool w = [] \<and> w_clients w = Map.empty \<and> 0 < brk (w_mem w)"

section \<open>The invariant\<close>

text \<open>
  Of every client in the pool: its transfer id is the negated port, it is not waiting for
  a resend, and its last packet is not marked as one being resent. No two clients share a
  descriptor and a port, but for the port that \<open>FindClient\<close> never finds.
\<close>

definition at_rest :: "client \<Rightarrow> bool" where
  "at_rest cl \<longleftrightarrow> c_tid cl = - GetPort (sk_addr (c_s cl)) \<and> c_waiting cl = 0
     \<and> pq_allocated (c_lastpacket cl) \<noteq> 2"

definition key :: "client \<Rightarrow> int \<times> 16 word" where
  "key cl = (sk_fd (c_s cl), GetPort (sk_addr (c_s cl)))"

definition key_of :: "world \<Rightarrow> addr \<Rightarrow> (int \<times> 16 word) option" where
  "key_of w c = map_option key (w_clients w c)"

definition unique_keys :: "world \<Rightarrow> bool" where
  "unique_keys w \<longleftrightarrow> (\<forall>c \<in> set (w_pool w). \<forall>d \<in> set (w_pool w). \<forall>k.
     key_of w c = Some k \<longrightarrow> key_of w d = Some k \<longrightarrow> snd k \<noteq> 0x8000 \<longrightarrow> c = d)"

definition all_at_rest :: "world \<Rightarrow> bool" where
  "all_at_rest w \<longleftrightarrow> (\<forall>c \<in> set (w_pool w). \<forall>cl. w_clients w c = Some cl \<longrightarrow> at_rest cl)"

definition srv_inv :: "world \<Rightarrow> bool" where
  "srv_inv w \<longleftrightarrow> pool_wf w \<and> all_at_rest w \<and> unique_keys w"

lemma srv_invD: "srv_inv w \<Longrightarrow> pool_wf w" "srv_inv w \<Longrightarrow> all_at_rest w" "srv_inv w \<Longrightarrow> unique_keys w"
  by (simp_all add: srv_inv_def)

lemma unique_keysD:
  "unique_keys w \<Longrightarrow> c \<in> set (w_pool w) \<Longrightarrow> d \<in> set (w_pool w) \<Longrightarrow> key_of w c = Some k \<Longrightarrow>
     key_of w d = Some k \<Longrightarrow> snd k \<noteq> 0x8000 \<Longrightarrow> c = d"
  unfolding unique_keys_def by blast

lemma srv_inv_same:
  "srv_inv w \<Longrightarrow> w_pool w' = w_pool w \<Longrightarrow> w_clients w' = w_clients w \<Longrightarrow>
     brk (w_mem w) \<le> brk (w_mem w') \<Longrightarrow> srv_inv w'"
  by (auto simp: srv_inv_def pool_wf_def all_at_rest_def unique_keys_def key_of_def dest: less_le_trans)

lemma srv_inv_remove:
  assumes inv: "srv_inv w" and run: "RemoveClient c w = Inr w'"
  shows "srv_inv w'"
proof -
  note fr = RemoveClient_frame [OF run]
  have sub: "set (w_pool w') \<subseteq> set (w_pool w)" and cs: "\<And>d. w_clients w' d = None \<or> w_clients w' d = w_clients w d"
    using fr by (auto simp: set_remove1_subset)
  have "all_at_rest w'"
    unfolding all_at_rest_def
  proof (intro ballI allI impI)
    fix d dl assume "d \<in> set (w_pool w')" "w_clients w' d = Some dl"
    with sub cs [of d] srv_invD(2) [OF inv] show "at_rest dl" by (auto simp: all_at_rest_def)
  qed
  moreover have "unique_keys w'"
    unfolding unique_keys_def
  proof (intro ballI allI impI)
    fix a b k assume *: "a \<in> set (w_pool w')" "b \<in> set (w_pool w')" "key_of w' a = Some k"
      "key_of w' b = Some k" "snd k \<noteq> 0x8000"
    then have "key_of w a = Some k" "key_of w b = Some k"
      using cs [of a] cs [of b] by (auto simp: key_of_def)
    with * sub show "a = b" by (blast intro: unique_keysD [OF srv_invD(3) [OF inv]])
  qed
  ultimately show ?thesis
    using RemoveClient_pool_wf [OF run srv_invD(1) [OF inv]] by (simp add: srv_inv_def)
qed

lemma srv_inv_set:
  assumes inv: "srv_inv w" and cl: "w_clients w c = Some cl"
    and new: "at_rest cl'" "key cl' = key cl"
    and w': "w_pool w' = w_pool w" "w_clients w' = (w_clients w)(c \<mapsto> cl')" "brk (w_mem w) \<le> brk (w_mem w')"
  shows "srv_inv w'"
proof -
  have keys: "key_of w' = key_of w"
    using cl new(2) w'(2) by (auto simp: key_of_def)
  have "pool_wf w'"
    using srv_invD(1) [OF inv] cl w' by (auto simp: pool_wf_def dest: less_le_trans)
  moreover have "all_at_rest w'"
    using srv_invD(2) [OF inv] new(1) w' by (simp add: all_at_rest_def)
  moreover have "unique_keys w'"
    using srv_invD(3) [OF inv] by (simp add: unique_keys_def keys w'(1))
  ultimately show ?thesis by (simp add: srv_inv_def)
qed

text \<open>A new client has a key no client of the pool has, by the failed search.\<close>

lemma tid_matches_key:
  "at_rest cl \<Longrightarrow> tid_matches cl fd a \<longleftrightarrow> key cl = (fd, GetPort a) \<and> GetPort a \<noteq> 0x8000"
  using tid_matches_created [of cl "sk_addr (c_s cl)" fd a] by (auto simp: at_rest_def key_def)

lemma srv_inv_other_peer:
  "srv_inv w \<Longrightarrow> d \<in> set (w_pool w) \<Longrightarrow> w_clients w d = Some dl \<Longrightarrow>
     (sk_fd (c_s dl), GetPort (sk_addr (c_s dl))) \<noteq> (fd, GetPort a) \<Longrightarrow> \<not> tid_matches dl fd a"
  by (auto simp: srv_inv_def all_at_rest_def tid_matches_key key_def)

lemma srv_inv_find:
  assumes inv: "srv_inv w" and run: "FindOrAllocateClient fd a w = Inr (c, w')" and c: "c \<noteq> NULL"
  shows "srv_inv w'"
  using srv_invD(1) [OF inv] run c
proof (cases rule: FindOrAllocateClient_cases)
  case (found cl)
  with inv show ?thesis by simp
next
  case (new sock)
  have fresh: "c \<notin> set (w_pool w)"
    using new(2) srv_invD(1) [OF inv] by (auto simp: pool_wf_def)
  have rest: "at_rest (fresh_client fd a sock)"
    using new(6) by (simp add: at_rest_def fresh_client_def zero_client_def)
  have nokey: "key_of w d \<noteq> Some (fd, GetPort a) \<or> GetPort a = 0x8000" if d: "d \<in> set (w_pool w)" for d
  proof -
    obtain dl where dl: "w_clients w d = Some dl" "at_rest dl"
      using d srv_invD(1,2) [OF inv] by (auto simp: pool_wf_def all_at_rest_def)
    then have "\<not> tid_matches dl fd a"
      using new(1) FindClient_NULL [OF srv_invD(1) [OF inv], of fd a] d by auto
    with dl show ?thesis by (auto simp: tid_matches_key key_of_def)
  qed
  have kc: "key_of w' c = Some (fd, GetPort a)"
    using new(4-6) by (simp add: key_of_def key_def fresh_client_def)
  have kd: "key_of w' d = key_of w d" if "d \<in> set (w_pool w)" for d
    using that fresh new(4) by (auto simp: key_of_def)
  have "unique_keys w'"
    unfolding unique_keys_def
  proof (intro ballI allI impI)
    fix x y k assume *: "x \<in> set (w_pool w')" "y \<in> set (w_pool w')" "key_of w' x = Some k"
      "key_of w' y = Some k" "snd k \<noteq> 0x8000"
    then consider "x \<in> set (w_pool w)" "y \<in> set (w_pool w)" | "x = c" "y \<in> set (w_pool w)"
      | "x \<in> set (w_pool w)" "y = c" | "x = c" "y = c"
      using new(3) by auto
    then show "x = y"
    proof cases
      case 1
      then have "key_of w x = Some k" "key_of w y = Some k" using * kd by simp_all
      with 1 *(5) show ?thesis by (blast intro: unique_keysD [OF srv_invD(3) [OF inv]])
    next
      case 2
      with * kc kd nokey [of y] show ?thesis by auto
    next
      case 3
      with * kc kd nokey [of x] show ?thesis by auto
    qed simp
  qed
  moreover have "all_at_rest w'"
    using srv_invD(2) [OF inv] new(3,4) rest fresh by (auto simp: all_at_rest_def)
  ultimately show ?thesis
    using new(9) by (simp add: srv_inv_def)
qed

section \<open>The invariant holds\<close>

text \<open>Of a client of the pool, a change that keeps identity and rest keeps the invariant.\<close>

lemma srv_inv_pool_set:
  assumes "srv_inv w" "c \<in> set (w_pool w) \<Longrightarrow> at_rest cl'" "w_clients w c = Some cl" "key cl' = key cl"
    "w_pool w' = w_pool w" "w_clients w' = (w_clients w)(c \<mapsto> cl')" "brk (w_mem w) \<le> brk (w_mem w')"
  shows "srv_inv w'"
proof (cases "c \<in> set (w_pool w)")
  case True
  with assms show ?thesis by (blast intro: srv_inv_set)
next
  case False
  have keys: "key_of w' = key_of w"
    using assms(3,4,6) by (auto simp: key_of_def)
  have "all_at_rest w'"
    using False srv_invD(2) [OF assms(1)] assms(5,6) by (auto simp: all_at_rest_def split: if_splits)
  moreover have "pool_wf w'"
    using srv_invD(1) [OF assms(1)] assms by (auto simp: pool_wf_def dest: less_le_trans)
  moreover have "unique_keys w'"
    using srv_invD(3) [OF assms(1)] by (simp add: unique_keys_def keys assms(5))
  ultimately show ?thesis by (simp add: srv_inv_def)
qed

lemma send_frame_inv:
  assumes inv: "srv_inv w" and fr: "send_frame c w w'"
  shows "srv_inv w'"
proof (cases "w_clients w c")
  case None
  have "w_clients w' d = w_clients w d" for d
    using fr None by (cases "d = c") (auto simp: send_frame_def)
  then have "w_clients w' = w_clients w" ..
  with inv fr show ?thesis by (auto simp: send_frame_def intro: srv_inv_same)
next
  case (Some cl)
  with fr obtain cl' where cl': "w_clients w' c = Some cl'"
      "c_bytestransferred_update (\<lambda>_. 0) cl' = c_bytestransferred_update (\<lambda>_. 0) cl"
    by (auto simp: send_frame_def)
  have upd: "key (x\<lparr>c_bytestransferred := 0\<rparr>) = key x" "at_rest (x\<lparr>c_bytestransferred := 0\<rparr>) = at_rest x" for x
    by (simp_all add: key_def at_rest_def)
  have "key cl' = key cl" "at_rest cl' = at_rest cl"
    using upd [of cl'] upd [of cl] by (simp_all add: cl'(2))
  moreover have "w_clients w' = (w_clients w)(c \<mapsto> cl')"
    using fr cl'(1) by (auto simp: send_frame_def fun_eq_iff)
  moreover have "at_rest cl" if "c \<in> set (w_pool w)"
    using that Some srv_invD(2) [OF inv] by (simp add: all_at_rest_def)
  ultimately show ?thesis
    using inv fr Some by (intro srv_inv_pool_set [OF inv, of c cl' cl]) (auto simp: send_frame_def)
qed

lemma drained_key [simp]: "key (drained cl fl) = key cl" "at_rest (drained cl fl) = at_rest cl"
  by (simp_all add: drained_def key_def at_rest_def)

lemma send_client_inv:
  assumes inv: "srv_inv w" and run: "send_client c w = Inr (r, w')"
  shows "srv_inv w'"
  using run
proof (cases rule: send_client_cases)
  case failed
  with inv show ?thesis by (blast intro: send_frame_inv)
next
  case (kept cl w1 fl ep)
  have inv1: "srv_inv w1" by (rule send_frame_inv [OF inv kept(2)])
  have "at_rest cl" if "c \<in> set (w_pool w1)"
    using that kept(3) srv_invD(2) [OF inv1] by (simp add: all_at_rest_def)
  then show ?thesis
    using kept by (intro srv_inv_pool_set [OF inv1, of c "drained cl fl" cl]) (simp_all add: set_client_def)
next
  case (removed cl w1 fl ep fs)
  have inv1: "srv_inv w1" by (rule send_frame_inv [OF inv removed(2)])
  have "at_rest cl" if "c \<in> set (w_pool w1)"
    using that removed(3) srv_invD(2) [OF inv1] by (simp add: all_at_rest_def)
  then have "srv_inv ((set_client c (drained cl fl) (w1\<lparr>w_mux := ep\<rparr>))\<lparr>w_fs := fs\<rparr>)"
    using removed by (intro srv_inv_pool_set [OF inv1, of c "drained cl fl" cl]) (simp_all add: set_client_def)
  then show ?thesis by (rule srv_inv_remove [OF _ removed(6)])
qed

lemma ReceivePackets_inv:
  assumes inv: "srv_inv w" and run: "ReceivePackets s w = Inr (r, w')"
  shows "srv_inv w'"
  using run
proof (cases rule: ReceivePackets_cases)
  case (idle e net h)
  with inv show ?thesis by (auto intro: srv_inv_same)
next
  case (datagram data a net h c w2 cl cl1 n buf cl2 w4)
  have "srv_inv (w\<lparr>w_net := net, w_errno := 0, w_mem := h\<rparr>)"
    using datagram(2) by (intro srv_inv_same [OF inv]) simp_all
  then have inv2: "srv_inv w2" using srv_inv_find [OF _ datagram(3,4)] by blast
  note k = ProcessPacket_keeps [OF datagram(7)]
  have "at_rest cl2" if "c \<in> set (w_pool w2)"
  proof -
    have "at_rest cl"
      using that datagram(5) srv_invD(2) [OF inv2] by (simp add: all_at_rest_def)
    with k datagram(6) show ?thesis by (simp add: at_rest_def keeps_def)
  qed
  with datagram k show ?thesis
    by (intro srv_inv_pool_set [OF inv2, of c cl2 cl])
      (simp_all add: keeps_def key_def set_client_def)
qed

lemma srv_inv_quiet: "srv_inv w \<Longrightarrow> CheckClients w = Inr w"
  by (intro CheckClients_quiet pool_wf_live)
    (auto simp: srv_inv_def all_at_rest_def at_rest_def none_waiting_def)

section \<open>Invariants of the rounds\<close>

text \<open>
  What a round keeps if sending for one client and receiving one datagram keep it, and changes
  elsewhere (fewer sockets, multiplexer, network, clock, \<open>errno\<close>) do not matter to it. A socket is
  used after it was taken from the pool, when it may not be there any more: the set \<open>S\<close> has the sockets taken.
\<close>

locale round_invariant =
  fixes I :: "socket set \<Rightarrow> world \<Rightarrow> bool"
  assumes elsewhere: "I S w \<Longrightarrow> w_pool w' = w_pool w \<Longrightarrow> w_clients w' = w_clients w \<Longrightarrow> w_fs w' = w_fs w \<Longrightarrow>
      set (w_socks w') \<subseteq> set (w_socks w) \<Longrightarrow> brk (w_mem w) \<le> brk (w_mem w') \<Longrightarrow> I S w'"
    and sending: "I S w \<Longrightarrow> send_client c w = Inr (r, w') \<Longrightarrow> I S w'"
    and receiving: "I S w \<Longrightarrow> s \<in> S \<Longrightarrow> ReceivePackets s w = Inr (r, w') \<Longrightarrow> I S w'"
    and learn: "I S w \<Longrightarrow> s \<in> set (w_socks w) \<Longrightarrow> I (insert s S) w"
    and forget: "I T w \<Longrightarrow> S \<subseteq> T \<Longrightarrow> I S w"
    and quiet: "I S w \<Longrightarrow> CheckClients w = Inr w"
begin

lemma sends:
  assumes "I S w"
  shows "partial (\<lambda>(r, w'). I S w') (SendPackets w)"
  unfolding SendPackets_def
proof (rule pool_loop_inv [where I = "I S", OF assms])
  fix c w assume "I S w"
  then show "partial (\<lambda>(r, w'). I S w') (send_client c w)"
    by (cases "send_client c w") (auto intro: sending)
qed

lemma destroys:
  assumes "I S w"
  shows "partial (I S) (DestroySocket s b w)"
proof (cases "DestroySocket s b w")
  case (Inr w')
  from DestroySocket_frame [OF this] have "I S w'"
    by (intro elsewhere [OF assms]) (simp_all add: same_outside_def socks_shrink_def)
  with Inr show ?thesis by simp
qed simp

text \<open>A round keeps it.\<close>

lemma serves_socket:
  assumes inv: "I S w" and s: "s \<in> S"
  shows "partial (I S) (serve_socket s err out inp w)"
proof -
  have rp: "partial (\<lambda>(r, w'). I S w') (ReceivePackets s w)" if "I S w" for w
    using receiving [OF that s] by (cases "ReceivePackets s w") auto
  have sp: "partial (I S) (if out then and_then (SendPackets w) (\<lambda>(r, w2).
               if r = - 1 then DestroySocket s True w2 else Inr w2) else Inr w)"
    using sends [OF inv] inv destroys by (auto elim!: sat_mono)
  have "partial (I S) (if inp w3 then and_then (ReceivePackets s w3) (\<lambda>(r, w4).
                  if r = - 1 then DestroySocket s True w4 else Inr w4) else Inr w3)" if "I S w3" for w3
    using rp [OF that] that destroys by (auto elim!: sat_mono)
  note sat_bind [OF sp this]
  with destroys [OF inv] show ?thesis
    by (simp add: serve_socket_def del: and_then_if sat_and_then)
qed

lemma serves_known:
  assumes "I S w" "s \<in> set (w_socks w)"
  shows "partial (I S) (serve_socket s err out inp w)"
  by (rule sat_mono [OF serves_socket [OF learn [OF assms]]]) (auto intro: forget)

lemma event: "I S w \<Longrightarrow> I S (call_event t w)"
  by (erule elsewhere) simp_all

lemma muxed: "I S w \<Longrightarrow> I S (w\<lparr>w_mux := m\<rparr>)"
  by (erule elsewhere) simp_all

lemma found: "FindSocket fd w = (r, Some s) \<Longrightarrow> s \<in> set (w_socks w)"
  by (auto simp: FindSocket_def find_Some_iff split: option.splits)

lemma serves_found:
  "I S w \<Longrightarrow> FindSocket fd w = (r, Some s) \<Longrightarrow> partial (I S) (serve_socket s err out inp (call_event t w))"
  using found by (intro serves_known event) auto

lemma closes_unknown:
  "I S w \<Longrightarrow> partial (I S) (and_then (RemoveFromMultiplexer fd fl (w_mux w)) (\<lambda>(r, m). Inr (w\<lparr>w_mux := f m\<rparr>)))"
  by (cases "RemoveFromMultiplexer fd fl (w_mux w)") (auto intro: muxed)

lemma epoll_events: "I S w \<Longrightarrow> partial (I S) (process_event ev w)"
  by (auto simp: process_event_def intro: serves_found closes_unknown split: prod.split option.split simp del: sat_and_then)

lemma poll_events: "I S w \<Longrightarrow> partial (I S) (poll_event i ev w)"
  by (auto simp: poll_event_def Let_def intro: serves_found closes_unknown split: prod.split option.split simp del: sat_and_then)

lemma poll_rounds: "I S w \<Longrightarrow> partial (I S) (poll_loop n t i p w)"
proof (induction n arbitrary: i p w)
  case (Suc n)
  then show ?case
    by (auto simp: Let_def split: mux.split intro!: sat_mono [OF poll_events])
qed simp

lemma select_events:
  assumes "I S w" "s \<in> set (w_socks w)"
  shows "partial (I S) (select_socket sets s w)"
  using assms serves_known [OF assms] serves_known [OF event [OF assms(1)], of s]
  by (auto simp: select_socket_def FD_ISSET_def split: prod.split)

lemma select_rounds: "I S w \<Longrightarrow> partial (I S) (select_loop n sets i w)"
  by (induction n arbitrary: i w) (auto intro!: sat_mono [OF select_events])

lemma kqueue_events: "I S w \<Longrightarrow> partial (I S) (kqueue_event ev w)"
  by (auto simp: kqueue_event_def intro: serves_found closes_unknown split: prod.split option.split simp del: sat_and_then)

lemma kqueue_rounds:
  assumes inv: "I S w"
  shows "partial (I S) (kqueue_ProcessSockets evs k w)"
proof (cases "kqueue_ProcessSockets evs k w")
  case (Inr w')
  then obtain e es k' where run: "(case evs of None \<Rightarrow> Inr (w\<lparr>w_errno := e, w_mux := Kqueue k'\<rparr>)
      | Some _ \<Rightarrow> fold_res kqueue_event es (w\<lparr>w_errno := e, w_mux := Kqueue k'\<rparr>)) = Inr w'"
    unfolding kqueue_ProcessSockets_def Let_def and_then_eq_Inr by (auto simp: and_then_eq_Inr)
  have 1: "I S (w\<lparr>w_errno := e, w_mux := Kqueue k'\<rparr>)"
    by (rule elsewhere [OF inv]) simp_all
  have "partial (I S) (fold_res kqueue_event es (w\<lparr>w_errno := e, w_mux := Kqueue k'\<rparr>))"
    by (rule sat_fold_res) (use 1 kqueue_events in auto)
  with run 1 Inr show ?thesis by (auto split: option.splits)
qed simp

lemma epoll_rounds:
  assumes inv: "I S w"
  shows "partial (I S) (epoll_ProcessSockets evs k w)"
proof (cases "epoll_ProcessSockets evs k w")
  case (Inr w')
  then obtain e es k' where run: "(case evs of None \<Rightarrow> Inr (w\<lparr>w_errno := e, w_mux := Epoll k'\<rparr>)
      | Some _ \<Rightarrow> fold_res process_event es (w\<lparr>w_errno := e, w_mux := Epoll k'\<rparr>)) = Inr w'"
    unfolding epoll_ProcessSockets_def Let_def and_then_eq_Inr by (auto simp: and_then_eq_Inr)
  have 1: "I S (w\<lparr>w_errno := e, w_mux := Epoll k'\<rparr>)"
    by (rule elsewhere [OF inv]) simp_all
  have "partial (I S) (fold_res process_event es (w\<lparr>w_errno := e, w_mux := Epoll k'\<rparr>))"
    by (rule sat_fold_res) (use 1 epoll_events in auto)
  with run 1 Inr show ?thesis by (auto split: option.splits)
qed simp

lemma processes: "I S w \<Longrightarrow> partial (I S) (ProcessSockets evs w)"
  by (auto simp: ProcessSockets_def poll_ProcessSockets_def
      select_ProcessSockets_def Let_def split: mux.split option.split
      intro!: epoll_rounds kqueue_rounds poll_rounds select_rounds muxed)

lemma keeps_round:
  assumes "I S w"
  shows "partial (I S) (server_round evs w)"
  using processes [OF assms, of evs]
  by (auto simp: server_round_def quiet [OF assms] elim!: sat_mono intro: event)

lemma keeps_step: "step w w' \<Longrightarrow> I S w \<Longrightarrow> I S w'"
proof (induction rule: step.induct)
  case (round evs w w')
  with keeps_round [of S w evs] show ?case by simp
next
  case (environment w t q sf)
  then show ?case by (rule elsewhere) simp_all
qed

lemma keeps_reachable: "reachable w0 w \<Longrightarrow> I S w0 \<Longrightarrow> I S w"
  by (induction rule: reachable.induct) (blast intro: keeps_step)+
end

interpretation srv: round_invariant "\<lambda>_. srv_inv"
  by unfold_locales (blast intro: srv_inv_same send_client_inv ReceivePackets_inv srv_inv_quiet)+

lemmas server_round_inv = srv.keeps_round
lemmas call_event_inv = srv.event

lemma reachable_inv:
  assumes "reachable w0 w" "initial w0"
  shows "srv_inv w"
  using assms(2) by (intro srv.keeps_reachable [OF assms(1)])
    (simp add: srv_inv_def initial_def pool_wf_def all_at_rest_def unique_keys_def)

end
