(* ===== verification/Rounds.thy ===== *)
theory Rounds
  imports Server
begin

text \<open>
  The loops of the multiplexers end by themselves. In a round, sockets are added to the
  pool only for datagrams taken from the network, and no descriptor is added to the
  multiplexer; so the bounds of \<open>poll_loop\<close> and \<open>select_loop\<close> are never what stops them.
\<close>

section \<open>What a round consumes\<close>

definition pend :: "int set \<Rightarrow> network \<Rightarrow> nat" where
  "pend F net = (\<Sum>fd \<in> F. length (inq net fd))"

definition traffic :: "int set \<Rightarrow> world \<Rightarrow> world \<Rightarrow> bool" where
  "traffic F w w' \<longleftrightarrow> mux_le (w_mux w) (w_mux w')
     \<and> (sk_fd ` set (w_socks w) \<subseteq> F \<longrightarrow> sk_fd ` set (w_socks w') \<subseteq> F)
     \<and> length (w_socks w') + pend F (w_net w') \<le> length (w_socks w) + pend F (w_net w)"

lemma traffic_refl [simp]: "traffic F w w"
  by (simp add: traffic_def)

lemma traffic_trans [trans]: "traffic F w w1 \<Longrightarrow> traffic F w1 w2 \<Longrightarrow> traffic F w w2"
  by (auto simp: traffic_def intro: mux_le_trans)

lemma pend_cong: "inq net' = inq net \<Longrightarrow> pend F net' = pend F net"
  by (simp add: pend_def)

lemma traffic_shrink: "socks_shrink w w' \<Longrightarrow> inq (w_net w') = inq (w_net w) \<Longrightarrow> traffic F w w'"
  using pend_cong [of "w_net w'" "w_net w" F] by (auto simp: traffic_def socks_shrink_def)

lemma traffic_same:
  "w_socks w' = w_socks w \<Longrightarrow> mux_le (w_mux w) (w_mux w') \<Longrightarrow> inq (w_net w') = inq (w_net w) \<Longrightarrow> traffic F w w'"
  by (rule traffic_shrink) (simp_all add: socks_shrink_def)

text \<open>The same for runs.\<close>

lemma traffic_after: "traffic F w w1 \<Longrightarrow> partial (traffic F w1) m \<Longrightarrow> partial (traffic F w) m"
  by (cases m) (auto intro: traffic_trans)

lemma traffic_bind:
  "partial (traffic F w) m \<Longrightarrow> (\<And>w1. traffic F w w1 \<Longrightarrow> partial (traffic F w1) (f w1)) \<Longrightarrow>
     partial (traffic F w) (and_then m f)"
  by (cases m) (auto intro: traffic_after)

lemma traffic_bind2:
  "partial (\<lambda>(r, w'). traffic F w w') m \<Longrightarrow> (\<And>r w1. traffic F w w1 \<Longrightarrow> partial (traffic F w1) (f (r, w1))) \<Longrightarrow>
     partial (traffic F w) (and_then m f)"
  by (cases m) (auto intro: traffic_after)

lemma DestroySocket_traffic: "partial (traffic F w) (DestroySocket s b w)"
  by (cases "DestroySocket s b w") (auto simp: same_outside_def dest!: DestroySocket_frame intro: traffic_shrink)

lemma send_client_traffic:
  assumes "send_client c w = Inr (r, w')"
  shows "traffic F w w'"
  using assms
proof (cases rule: send_client_cases)
  case failed
  then show ?thesis by (intro traffic_same) (simp_all add: send_frame_def)
next
  case (kept cl w1 fl ep)
  then show ?thesis by (intro traffic_same) (simp_all add: send_frame_def set_client_def)
next
  case (removed cl w1 fl ep fs)
  let ?w = "(set_client c (drained cl fl) (w1\<lparr>w_mux := ep\<rparr>))\<lparr>w_fs := fs\<rparr>"
  have "traffic F w ?w"
    using removed by (intro traffic_same) (simp_all add: send_frame_def set_client_def)
  also have "traffic F ?w w'"
    using RemoveClient_frame [OF removed(6)] by (intro traffic_shrink) (simp_all add: same_outside_def)
  finally show ?thesis .
qed

lemma SendPackets_traffic: "partial (\<lambda>(r, w'). traffic F w w') (SendPackets w)"
  unfolding SendPackets_def
proof (rule pool_loop_inv [where I = "traffic F w"])
  fix c w1 assume "traffic F w w1"
  then show "partial (\<lambda>(r, w'). traffic F w w') (send_client c w1)"
    by (cases "send_client c w1") (auto intro: traffic_trans send_client_traffic)
qed simp

text \<open>At most one socket is added, and then a datagram was taken.\<close>

lemma FindOrAllocateClient_socks:
  assumes run: "FindOrAllocateClient fd a w = Inr (c, w')" and c: "c \<noteq> NULL"
  shows "w_net w' = w_net w \<and> mux_le (w_mux w) (w_mux w')
    \<and> (w_socks w' = w_socks w \<or> (\<exists>sock. sk_fd sock = fd \<and> w_socks w' = w_socks w @ [sock]))"
proof -
  obtain found where found: "FindClient fd a w = Inr found"
    using run by (auto simp: FindOrAllocateClient_def and_then_eq_Inr)
  show ?thesis
  proof (cases "found = NULL")
    case False
    with run found show ?thesis by (simp add: FindOrAllocateClient_def)
  next
    case True
    with run found obtain c1 w1 r sock w2 where nc: "new_client w = Inr (c1, w1)"
      and add: "AddSocket fd None a False w1 = Inr ((r, sock), w2)"
      by (auto simp: FindOrAllocateClient_def and_then_eq_Inr)
    note fr = AddSocket_frame [OF add]
    from run found True nc add c fr obtain cl where r: "r = 0" and at: "client_at c1 w2 = Inr cl"
      and ac: "AddClient c1 (set_client c1 (cl\<lparr>c_s := sock, c_queue := []\<rparr>) w2) = Inr w'"
      by (auto simp: FindOrAllocateClient_def and_then_eq_Inr Let_def split: if_splits)
    have "w_socks w1 = w_socks w" "w_mux w1 = w_mux w" "w_net w1 = w_net w"
      using nc by (auto simp: new_client_def Let_def set_client_def split: if_splits)
    then show ?thesis
      using fr r AddClient_frame [OF ac] by (auto simp: same_outside_def set_client_def)
  qed
qed

lemma pend_pop:
  assumes "finite F" "fd \<in> F" "inq net fd = r # rs"
  shows "Suc (pend F (net\<lparr>inq := (inq net)(fd := rs)\<rparr>)) = pend F net"
  using assms by (simp add: pend_def sum.remove [of F fd])

lemma recvfrom_pend:
  assumes F: "finite F" "fd \<in> F" and run: "recvfrom fd net = (r, net')"
  shows "pend F net' \<le> pend F net" "r = Recv_packet data a \<Longrightarrow> Suc (pend F net') = pend F net"
  using run pend_pop [OF F, of net] by (fastforce simp: recvfrom_def split: list.splits)+

lemma ReceivePackets_traffic:
  assumes F: "finite F" "sk_fd s \<in> F"
  shows "partial (\<lambda>(r, w'). traffic F w w') (ReceivePackets s w)"
proof (cases "ReceivePackets s w")
  case (Inr rw)
  obtain r w' where rw: "rw = (r, w')" by force
  from Inr [unfolded rw] have "traffic F w w'"
  proof (cases rule: ReceivePackets_cases)
    case (idle e net h)
    with recvfrom_pend(1) [OF F idle(1)] show ?thesis by (simp add: traffic_def)
  next
    case (datagram data a net h c w2 cl cl1 n buf cl2 w4)
    note fc = FindOrAllocateClient_socks [OF datagram(3,4)]
    note pop = recvfrom_pend(2) [OF F datagram(1) refl]
    have "w_net w' = net" "mux_le (w_mux w2) (w_mux w')" "w_socks w' = w_socks w2"
      using ProcessPacket_keeps [OF datagram(7)] fc datagram(8) by (simp_all add: keeps_def set_client_def)
    then show ?thesis
      using fc pop F(2) by (auto simp: traffic_def image_subset_iff intro: mux_le_trans)
  qed
  with Inr rw show ?thesis by simp
qed simp

lemma serve_socket_traffic:
  assumes F: "finite F" "sk_fd s \<in> F"
  shows "partial (traffic F w) (serve_socket s err out inp w)"
proof -
  have sp: "partial (traffic F w) (if out then and_then (SendPackets w) (\<lambda>(r, w2).
               if r = - 1 then DestroySocket s True w2 else Inr w2) else Inr w)"
    by (simp add: traffic_bind2 [OF SendPackets_traffic] DestroySocket_traffic del: and_then_if sat_and_then)
  have "partial (traffic F w3) (if inp w3 then and_then (ReceivePackets s w3) (\<lambda>(r, w4).
                  if r = - 1 then DestroySocket s True w4 else Inr w4) else Inr w3)" for w3
    by (simp add: traffic_bind2 [OF ReceivePackets_traffic [OF F]] DestroySocket_traffic del: and_then_if sat_and_then)
  note traffic_bind [OF sp this]
  with DestroySocket_traffic show ?thesis
    by (simp add: serve_socket_def del: and_then_if sat_and_then)
qed

section \<open>Enough rounds\<close>

lemma call_event_traffic: "traffic F w (call_event t w)"
  by (rule traffic_same) simp_all

lemma select_socket_traffic:
  assumes "finite F" "sk_fd s \<in> F"
  shows "partial (traffic F w) (select_socket sets s w)"
proof -
  have "partial (traffic F w) (serve_socket s err out inp (if b then call_event EV_SOCKETACTIVITY w else w))"
    for err out inp b
    using traffic_after [OF call_event_traffic serve_socket_traffic [OF assms]] serve_socket_traffic [OF assms]
    by simp
  then show ?thesis
    by (auto simp: select_socket_def FD_ISSET_def split: prod.split)
qed

lemma select_loop_more:
  assumes "finite F" "sk_fd ` set (w_socks w) \<subseteq> F" "length (w_socks w) + pend F (w_net w) \<le> i + n"
  shows "select_loop (n + k) sets i w = select_loop n sets i w"
  using assms(2,3)
proof (induction n arbitrary: i w)
  case 0
  then show ?case by (cases k) auto
next
  case (Suc n)
  show ?case
  proof (cases "i < length (w_socks w)")
    case True
    have fd: "sk_fd (w_socks w ! i) \<in> F" using Suc.prems(1) True by (auto intro: nth_mem)
    show ?thesis
    proof (cases "select_socket sets (w_socks w ! i) w")
      case (Inr w1)
      with select_socket_traffic [OF assms(1) fd, of w sets] have "traffic F w w1" by simp
      with Suc.prems Inr True Suc.IH [of w1 "Suc i"] show ?thesis
        by (simp add: traffic_def)
    qed (simp add: True)
  qed simp
qed

lemma pending_pend: "pending fds net = pend (set fds) net"
  by (simp add: pending_def pend_def sum_list_distinct_conv_sum_set)

lemma select_loop_fuel:
  "length (w_socks w) + pending (map sk_fd (w_socks w)) (w_net w) \<le> n \<Longrightarrow>
     select_loop n sets 0 w
     = select_loop (length (w_socks w) + pending (map sk_fd (w_socks w)) (w_net w)) sets 0 w"
  using select_loop_more [of "sk_fd ` set (w_socks w)" w 0
      "length (w_socks w) + pending (map sk_fd (w_socks w)) (w_net w)"
      "n - (length (w_socks w) + pending (map sk_fd (w_socks w)) (w_net w))" sets]
  by (simp add: pending_pend)

lemma poll_event_le:
  assumes "poll_event i ev w = Inr w'"
  shows "mux_le (w_mux w) (w_mux w')"
proof (cases "snd (FindSocket (pf_fd ev) w)")
  case None
  then obtain r where "FindSocket (pf_fd ev) w = (r, None)" by (cases "FindSocket (pf_fd ev) w") auto
  with assms show ?thesis
    by (auto simp: poll_event_def and_then_eq_Inr Let_def intro: mux_le_trans RemoveFromMultiplexer_le)
next
  case (Some s)
  then obtain r where "FindSocket (pf_fd ev) w = (r, Some s)" by (cases "FindSocket (pf_fd ev) w") auto
  with assms have "serve_socket s (has_flag (pf_revents ev) (POLLERR OR POLLRDHUP)) (has_flag (pf_revents ev) POLLOUT)
      (\<lambda>w3. has_flag (pf_revents (pollfd_at i ev w3)) POLLIN) (call_event EV_SOCKETACTIVITY w) = Inr w'"
    by (simp add: poll_event_def)
  with serve_socket_traffic [of "{sk_fd s}" s "call_event EV_SOCKETACTIVITY w"] show ?thesis
    by (metis call_event_simps(7) finite.emptyI finite_insert insertI1 sat_Inr traffic_def)
qed

lemma poll_loop_more:
  "w_mux w = Poll evs \<Longrightarrow> length evs \<le> i + n \<Longrightarrow> poll_loop (n + k) c i p w = poll_loop n c i p w"
proof (induction n arbitrary: i p w evs)
  case 0
  then show ?case by (cases k) auto
next
  case (Suc n)
  show ?case
  proof (cases "i < length evs \<and> p \<noteq> c \<and> pf_revents (evs ! i) \<noteq> 0")
    case True
    show ?thesis
    proof (cases "poll_event i (evs ! i) w")
      case (Inr w1)
      from poll_event_le [OF Inr] Suc.prems(1) obtain evs1 where
        "w_mux w1 = Poll evs1" "length evs1 \<le> length evs"
        by (auto simp: mux_le_def split: mux.splits)
      with Inr True Suc.prems Suc.IH [of w1 evs1 "Suc i" "Suc p"] show ?thesis by (simp add: Let_def)
    qed (simp add: True Suc.prems Let_def)
  next
    case False
    with Suc.prems Suc.IH [of w evs "Suc i" p] show ?thesis by (auto simp: Let_def)
  qed
qed

lemma poll_loop_fuel:
  "w_mux w = Poll evs \<Longrightarrow> length evs \<le> n \<Longrightarrow> poll_loop n c 0 0 w = poll_loop (length evs) c 0 0 w"
  using poll_loop_more [of w evs 0 "length evs" "n - length evs" c 0] by simp

end
