(* ===== verification/Isolation.thy ===== *)
theory Isolation
  imports Server
begin

text \<open>
  Clients do not disturb one another: in all reachable states no two clients point to the same
  memory or the same open file, nor to a buffer a socket receives in, and so a datagram changes
  nothing that belongs to a client it does not come from.
\<close>

section \<open>The invariant\<close>

definition apart :: "world \<Rightarrow> bool" where
  "apart w \<longleftrightarrow> (\<forall>c cl. w_clients w c = Some cl \<longrightarrow> settled cl w
     \<and> (\<forall>d dl. w_clients w d = Some dl \<longrightarrow> d \<noteq> c \<longrightarrow>
          owns cl \<inter> owns dl = {} \<and> (c_f dl \<noteq> 0 \<longrightarrow> c_f cl \<noteq> c_f dl)))"

definition buffers_apart :: "socket set \<Rightarrow> world \<Rightarrow> bool" where
  "buffers_apart S w \<longleftrightarrow> (\<forall>s \<in> S \<union> set (w_socks w). sk_packet s < brk (w_mem w)
     \<and> (\<forall>c cl. w_clients w c = Some cl \<longrightarrow> sk_packet s \<notin> owns cl))"

definition isolated :: "socket set \<Rightarrow> world \<Rightarrow> bool" where
  "isolated S w \<longleftrightarrow> srv_inv w \<and> apart w \<and> buffers_apart S w"

lemma apartD:
  "apart w \<Longrightarrow> w_clients w c = Some cl \<Longrightarrow> settled cl w"
  "apart w \<Longrightarrow> w_clients w c = Some cl \<Longrightarrow> w_clients w d = Some dl \<Longrightarrow> d \<noteq> c \<Longrightarrow> owns cl \<inter> owns dl = {}"
  "apart w \<Longrightarrow> w_clients w c = Some cl \<Longrightarrow> w_clients w d = Some dl \<Longrightarrow> d \<noteq> c \<Longrightarrow> c_f dl \<noteq> 0 \<Longrightarrow> c_f cl \<noteq> c_f dl"
  unfolding apart_def by blast+

lemma settled_later:
  "settled cl w \<Longrightarrow> brk (w_mem w) \<le> brk (w_mem w') \<Longrightarrow> next_handle (w_fs w) \<le> next_handle (w_fs w') \<Longrightarrow>
     owns cl' \<subseteq> owns cl \<Longrightarrow> c_f cl' = c_f cl \<Longrightarrow> settled cl' w'"
  by (fastforce simp: settled_def)

text \<open>What belongs to another client is alien and foreign to this one.\<close>

lemma apart_alien:
  assumes "apart w" "w_clients w c = Some cl" "w_clients w d = Some dl" "d \<noteq> c"
  shows "p \<in> owns dl \<Longrightarrow> alien cl w p" "c_f dl \<noteq> 0 \<Longrightarrow> foreign cl w (c_f dl)"
  using apartD(1) [OF assms(1,3)] apartD(2,3) [OF assms]
  by (auto simp: alien_def foreign_def settled_def)

section \<open>Giving up\<close>

text \<open>A state whose clients and sockets have at most what they had.\<close>

definition gives_up :: "world \<Rightarrow> world \<Rightarrow> bool" where
  "gives_up w w' \<longleftrightarrow> brk (w_mem w) \<le> brk (w_mem w') \<and> next_handle (w_fs w) \<le> next_handle (w_fs w')
     \<and> set (w_socks w') \<subseteq> set (w_socks w)
     \<and> (\<forall>c cl'. w_clients w' c = Some cl' \<longrightarrow>
          (\<exists>cl. w_clients w c = Some cl \<and> owns cl' \<subseteq> owns cl \<and> c_f cl' = c_f cl))"

lemma gives_upD:
  "gives_up w w' \<Longrightarrow> w_clients w' c = Some cl' \<Longrightarrow> \<exists>cl. w_clients w c = Some cl \<and> owns cl' \<subseteq> owns cl \<and> c_f cl' = c_f cl"
  unfolding gives_up_def by blast

lemma gives_up_trans: "gives_up w w1 \<Longrightarrow> gives_up w1 w2 \<Longrightarrow> gives_up w w2"
  unfolding gives_up_def by (fastforce)

lemma gives_up_apart:
  assumes g: "gives_up w w'" and a: "apart w"
  shows "apart w'"
  unfolding apart_def
proof (intro allI impI conjI)
  fix c cl' assume c: "w_clients w' c = Some cl'"
  then obtain cl where cl: "w_clients w c = Some cl" "owns cl' \<subseteq> owns cl" "c_f cl' = c_f cl"
    using gives_upD [OF g] by blast
  have brk: "brk (w_mem w) \<le> brk (w_mem w')" "next_handle (w_fs w) \<le> next_handle (w_fs w')"
    using g by (simp_all add: gives_up_def)
  from apartD(1) [OF a cl(1)] cl(2,3) brk show "settled cl' w'" by (blast intro: settled_later)
  fix d dl' assume d: "w_clients w' d = Some dl'" "d \<noteq> c"
  then obtain dl where dl: "w_clients w d = Some dl" "owns dl' \<subseteq> owns dl" "c_f dl' = c_f dl"
    using gives_upD [OF g] by blast
  show "owns cl' \<inter> owns dl' = {}" using apartD(2) [OF a cl(1) dl(1) d(2)] cl(2) dl(2) by blast
  assume "c_f dl' \<noteq> 0"
  then show "c_f cl' \<noteq> c_f dl'" using apartD(3) [OF a cl(1) dl(1) d(2)] cl(3) dl(3) by simp
qed

lemma gives_up_buffers:
  assumes g: "gives_up w w'" and b: "buffers_apart S w"
  shows "buffers_apart S w'"
  unfolding buffers_apart_def
proof (intro ballI allI impI conjI)
  fix s assume "s \<in> S \<union> set (w_socks w')"
  then have s: "s \<in> S \<union> set (w_socks w)" using g by (auto simp: gives_up_def)
  with b g show "sk_packet s < brk (w_mem w')" by (auto simp: buffers_apart_def gives_up_def dest: less_le_trans)
  fix c cl' assume "w_clients w' c = Some cl'"
  then obtain cl where "w_clients w c = Some cl" "owns cl' \<subseteq> owns cl"
    using gives_upD [OF g] by blast
  with b s show "sk_packet s \<notin> owns cl'" by (auto simp: buffers_apart_def)
qed

lemma gives_up_same:
  "w_clients w' = w_clients w \<Longrightarrow> w_fs w' = w_fs w \<Longrightarrow> set (w_socks w') \<subseteq> set (w_socks w) \<Longrightarrow>
     brk (w_mem w) \<le> brk (w_mem w') \<Longrightarrow> gives_up w w'"
  by (auto simp: gives_up_def)

lemma owns_drained: "owns (drained cl fl) \<subseteq> owns cl" "c_f (drained cl fl) = c_f cl"
  by (auto simp: drained_def owns_def)

lemma owns_equal: "c_bytestransferred_update (\<lambda>_. 0) cl' = c_bytestransferred_update (\<lambda>_. 0) cl \<Longrightarrow>
    owns cl' = owns cl \<and> c_f cl' = c_f cl"
  by (cases cl, cases cl') (simp add: owns_def)

lemma send_frame_gives_up:
  assumes fr: "send_frame c w w'"
  shows "gives_up w w'"
  unfolding gives_up_def
proof (intro conjI allI impI)
  fix d dl' assume d: "w_clients w' d = Some dl'"
  show "\<exists>dl. w_clients w d = Some dl \<and> owns dl' \<subseteq> owns dl \<and> c_f dl' = c_f dl"
  proof (cases "d = c")
    case True
    with d fr obtain cl where "w_clients w c = Some cl"
        "c_bytestransferred_update (\<lambda>_. 0) dl' = c_bytestransferred_update (\<lambda>_. 0) cl"
      by (cases "w_clients w c") (auto simp: send_frame_def)
    with True owns_equal show ?thesis by blast
  qed (use d fr in \<open>auto simp: send_frame_def\<close>)
qed (use fr in \<open>simp_all add: send_frame_def\<close>)

lemma send_client_gives_up:
  assumes "send_client c w = Inr (r, w')"
  shows "gives_up w w'"
  using assms
proof (cases rule: send_client_cases)
  case failed
  then show ?thesis by (blast intro: send_frame_gives_up)
next
  case (kept cl w1 fl ep)
  have "gives_up w1 w'"
    using kept(3,6) owns_drained [of cl fl] by (auto simp: gives_up_def set_client_def)
  with send_frame_gives_up [OF kept(2)] show ?thesis by (rule gives_up_trans)
next
  case (removed cl w1 fl ep fs)
  let ?w = "(set_client c (drained cl fl) (w1\<lparr>w_mux := ep\<rparr>))\<lparr>w_fs := fs\<rparr>"
  have "gives_up w1 ?w"
    using removed(3,7) owns_drained [of cl fl] by (auto simp: gives_up_def set_client_def only_stream_def)
  moreover have "gives_up ?w w'"
    using RemoveClient_frame [OF removed(6)]
    by (auto simp: gives_up_def same_outside_def socks_shrink_def split: if_splits)
  ultimately show ?thesis
    using send_frame_gives_up [OF removed(2)] by (blast intro: gives_up_trans)
qed

section \<open>Receiving\<close>

text \<open>The client of a datagram: found, or new and without memory of its own.\<close>

lemma found_or_new:
  assumes inv: "isolated S w" and run: "FindOrAllocateClient fd a w = Inr (c, w')" and c: "c \<noteq> NULL"
  shows "isolated S w' \<and> extends (w_mem w) (w_mem w') \<and> w_fs w' = w_fs w
    \<and> (\<forall>d dl. w_clients w d = Some dl \<longrightarrow> \<not> tid_matches dl fd a \<longrightarrow> d \<noteq> c \<and> w_clients w' d = Some dl)"
proof -
  have srv: "srv_inv w" and ap: "apart w" and bu: "buffers_apart S w"
    using inv by (simp_all add: isolated_def)
  show ?thesis
    using srv_invD(1) [OF srv] run c
  proof (cases rule: FindOrAllocateClient_cases)
    case (found cl)
    with inv show ?thesis by (auto simp: extends_def)
  next
    case (new sock)
    have fresh: "owns (fresh_client fd a sock) = {}" "c_f (fresh_client fd a sock) = 0"
      by (auto simp: owns_def fresh_client_def zero_client_def)
    have fs: "w_fs w' = w_fs w" using new(8) by (simp add: same_outside_def)
    have brk: "brk (w_mem w) \<le> brk (w_mem w')" using new(10) by (simp add: extends_def)
    have old: "\<exists>cl. w_clients w d = Some cl \<and> dl = cl \<or> d = c \<and> dl = fresh_client fd a sock"
      if "w_clients w' d = Some dl" for d dl
      using that new(4) by (auto split: if_splits)
    have "apart w'"
      unfolding apart_def
    proof (intro allI impI conjI)
      fix x xl assume x: "w_clients w' x = Some xl"
      show "settled xl w'"
      proof (cases "w_clients w x = Some xl")
        case True
        then show ?thesis using apartD(1) [OF ap, of x xl] brk by (auto simp: fs elim!: settled_later)
      next
        case False
        then show ?thesis using old [OF x] fresh by (auto simp: settled_def)
      qed
      fix y yl assume y: "w_clients w' y = Some yl" "y \<noteq> x"
      show "owns xl \<inter> owns yl = {}"
        using old [OF x] old [OF y(1)] y(2) apartD(2) [OF ap, of x xl y yl] fresh by auto
      assume "c_f yl \<noteq> 0"
      then show "c_f xl \<noteq> c_f yl"
        using old [OF x] old [OF y(1)] y(2) apartD(3) [OF ap, of x xl y yl] fresh by auto
    qed
    moreover have "buffers_apart S w'"
      unfolding buffers_apart_def
    proof (intro ballI allI impI conjI)
      fix s assume "s \<in> S \<union> set (w_socks w')"
      then consider "s \<in> S \<union> set (w_socks w)" | "s = sock" using new(7) by auto
      note s = this
      show "sk_packet s < brk (w_mem w')"
        using s
      proof cases
        case 1
        with bu have "sk_packet s < brk (w_mem w)" by (auto simp: buffers_apart_def)
        with brk show ?thesis by simp
      qed (use new(12) in simp)
      fix d dl assume d: "w_clients w' d = Some dl"
      show "sk_packet s \<notin> owns dl"
        using s
      proof cases
        case 1
        with bu old [OF d] fresh show ?thesis by (auto simp: buffers_apart_def)
      next
        case 2
        with old [OF d] fresh new(11) apartD(1) [OF ap, of d dl] show ?thesis by (fastforce simp: settled_def)
      qed
    qed
    ultimately show ?thesis
      using srv_inv_find [OF srv run c] new fs by (auto simp: isolated_def)
  qed
qed

text \<open>A packet is processed for the client \<open>c\<close>: what is not the client's is spared.\<close>

lemma spares_isolated:
  assumes inv: "isolated S w" and c: "w_clients w c = Some cl" and sp: "spares cl w cl' w1"
    and srv: "srv_inv w'" and w': "w_clients w' = (w_clients w)(c \<mapsto> cl')" "w_mem w' = w_mem w1" "w_fs w' = w_fs w1"
      "w_socks w' = w_socks w" "brk (w_mem w) \<le> brk (w_mem w')"
  shows "isolated S w'"
proof -
  have ap: "apart w" and bu: "buffers_apart S w"
    using inv by (simp_all add: isolated_def)
  have nh: "next_handle (w_fs w) \<le> next_handle (w_fs w')" using sp w'(3) by (simp add: spares_def)
  have set': "settled cl' w'" using sp apartD(1) [OF ap c] w' by (simp add: spares_def settled_def)
  have other: "settled dl w' \<and> owns cl' \<inter> owns dl = {} \<and> (c_f dl \<noteq> 0 \<longrightarrow> c_f cl' \<noteq> c_f dl)"
    if d: "w_clients w d = Some dl" "d \<noteq> c" for d dl
  proof (intro conjI impI)
    note al = apart_alien [OF ap c d]
    show "settled dl w'" using apartD(1) [OF ap d(1)] nh w'(5) by (auto elim!: settled_later)
    have "alien cl' w1 p" if "p \<in> owns dl" for p using al(1) [OF that] sp by (simp add: spares_def)
    then show "owns cl' \<inter> owns dl = {}" by (auto simp: alien_def)
    assume "c_f dl \<noteq> 0"
    then have "foreign cl' w1 (c_f dl)" using al(2) sp by (simp add: spares_def)
    then show "c_f cl' \<noteq> c_f dl" by (simp add: foreign_def)
  qed
  have old: "d \<noteq> c \<and> w_clients w d = Some dl \<or> d = c \<and> dl = cl'" if "w_clients w' d = Some dl" for d dl
    using that w'(1) by (auto split: if_splits)
  have "apart w'"
    unfolding apart_def
  proof (intro allI impI conjI)
    fix x xl assume x: "w_clients w' x = Some xl"
    show "settled xl w'" using old [OF x] other set' by blast
    fix y yl assume y: "w_clients w' y = Some yl" "y \<noteq> x"
    show "owns xl \<inter> owns yl = {}"
      using old [OF x] old [OF y(1)] y(2) apartD(2) [OF ap, of x xl y yl] other [of y yl] other [of x xl] by auto
    assume "c_f yl \<noteq> 0"
    then show "c_f xl \<noteq> c_f yl"
      using old [OF x] old [OF y(1)] y(2) apartD(3) [OF ap, of x xl y yl] other [of y yl] other [of x xl] by auto
  qed
  moreover have "buffers_apart S w'"
    unfolding buffers_apart_def
  proof (intro ballI allI impI conjI)
    fix s assume "s \<in> S \<union> set (w_socks w')"
    then have s: "s \<in> S \<union> set (w_socks w)" using w'(4) by simp
    then have lt: "sk_packet s < brk (w_mem w)" using bu unfolding buffers_apart_def by blast
    with w'(5) show "sk_packet s < brk (w_mem w')" by simp
    fix d dl assume "w_clients w' d = Some dl"
    then consider "w_clients w d = Some dl" | "dl = cl'" using old by blast
    then show "sk_packet s \<notin> owns dl"
    proof cases
      case 1
      with s bu show ?thesis by (auto simp: buffers_apart_def)
    next
      case 2
      have "alien cl w (sk_packet s)" using lt s bu c by (auto simp: alien_def buffers_apart_def)
      with sp have "alien cl' w1 (sk_packet s)" by (simp add: spares_def)
      with 2 show ?thesis by (simp add: alien_def)
    qed
  qed
  ultimately show ?thesis using srv by (simp add: isolated_def)
qed

lemma processed_spares:
  assumes "ProcessPacket (cl\<lparr>c_bytestransferred := b\<rparr>) buf n (call_event ev (set_client c cl1 w)) = Inr (cl2, w')"
  shows "spares cl w cl2 w'"
  using ProcessPacket_keeps [OF assms]
  by (simp add: keeps_def spares_def settled_def alien_def foreign_def set_client_def)

lemma ReceivePackets_isolated:
  assumes inv: "isolated S w" and s: "s \<in> S" and run: "ReceivePackets s w = Inr (r, w')"
  shows "isolated S w'"
  using run
proof (cases rule: ReceivePackets_cases)
  case (idle e net h)
  then have "gives_up w w'" by (intro gives_up_same) simp_all
  with ReceivePackets_inv [OF _ run] inv show ?thesis
    by (auto simp: isolated_def intro: gives_up_apart gives_up_buffers)
next
  case (datagram data a net h c w2 cl cl1 n buf cl2 w4)
  let ?w = "w\<lparr>w_net := net, w_errno := 0, w_mem := h\<rparr>"
  have "gives_up w ?w" using datagram(2) by (intro gives_up_same) simp_all
  moreover have "srv_inv ?w" using inv datagram(2) by (auto simp: isolated_def intro: srv_inv_same)
  ultimately have "isolated S ?w"
    using inv by (auto simp: isolated_def intro: gives_up_apart gives_up_buffers)
  from found_or_new [OF this datagram(3,4)] have inv2: "isolated S w2" by simp
  note k = ProcessPacket_keeps [OF datagram(7)]
  have "spares cl w2 cl2 w4"
    using processed_spares [OF datagram(7) [unfolded datagram(6)]] .
  moreover have "srv_inv w'" using ReceivePackets_inv [OF _ run] inv by (simp add: isolated_def)
  ultimately show ?thesis
    using k by (intro spares_isolated [OF inv2 datagram(5)])
      (simp_all add: datagram(8) set_client_def keeps_def)
qed

text \<open>The invariant holds in every round.\<close>

interpretation iso: round_invariant isolated
proof unfold_locales
  fix S and w w' :: world assume "isolated S w" "w_pool w' = w_pool w" "w_clients w' = w_clients w" "w_fs w' = w_fs w"
    "set (w_socks w') \<subseteq> set (w_socks w)" "brk (w_mem w) \<le> brk (w_mem w')"
  then show "isolated S w'"
    using gives_up_same [of w' w] srv_inv_same [of w w']
    by (auto simp: isolated_def intro: gives_up_apart gives_up_buffers)
next
  fix S w c r w' assume "isolated S w" "send_client c w = Inr (r, w')"
  then show "isolated S w'"
    using send_client_gives_up [of c w r w'] send_client_inv [of w c r w']
    by (auto simp: isolated_def intro: gives_up_apart gives_up_buffers)
next
  fix S w s assume "isolated S w" "s \<in> set (w_socks w)"
  then show "isolated (insert s S) w" by (auto simp: isolated_def buffers_apart_def)
next
  fix S T w assume "isolated T w" "S \<subseteq> T"
  then show "isolated S w" by (auto simp: isolated_def buffers_apart_def)
next
  fix S w assume "isolated S w"
  then show "CheckClients w = Inr w" by (simp add: isolated_def srv_inv_quiet)
qed (rule ReceivePackets_isolated)

lemma reachable_isolated:
  assumes "initial w0" "\<forall>s \<in> set (w_socks w0). sk_packet s < brk (w_mem w0)" "reachable w0 w"
  shows "isolated {} w"
proof (rule iso.keeps_reachable [OF assms(3)])
  have "srv_inv w0" by (rule reachable_inv [OF reachable.start assms(1)])
  with assms(1,2) show "isolated {} w0"
    by (simp add: isolated_def apart_def buffers_apart_def initial_def)
qed

section \<open>What a datagram leaves alone\<close>

definition untouched :: "addr \<Rightarrow> client \<Rightarrow> world \<Rightarrow> world \<Rightarrow> bool" where
  "untouched d dl w w' \<longleftrightarrow> w_clients w' d = Some dl \<and> queued dl w' = queued dl w
     \<and> (\<forall>p \<in> owns dl. blocks (w_mem w') p = blocks (w_mem w) p)
     \<and> (c_f dl \<noteq> 0 \<longrightarrow> handles (w_fs w') (c_f dl) = handles (w_fs w) (c_f dl))"

lemma ReceivePackets_untouched:
  assumes inv: "isolated {} w" and s: "s \<in> set (w_socks w)"
    and rc: "recvfrom (sk_fd s) (w_net w) = (Recv_packet data a, net)" and run: "ReceivePackets s w = Inr (r, w')"
    and d: "w_clients w d = Some dl" "\<not> tid_matches dl (sk_fd s) a"
  shows "untouched d dl w w'"
  using run
proof (cases rule: ReceivePackets_cases)
  case (idle e net h)
  with rc show ?thesis by simp
next
  case (datagram data' a' net' h c w2 cl cl1 n buf cl2 w4)
  let ?w = "w\<lparr>w_net := net', w_errno := 0, w_mem := h\<rparr>"
  have a': "a' = a" using rc datagram(1) by simp
  have "gives_up w ?w" using datagram(2) by (intro gives_up_same) simp_all
  moreover have "srv_inv ?w" using inv datagram(2) by (auto simp: isolated_def intro: srv_inv_same)
  ultimately have inv1: "isolated {} ?w"
    using inv by (auto simp: isolated_def intro: gives_up_apart gives_up_buffers)
  note new = found_or_new [OF inv1 datagram(3) [unfolded a'] datagram(4)]
  have d2: "w_clients w2 d = Some dl" "d \<noteq> c" using new d by simp_all
  have ap: "apart w" "apart w2" "buffers_apart {} w" using new inv by (simp_all add: isolated_def)
  have set1: "settled dl w" using apartD(1) [OF ap(1) d(1)] .
  note k = ProcessPacket_keeps [OF datagram(7)]
  have sp: "spares cl w2 cl2 w4"
    using processed_spares [OF datagram(7) [unfolded datagram(6)]] .
  have blk: "blocks (w_mem w') p = blocks (w_mem w) p" if p: "p \<in> insert NULL (owns dl)" for p
  proof -
    have lt: "p < brk (w_mem w)" using p set1 srv_invD(1) inv by (auto simp: settled_def isolated_def srv_inv_def pool_wf_def)
    have al: "alien cl w2 p"
    proof (cases "p = NULL")
      case True
      with lt datagram(2) new show ?thesis by (auto simp: alien_def owns_def extends_def)
    qed (use p apart_alien(1) [OF ap(2) datagram(5) d2] in simp)
    have "blocks (w_mem w') p = blocks (w_mem w2) p"
      using sp al by (simp add: spares_def datagram(8) set_client_def)
    also have "\<dots> = blocks h p" using new lt datagram(2) by (simp add: extends_def)
    also have "\<dots> = blocks (w_mem w) p"
    proof (rule datagram(11))
      show "p \<noteq> sk_packet s"
        using p s d(1) ap(3) datagram(10) by (auto simp: buffers_apart_def)
    qed
    finally show ?thesis .
  qed
  have "handles (w_fs w') (c_f dl) = handles (w_fs w) (c_f dl)" if "c_f dl \<noteq> 0"
  proof -
    have "foreign cl w2 (c_f dl)" by (rule apart_alien(2) [OF ap(2) datagram(5) d2 that])
    with sp new show ?thesis by (simp add: spares_def datagram(8) set_client_def)
  qed
  moreover have "queued dl w' = queued dl w"
  proof -
    have "blocks (w_mem w') (pq_p pq) = blocks (w_mem w) (pq_p pq)" if "pq \<in> set (c_queue dl)" for pq
      using that by (intro blk) (auto simp: owns_def)
    then show ?thesis by (simp add: queued_def pq_bytes_def)
  qed
  moreover have "w_clients w' d = Some dl"
    using d2 k by (simp add: datagram(8) set_client_def keeps_def)
  ultimately show ?thesis using blk by (simp add: untouched_def)
qed

end
