(* ===== verification/Demo.thy ===== *)
theory Demo
  imports File_Transfer Rounds Isolation
begin

text \<open>
  A concrete state on which the hypotheses of the properties are checked: a server that
  serves the directory \<open>/srv\<close> with the file \<open>/srv/a\<close> and a subdirectory, a client without a transfer,
  and packets as they arrive.
\<close>

definition demo_heap :: heap where
  "demo_heap = \<lparr>blocks = Map.empty, brk = 1, oom = (\<lambda>_. False), junk = NUL\<rparr>"

definition demo_fs :: filesys where
  "demo_fs = \<lparr>nodes = [''/srv'' \<mapsto> Dir, ''/srv/d'' \<mapsto> Dir, ''/srv/a'' \<mapsto> Reg ''hello''], handles = Map.empty,
     next_handle = 1, r_perm = (\<lambda>_. 0), w_perm = (\<lambda>p. if p = ''/srv/a'' then EACCES else 0),
     c_perm = (\<lambda>_. 0), dir_size = 0\<rparr>"

definition demo_net :: network where
  "demo_net = \<lparr>inq = (\<lambda>_. []), sent = [], nsend = 0, send_fail = (\<lambda>_. False),
     ntop = (\<lambda>_. Some ''2.0.4.0'')\<rparr>"

text \<open>An epoll instance as it is initialised, with five cells for events.\<close>

definition demo_epoll :: epoll where
  "demo_epoll = \<lparr>interest = Map.empty, open_fds = {3},
     ep_events = \<lparr>vdata = replicate 5 None, vlength = 0, vcapacity = 5\<rparr>, ep_avail = (\<lambda>_. True)\<rparr>"

lemma demo_epoll_simps [simp]:
  "interest demo_epoll = Map.empty" "open_fds demo_epoll = {3}" "ep_avail demo_epoll = (\<lambda>_. True)"
  "vdata (ep_events demo_epoll) = replicate 5 None" "vcapacity (ep_events demo_epoll) = 5" "ep_room demo_epoll"
  by (simp_all add: demo_epoll_def ep_room_def)

definition demo_world :: world where
  "demo_world = \<lparr>w_mem = demo_heap, w_clients = Map.empty, w_pool = [], w_socks = [], w_errno = 0,
     w_now = 0, w_mux = Epoll demo_epoll, w_net = demo_net, w_fs = demo_fs,
     w_mods = \<lparr>modules = [], evlog = [], dl_next = 1, dl_open = []\<rparr>,
     w_conf = \<lparr>cf_directory = Some ''/srv'', cf_fixpath = False, cf_readtimeout = 5\<rparr>,
     w_strerror = (\<lambda>_. ''denied'')\<rparr>"

definition demo_client :: client where
  "demo_client = zero_client\<lparr>c_blksize := 512\<rparr>"

text \<open>The start of a request: opcode, file name, mode, and what follows.\<close>

definition demo_request :: "16 word \<Rightarrow> string \<Rightarrow> string \<Rightarrow> byte list \<Rightarrow> byte list" where
  "demo_request opcode fn mode rest = be16 opcode @ fn @ NUL # mode @ NUL # rest"

definition demo_ack :: "byte list" where
  "demo_ack = be16 PACKET_ACK @ be16 1"

text \<open>The client in the middle of a transfer each way.\<close>

definition demo_sending :: "client \<times> world" where
  "demo_sending =
     (demo_client\<lparr>c_sendingfile := 1, c_f := 1, c_currentblockno := 1, c_actualblockno := 1\<rparr>,
      demo_world\<lparr>w_fs := demo_fs\<lparr>handles := [1 \<mapsto> \<lparr>of_path = ''/srv/a'', of_pos = 5, of_writing = False\<rparr>],
        next_handle := 2\<rparr>\<rparr>)"

definition demo_receiving :: "client \<times> world" where
  "demo_receiving =
     (demo_client\<lparr>c_sendingfile := 1, c_f := 1\<rparr>,
      demo_world\<lparr>w_fs := demo_fs\<lparr>handles := [1 \<mapsto> \<lparr>of_path = ''/srv/a'', of_pos = 5, of_writing = True\<rparr>],
        next_handle := 2\<rparr>\<rparr>)"

lemma demo_client_ok: "client_ok demo_client demo_world"
  by (simp add: client_ok_def queue_ok_def heap_wf_def mem_ok_def plain_marks_def blk_ok_def
      mux_ok_def demo_client_def demo_world_def demo_heap_def zero_client_def)

lemma demo_fs_wf: "fs_wf (w_fs demo_world)"
  by (simp add: demo_world_def demo_fs_def fs_wf_def)

lemma demo_request_drop: "drop 2 (demo_request opcode fn mode rest) = fn @ NUL # mode @ NUL # rest"
  by (simp add: demo_request_def)

lemma demo_request_plain:
  "cstring fn \<Longrightarrow> cstring mode \<Longrightarrow>
     parse_request (demo_request opcode fn mode [NUL]) = Inr (fn, mode, [], None)"
  by (rule parse_request_plain) (simp_all add: demo_request_drop)

lemma demo_request_option:
  "cstring fn \<Longrightarrow> cstring mode \<Longrightarrow> cstring opt \<Longrightarrow> cstring param \<Longrightarrow> opt \<noteq> [] \<Longrightarrow>
     parse_request (demo_request opcode fn mode (opt @ NUL # param @ [NUL]))
     = Inr (fn, mode, opt, Some param)"
  by (rule parse_request_option [where rest = "[]"]) (simp_all add: demo_request_drop)

lemma demo_is_packet:
  "len \<le> MAX_PACKET_SIZE \<Longrightarrow> is_packet opcode (demo_request opcode fn mode rest, len)"
  by (simp add: is_packet_def field16_def demo_request_def be16_def)

lemma demo_ack_packet: "is_packet PACKET_ACK (demo_ack, 4)"
  by (simp add: is_packet_def field16_def demo_ack_def be16_def MAX_PACKET_SIZE_def)

lemma demo_path: "request_path fn (w_conf demo_world) = Inr (''/srv/'' @ fn)"
  by (simp add: request_path_def demo_world_def)

lemma demo_file:
  "nodes (w_fs demo_world) ''/srv/a'' = Some (Reg ''hello'')" "r_perm (w_fs demo_world) p = 0"
  by (simp_all add: demo_world_def demo_fs_def)

lemmas demo_defs = demo_client_def demo_world_def demo_heap_def demo_fs_def demo_net_def zero_client_def

lemma demo_receiving_ok: "receiving ''/srv/a'' ''hello'' (fst demo_receiving) (snd demo_receiving)"
  using demo_client_ok
  by (simp add: receiving_def demo_receiving_def client_ok_def queue_ok_def plain_marks_def blk_ok_def)
    (simp add: demo_defs appending_def)

text \<open>A client in the pool with one packet in its queue.\<close>

definition demo_queue_world :: world where
  "demo_queue_world = demo_world\<lparr>w_pool := [1],
     w_clients := [1 \<mapsto> demo_client\<lparr>c_queue := [\<lparr>pq_p = 2, pq_len = 4, pq_allocated = 1\<rparr>]\<rparr>],
     w_mem := demo_heap\<lparr>blocks := [2 \<mapsto> ack_packet 0], brk := 3\<rparr>\<rparr>"

lemma demo_pool_wf: "pool_wf demo_world"
  by (simp add: pool_wf_def demo_defs)

text \<open>
  A server with one socket, the buffer of which is small enough for a computed run, and an
  ERROR packet that waits on it.
\<close>

definition small_sock :: socket where
  "small_sock = \<lparr>sk_fd = 3, sk_flags = SF_READABLE, sk_addr = IPv4 69 0, sk_bindaddr = 1, sk_packet = 2, sk_pktlen = 8\<rparr>"

definition demo_small :: world where
  "demo_small = demo_world\<lparr>w_mem := demo_heap\<lparr>blocks := [1 \<mapsto> ''::'' @ [NUL], 2 \<mapsto> replicate 8 NUL], brk := 3\<rparr>,
     w_socks := [small_sock]\<rparr>"

definition error_datagram :: "byte list" where
  "error_datagram = be16 PACKET_ERROR @ be16 0 @ ''x'' @ [NUL]"

definition error_waits :: "sockaddr \<Rightarrow> world \<Rightarrow> world" where
  "error_waits a w = w\<lparr>w_now := 1, w_net := (w_net w)\<lparr>inq := (\<lambda>_. [])(3 := [Recv_packet error_datagram a]),
     send_fail := (\<lambda>_. False)\<rparr>\<rparr>"

lemma error_waits_step: "step w (error_waits a w)"
  unfolding error_waits_def by (rule step.environment)

lemmas run_defs = ReceivePackets_def error_waits_def demo_small_def small_sock_def recvfrom_def error_datagram_def
  demo_world_def demo_heap_def demo_net_def memset_def store_def Let_def FindOrAllocateClient_def FindClient_def
  new_client_def AddSocket_def strdup_def malloc_def nmalloc_def SOCK_PKTLEN_def list_push_def set_client_def
  client_at_def AddClient_def ENOMEM_def be16_def load_def ProcessPacket_def field16_def opcode_defs process_error_def
  end_resend_def GetNext_def Acknowledge_def QueuePacket_def sizeof_packet_def MAX_PACKET_SIZE_def of_be16_def
  zero_client_def zero_socket_def SetSocketStatus_def epoll_SetSocketStatus_def tid_matches_def GetPort_def
  epoll_ctl_mod_def call_event_def CallEvent_def queued_def pq_bytes_def ack_packet_def server_round_def
  CheckClients_def ProcessSockets_def epoll_ProcessSockets_def epoll_reserve_def epoll_wait_def process_event_def FindSocket_def serve_socket_def
  has_flag_def EPOLLIN_def EPOLLOUT_def EPOLLHUP_def EPOLLERR_def

text \<open>Two clients send it: the second is received while the answer to the first still waits to be sent.\<close>

lemma demo_two_clients:
  obtains w1 w2 cl where "server_round (Some [(3, EPOLLIN)]) (error_waits (IPv4 1024 5) demo_small) = Inr w1"
    "ReceivePackets small_sock (error_waits (IPv4 2048 6) w1) = Inr (0, w2)" "small_sock \<in> set (w_socks w1)"
    "w_pool w1 = [3]" "w_clients w1 3 = Some cl" "c_s cl = c_s cl\<lparr>sk_fd := 3, sk_addr := IPv4 1024 5\<rparr>"
    "queued cl w1 = [ack_packet 1]"
proof -
  have "\<exists>w1 w2 cl. server_round (Some [(3, EPOLLIN)]) (error_waits (IPv4 1024 5) demo_small) = Inr w1
      \<and> ReceivePackets small_sock (error_waits (IPv4 2048 6) w1) = Inr (0, w2) \<and> small_sock \<in> set (w_socks w1)
      \<and> w_pool w1 = [3] \<and> w_clients w1 3 = Some cl \<and> c_s cl = c_s cl\<lparr>sk_fd := 3, sk_addr := IPv4 1024 5\<rparr>
      \<and> queued cl w1 = [ack_packet 1]"
    by (simp add: run_defs)
  then show thesis using that by blast
qed

lemma demo_small_initial: "initial demo_small" "\<forall>t \<in> set (w_socks demo_small). sk_packet t < brk (w_mem demo_small)"
  by (simp_all add: initial_def demo_small_def small_sock_def demo_world_def demo_heap_def)

lemma demo_round_reachable:
  assumes "server_round evs (error_waits a demo_small) = Inr w1"
  shows "reachable demo_small w1"
  using reachable.more [OF reachable.more [OF reachable.start error_waits_step] step.round [OF assms]] .

end
