(* ===== verification/Config_Lexer.thy ===== *)
theory Config_Lexer
  imports Text "HOL-Library.Sublist"
begin

text \<open>
  The scanner of the configuration file, src/src/scanner.l, as a function from the text of
  the file to the tokens the parser reads. The scanner takes the longest match at each
  position and, among equally long ones, the first rule; \<open>lex\<close> spells the choice out per
  first character and \<open>keyword_longest\<close> shows that the words are matched that way. The
  file is taken to fit in the scanner's buffer, so that the string of a token is still
  there when the parser copies it. The line counter is only printed and is left out.
\<close>

section \<open>Tokens\<close>

datatype token =
    SERVER | BIND | PORT | DIRECTORY | USER | GROUP | PIDFILE | DAEMONIZE | READTIMEOUT
  | LISTEN | FIXPATH | MODULE | NAME | PATH | MODSEARCHPATH
  | CINT int | STRING string | BOOL bool | Chr char

text \<open>
  The word rules. \<open>module\<close> is the only word another one starts with; it stands behind it, so
  that the first match of the table is the longest.
\<close>

definition word_rules :: "(string \<times> token) list" where
  "word_rules =
     [(''server'', SERVER), (''bind'', BIND), (''port'', PORT), (''directory'', DIRECTORY),
      (''fixpath'', FIXPATH), (''user'', USER), (''group'', GROUP), (''pidfile'', PIDFILE),
      (''daemonize'', DAEMONIZE), (''readtimeout'', READTIMEOUT), (''listen'', LISTEN),
      (''modulesearchpath'', MODSEARCHPATH), (''module'', MODULE), (''name'', NAME),
      (''path'', PATH), (''true'', BOOL True), (''yes'', BOOL True), (''false'', BOOL False),
      (''no'', BOOL False)]"

definition keyword_at :: "string \<Rightarrow> (string \<times> token) option" where
  "keyword_at s = find (\<lambda>(w, t). prefix w s) word_rules"

text \<open>\<open>atoi\<close> returns the result of \<open>strtol\<close> as an int.\<close>

definition atoi :: "string \<Rightarrow> int" where
  "atoi s = sint (word_of_int (fst (strtol s)) :: 32 word)"

text \<open>
  The parser takes every token number below 1 for the end of the file: a zero byte, and a
  byte above 127, which is negative as a \<open>char\<close>.
\<close>

definition eof_char :: "char \<Rightarrow> bool" where
  "eof_char c \<longleftrightarrow> c = NUL \<or> 128 \<le> (of_char c :: nat)"

definition is_quote_end :: "char \<Rightarrow> bool" where
  "is_quote_end c \<longleftrightarrow> c = CHR 0x22 \<or> c = CHR 0x0A"

text \<open>What follows a block comment, \<open>None\<close> when it is not terminated.\<close>

fun after_comment :: "string \<Rightarrow> string option" where
  "after_comment (a # b # s) = (if a = CHR ''*'' \<and> b = CHR ''/'' then Some s else after_comment (b # s))"
| "after_comment s = None"

text \<open>What follows the next newline.\<close>

fun after_line :: "string \<Rightarrow> string option" where
  "after_line [] = None"
| "after_line (c # s) = (if c = CHR 0x0A then Some s else after_line s)"

lemma after_comment_shorter: "after_comment s = Some r \<Longrightarrow> length r < length s"
  by (induction s rule: after_comment.induct) (auto split: if_splits)

lemma after_line_shorter: "after_line s = Some r \<Longrightarrow> length r < length s"
  by (induction s) (auto split: if_splits)

lemma word_rules_nonempty: "(w, t) \<in> set word_rules \<Longrightarrow> w \<noteq> []"
  by (auto simp: word_rules_def)

lemma keyword_at_Some:
  assumes "keyword_at s = Some (w, t)"
  shows "(w, t) \<in> set word_rules" "prefix w s" "w \<noteq> []"
proof -
  from assms show "(w, t) \<in> set word_rules" "prefix w s"
    by (auto simp: keyword_at_def find_Some_iff dest: nth_mem)
  then show "w \<noteq> []" by (simp add: word_rules_nonempty)
qed

section \<open>The scanner\<close>

text \<open>One match: a token, a piece of text without one, or the end, and what follows it.\<close>

datatype scanned = Token token string | Skip string | Eof

definition scan :: "char \<Rightarrow> string \<Rightarrow> scanned" where
  "scan c cs =
     (if c = CHR '' '' \<or> c = CHR 0x09 \<or> c = CHR 0x0A then Skip cs
      else if is_digit c then
        Token (CINT (atoi (c # takeWhile is_digit cs))) (dropWhile is_digit cs)
      else if c = CHR 0x22 then
        (case dropWhile (\<lambda>d. \<not> is_quote_end d) cs of
           [] \<Rightarrow> Token (Chr c) cs
         | _ # rest \<Rightarrow>
             Token (STRING (takeWhile (\<lambda>d. d \<noteq> NUL) (takeWhile (\<lambda>d. \<not> is_quote_end d) cs))) rest)
      else if c = CHR ''/'' \<and> prefix ''*'' cs then
        (case after_comment (drop 1 cs) of None \<Rightarrow> Eof | Some rest \<Rightarrow> Skip rest)
      else if c = CHR ''/'' \<and> prefix ''/'' cs \<and> after_line cs \<noteq> None then
        Skip (the (after_line cs))
      else if eof_char c then Eof
      else case keyword_at (c # cs) of
             None \<Rightarrow> Token (Chr c) cs
           | Some (w, t) \<Rightarrow> Token t (drop (length w) (c # cs)))"

definition rest_length :: "scanned \<Rightarrow> nat" where
  "rest_length x = (case x of Token t r \<Rightarrow> length r | Skip r \<Rightarrow> length r | Eof \<Rightarrow> 0)"

lemma dropWhile_rest_le: "dropWhile P cs = d # rest \<Longrightarrow> length rest \<le> length cs"
  by (metis length_dropWhile_le length_Cons Suc_leD)

lemma drop_word_le: "w \<noteq> [] \<Longrightarrow> length (drop (length w) (c # cs)) \<le> length cs"
  by (cases w) auto

lemma scan_rest: "rest_length (scan c cs) \<le> length cs"
proof -
  have "rest_length (case after_comment (drop 1 cs) of None \<Rightarrow> Eof | Some rest \<Rightarrow> Skip rest) \<le> length cs"
    by (auto simp: rest_length_def split: option.splits dest: after_comment_shorter)
  moreover have "after_line cs \<noteq> None \<Longrightarrow> length (the (after_line cs)) \<le> length cs"
    using after_line_shorter [of cs] by (auto intro: less_imp_le)
  moreover have "rest_length (case dropWhile P cs of [] \<Rightarrow> Token (Chr c) cs | _ # r \<Rightarrow> Token t r) \<le> length cs" for P t
    by (auto simp: rest_length_def split: list.splits dest: dropWhile_rest_le)
  moreover have "rest_length (case keyword_at (c # cs) of None \<Rightarrow> Token (Chr c) cs
      | Some (w, t) \<Rightarrow> Token t (drop (length w) (c # cs))) \<le> length cs"
  proof (cases "keyword_at (c # cs)")
    case (Some x)
    then show ?thesis
      using drop_word_le [OF keyword_at_Some(3), of "c # cs" "fst x" "snd x"]
      by (cases x) (simp add: rest_length_def)
  qed (simp add: rest_length_def)
  ultimately show ?thesis
    unfolding scan_def by (simp add: rest_length_def length_dropWhile_le)
qed

lemma scan_shorter:
  "scan c cs = Token t r \<Longrightarrow> length r < length (c # cs)"
  "scan c cs = Skip r \<Longrightarrow> length r < length (c # cs)"
  using scan_rest [of c cs] by (simp_all add: rest_length_def)

function lex :: "string \<Rightarrow> token list" where
  "lex [] = []"
| "lex (c # cs) =
     (case scan c cs of Token t r \<Rightarrow> t # lex r | Skip r \<Rightarrow> lex r | Eof \<Rightarrow> [])"
  by pat_completeness auto
termination
  by (relation "measure length") (use scan_shorter in auto)

declare lex.simps(2) [simp del]

text \<open>
  The table picks the longest word: no word that is longer than the one found stands at
  this position.
\<close>

lemma word_prefixes:
  "list_all (\<lambda>(w, _). list_all (\<lambda>(w', _). strict_prefix w w' \<longrightarrow>
     w = ''module'' \<and> w' = ''modulesearchpath'') word_rules) word_rules"
  by code_simp

lemma keyword_longest:
  assumes "keyword_at s = Some (w, t)" "(w', t') \<in> set word_rules" "prefix w' s"
  shows "length w' \<le> length w"
proof (rule ccontr)
  assume "\<not> length w' \<le> length w"
  with assms(3) keyword_at_Some(2) [OF assms(1)] have "strict_prefix w w'"
    by (metis prefix_length_prefix prefix_order.le_neq_trans nle_le)
  with assms(2) keyword_at_Some(1) [OF assms(1)] have w: "w = ''module''" "w' = ''modulesearchpath''"
    using word_prefixes by (fastforce simp: list_all_iff)+
  obtain r where "s = ''modulesearchpath'' @ r"
    using assms(3) w(2) by (auto elim: prefixE)
  then have "keyword_at s = Some (''modulesearchpath'', MODSEARCHPATH)"
    by (simp add: keyword_at_def word_rules_def)
  with assms(1) w(1) show False by simp
qed

end
