(* ===== verification/Config_Parser.thy ===== *)
theory Config_Parser
  imports Config_Lexer
begin

text \<open>
  The grammar of the configuration file, src/src/parser.y, as a function from tokens to
  the actions of the grammar in the order the parser performs them, and whether the file
  is accepted. When it is not, the actions performed before the error are still listed;
  \<open>yyerror\<close> then ends the program. What an action does is in theory Config. The generated
  parser's limit of 10000 entries of its stack is left out.
\<close>

section \<open>Actions\<close>

datatype action =
    Server_entry | Listen_entry | Module_entry
  | Module_path string | Module_name string
  | Listen_bind string | Listen_port int
  | Server_directory string | Server_user string | Server_group string
  | Server_module_search_path string | Server_daemonize bool | Server_pidfile string
  | Server_readtimeout int | Server_fixpath bool

text \<open>The items of each kind of block: \<open>key = value;\<close> with a value of the right kind.\<close>

definition str_of :: "token \<Rightarrow> string option" where
  "str_of v = (case v of STRING s \<Rightarrow> Some s | _ \<Rightarrow> None)"

definition int_of :: "token \<Rightarrow> int option" where
  "int_of v = (case v of CINT n \<Rightarrow> Some n | _ \<Rightarrow> None)"

definition bool_of :: "token \<Rightarrow> bool option" where
  "bool_of v = (case v of BOOL b \<Rightarrow> Some b | _ \<Rightarrow> None)"

definition module_item :: "token \<Rightarrow> token \<Rightarrow> action option" where
  "module_item k v =
     (case k of
        PATH \<Rightarrow> map_option Module_path (str_of v)
      | NAME \<Rightarrow> map_option Module_name (str_of v)
      | _ \<Rightarrow> None)"

definition listen_item :: "token \<Rightarrow> token \<Rightarrow> action option" where
  "listen_item k v =
     (case k of
        BIND \<Rightarrow> map_option Listen_bind (str_of v)
      | PORT \<Rightarrow> map_option Listen_port (int_of v)
      | _ \<Rightarrow> None)"

definition server_item :: "token \<Rightarrow> token \<Rightarrow> action option" where
  "server_item k v =
     (case k of
        DIRECTORY \<Rightarrow> map_option Server_directory (str_of v)
      | USER \<Rightarrow> map_option Server_user (str_of v)
      | GROUP \<Rightarrow> map_option Server_group (str_of v)
      | DAEMONIZE \<Rightarrow> map_option Server_daemonize (bool_of v)
      | PIDFILE \<Rightarrow> map_option Server_pidfile (str_of v)
      | READTIMEOUT \<Rightarrow> map_option Server_readtimeout (int_of v)
      | FIXPATH \<Rightarrow> map_option Server_fixpath (bool_of v)
      | MODSEARCHPATH \<Rightarrow> map_option Server_module_search_path (str_of v)
      | _ \<Rightarrow> None)"

lemmas item_defs = str_of_def int_of_def bool_of_def module_item_def listen_item_def server_item_def

definition conf_items :: "token \<Rightarrow> (action \<times> (token \<Rightarrow> token \<Rightarrow> action option)) option" where
  "conf_items k =
     (case k of
        SERVER \<Rightarrow> Some (Server_entry, server_item)
      | LISTEN \<Rightarrow> Some (Listen_entry, listen_item)
      | MODULE \<Rightarrow> Some (Module_entry, module_item)
      | _ \<Rightarrow> None)"

section \<open>The parser\<close>

fun assignment :: "token list \<Rightarrow> (token \<times> token \<times> token list) option" where
  "assignment (k # Chr e # v # Chr t # ts) =
     (if e = CHR ''='' \<and> t = CHR '';'' then Some (k, v, ts) else None)"
| "assignment _ = None"

lemma assignment_Some:
  "assignment ts = Some (k, v, ts') \<longleftrightarrow> ts = k # Chr (CHR ''='') # v # Chr (CHR '';'') # ts'"
  by (induction ts rule: assignment.induct) auto

text \<open>The items up to the first thing that is none, and what follows them.\<close>

function parse_items ::
  "(token \<Rightarrow> token \<Rightarrow> action option) \<Rightarrow> token list \<Rightarrow> action list \<times> token list" where
  "parse_items item ts =
     (case assignment ts of
        None \<Rightarrow> ([], ts)
      | Some (k, v, ts') \<Rightarrow>
          (case item k v of
             None \<Rightarrow> ([], ts)
           | Some a \<Rightarrow> (case parse_items item ts' of (as, rest) \<Rightarrow> (a # as, rest))))"
  by pat_completeness auto
termination
  by (relation "measure (\<lambda>(item, ts). length ts)") (auto simp: assignment_Some)

declare parse_items.simps [simp del]

lemma parse_items_shorter: "parse_items item ts = (as, rest) \<Longrightarrow> length rest \<le> length ts"
proof (induction item ts arbitrary: as rule: parse_items.induct)
  case (1 item ts)
  consider (stop) "rest = ts"
    | (more) k v ts' a as' where "assignment ts = Some (k, v, ts')" "item k v = Some a"
        "parse_items item ts' = (as', rest)"
    using "1.prems" by (subst (asm) parse_items.simps) (auto split: option.splits prod.splits)
  then show ?case
  proof cases
    case more
    with "1.IH" show ?thesis by (fastforce simp: assignment_Some)
  qed simp
qed

text \<open>A token and then the rest, where a parser may go on.\<close>

fun expect :: "char \<Rightarrow> token list \<Rightarrow> token list option" where
  "expect c (Chr d # ts) = (if d = c then Some ts else None)"
| "expect c _ = None"

lemma expect_Some: "expect c ts = Some r \<longleftrightarrow> ts = Chr c # r"
  by (induction c ts rule: expect.induct) auto

definition parse_block ::
  "(token \<Rightarrow> token \<Rightarrow> action option) \<Rightarrow> token list \<Rightarrow> action list \<times> token list option" where
  "parse_block item ts =
     (case expect (CHR ''{'') ts of
        None \<Rightarrow> ([], None)
      | Some ts1 \<Rightarrow> (case parse_items item ts1 of (as, ts2) \<Rightarrow> (as, expect (CHR ''}'') ts2)))"

lemma parse_block_shorter: "parse_block item ts = (as, Some rest) \<Longrightarrow> length rest < length ts"
  by (auto simp: parse_block_def expect_Some split: option.splits prod.splits
      dest!: parse_items_shorter)

function yyparse :: "token list \<Rightarrow> action list \<times> bool" where
  "yyparse [] = ([], True)"
| "yyparse (k # ts) =
     (case conf_items k of
        None \<Rightarrow> ([], False)
      | Some (a, item) \<Rightarrow>
          (case parse_block item ts of
             (as, None) \<Rightarrow> (a # as, False)
           | (as, Some rest) \<Rightarrow> (case yyparse rest of (bs, ok) \<Rightarrow> (a # as @ bs, ok))))"
  by pat_completeness auto
termination
proof (relation "measure length", goal_cases)
  case (2 k ts x a item y as rest)
  then show ?case
    using parse_block_shorter [of item ts] by (cases x) (auto simp: eq_commute)
qed simp

end
