(* ===== verification/Config_Print.thy ===== *)
theory Config_Print
  imports Config_Parser
begin

text \<open>
  A reference for the meaning of a configuration file: a list of blocks, each with items
  of its kind, and its text in the style of src/doc/nbstftp.conf.example. The scanner and the
  parser read the text back to exactly these blocks and items.
\<close>

section \<open>The text of a configuration\<close>

definition item_tokens :: "action \<Rightarrow> token \<times> token" where
  "item_tokens a =
     (case a of
        Module_path s \<Rightarrow> (PATH, STRING s)
      | Module_name s \<Rightarrow> (NAME, STRING s)
      | Listen_bind s \<Rightarrow> (BIND, STRING s)
      | Listen_port n \<Rightarrow> (PORT, CINT n)
      | Server_directory s \<Rightarrow> (DIRECTORY, STRING s)
      | Server_user s \<Rightarrow> (USER, STRING s)
      | Server_group s \<Rightarrow> (GROUP, STRING s)
      | Server_module_search_path s \<Rightarrow> (MODSEARCHPATH, STRING s)
      | Server_daemonize b \<Rightarrow> (DAEMONIZE, BOOL b)
      | Server_pidfile s \<Rightarrow> (PIDFILE, STRING s)
      | Server_readtimeout n \<Rightarrow> (READTIMEOUT, CINT n)
      | Server_fixpath b \<Rightarrow> (FIXPATH, BOOL b)
      | Server_entry \<Rightarrow> (SERVER, SERVER)
      | Listen_entry \<Rightarrow> (LISTEN, LISTEN)
      | Module_entry \<Rightarrow> (MODULE, MODULE))"

definition word_of :: "token \<Rightarrow> string" where
  "word_of k = (case find (\<lambda>(w, t). t = k) word_rules of Some (w, t) \<Rightarrow> w | None \<Rightarrow> '''')"

definition print_value :: "token \<Rightarrow> string" where
  "print_value v =
     (case v of
        CINT n \<Rightarrow> dec_nat (nat n)
      | STRING s \<Rightarrow> [CHR 0x22] @ s @ [CHR 0x22]
      | BOOL b \<Rightarrow> (if b then ''yes'' else ''no'')
      | _ \<Rightarrow> '''')"

definition print_item :: "action \<Rightarrow> string" where
  "print_item a =
     (case item_tokens a of (k, v) \<Rightarrow>
       CHR 0x09 # word_of k @ '' = '' @ print_value v @ [CHR '';'', CHR 0x0A])"

definition print_block :: "action \<times> action list \<Rightarrow> string" where
  "print_block b =
     word_of (fst (item_tokens (fst b))) @ '' {'' @ [CHR 0x0A]
       @ concat (map print_item (snd b)) @ [CHR ''}'', CHR 0x0A]"

definition print_config :: "(action \<times> action list) list \<Rightarrow> string" where
  "print_config bs = concat (map print_block bs)"

text \<open>
  What can be written down: a string holds no quote, no newline and no zero byte, a number
  is a non-negative int, and each item is one of its block's kind.
\<close>

definition value_ok :: "token \<Rightarrow> bool" where
  "value_ok v =
     (case v of
        CINT n \<Rightarrow> 0 \<le> n \<and> n < 2 ^ 31
      | STRING s \<Rightarrow> list_all (\<lambda>c. \<not> is_quote_end c \<and> c \<noteq> NUL) s
      | BOOL b \<Rightarrow> True
      | _ \<Rightarrow> False)"

definition block_ok :: "action \<times> action list \<Rightarrow> bool" where
  "block_ok b =
     (case conf_items (fst (item_tokens (fst b))) of
        None \<Rightarrow> False
      | Some (a, item) \<Rightarrow> a = fst b \<and>
          list_all (\<lambda>i. case item_tokens i of (k, v) \<Rightarrow> item k v = Some i \<and> value_ok v) (snd b))"

section \<open>Scanning it\<close>

lemma lex_space [simp]:
  "lex (CHR '' '' # s) = lex s" "lex (CHR 0x09 # s) = lex s" "lex (CHR 0x0A # s) = lex s"
  by (simp_all add: lex.simps(2) scan_def)

lemma keyword_punct:
  "keyword_at (CHR ''='' # s) = None" "keyword_at (CHR '';'' # s) = None"
  "keyword_at (CHR ''{'' # s) = None" "keyword_at (CHR ''}'' # s) = None"
  by (simp_all add: keyword_at_def word_rules_def)

lemma lex_punct [simp]:
  "lex (CHR ''='' # s) = Chr (CHR ''='') # lex s" "lex (CHR '';'' # s) = Chr (CHR '';'') # lex s"
  "lex (CHR ''{'' # s) = Chr (CHR ''{'') # lex s" "lex (CHR ''}'' # s) = Chr (CHR ''}'') # lex s"
  by (simp_all add: lex.simps(2) scan_def keyword_punct is_digit_def eof_char_def)

lemma lex_word:
  assumes "(w, t) \<in> set word_rules"
  shows "lex (w @ CHR '' '' # s) = t # lex s"
  using assms unfolding word_rules_def
  by (auto simp: lex.simps(2) scan_def is_digit_def eof_char_def keyword_at_def word_rules_def)

lemma lex_bool:
  "lex (''yes'' @ CHR '';'' # s) = BOOL True # lex (CHR '';'' # s)"
  "lex (''no'' @ CHR '';'' # s) = BOOL False # lex (CHR '';'' # s)"
  by (simp_all add: lex.simps(2) scan_def is_digit_def eof_char_def keyword_at_def word_rules_def)

lemma atoi_dec_nat: "n < 2 ^ 31 \<Longrightarrow> atoi (dec_nat n) = int n"
  by (simp add: atoi_def strtol_dec_nat LONG_MAX_def signed_of_int signed_take_bit_int_eq_self
      del: of_int_of_nat_eq)

lemma takeWhile_digits [simp]:
  "list_all is_digit ds \<Longrightarrow> takeWhile is_digit (ds @ CHR '';'' # s) = ds"
  "list_all is_digit ds \<Longrightarrow> dropWhile is_digit (ds @ CHR '';'' # s) = CHR '';'' # s"
  by (induction ds) (simp_all add: is_digit_def)

lemma lex_number:
  assumes "n < 2 ^ 31"
  shows "lex (dec_nat n @ CHR '';'' # s) = CINT (int n) # lex (CHR '';'' # s)"
proof -
  obtain d ds where d: "dec_nat n = d # ds"
    by (meson dec_nat_nonempty list.exhaust)
  then have dig: "is_digit d" "list_all is_digit ds"
    using dec_nat_digits [of _ n] by (auto simp: list_all_iff)
  then have "d \<noteq> CHR '' ''" "d \<noteq> CHR 0x09" "d \<noteq> CHR 0x0A"
    using digit_not_special(1) [of d] by (auto simp: is_space_def)
  with dig have "scan d (ds @ CHR '';'' # s) = Token (CINT (atoi (dec_nat n))) (CHR '';'' # s)"
    by (simp add: scan_def d)
  then show ?thesis
    using atoi_dec_nat [OF assms] by (simp add: d lex.simps(2) [of d])
qed

lemma takeWhile_quote [simp]:
  assumes "list_all (\<lambda>c. \<not> is_quote_end c \<and> c \<noteq> NUL) str"
  shows "takeWhile (\<lambda>d. \<not> is_quote_end d) (str @ CHR 0x22 # s) = str"
    "dropWhile (\<lambda>d. \<not> is_quote_end d) (str @ CHR 0x22 # s) = CHR 0x22 # s"
    "takeWhile (\<lambda>d. d \<noteq> NUL) str = str"
  using assms by (induction str) (auto simp: is_quote_end_def)

lemma lex_string:
  assumes "list_all (\<lambda>c. \<not> is_quote_end c \<and> c \<noteq> NUL) str"
  shows "lex (CHR 0x22 # str @ CHR 0x22 # s) = STRING str # lex s"
  using assms by (simp add: lex.simps(2) [of "CHR 0x22"] scan_def is_digit_def)

lemma lex_value:
  assumes "value_ok v"
  shows "lex (print_value v @ CHR '';'' # s) = v # Chr (CHR '';'') # lex s"
proof (cases v)
  case (CINT n)
  with assms lex_number [of "nat n" s] show ?thesis
    by (simp add: value_ok_def print_value_def nat_less_iff)
next
  case (STRING x)
  with assms show ?thesis
    by (simp add: value_ok_def print_value_def lex_string)
next
  case (BOOL b)
  then show ?thesis
    using lex_bool [of s] by (cases b) (simp_all add: print_value_def)
qed (use assms in \<open>simp_all add: value_ok_def\<close>)

lemma word_of_item: "(word_of (fst (item_tokens a)), fst (item_tokens a)) \<in> set word_rules"
  by (cases a) (simp_all add: item_tokens_def word_of_def word_rules_def)

lemma lex_item:
  assumes "item_tokens a = (k, v)" "value_ok v"
  shows "lex (print_item a @ s) = k # Chr (CHR ''='') # v # Chr (CHR '';'') # lex s"
  using lex_word [OF word_of_item [of a]] lex_value [OF assms(2), of "CHR 0x0A # s"] assms(1)
  by (simp add: print_item_def)

section \<open>Parsing it\<close>

lemma parse_items_step:
  "item k v = Some a \<Longrightarrow>
     parse_items item (k # Chr (CHR ''='') # v # Chr (CHR '';'') # ts)
       = (a # fst (parse_items item ts), snd (parse_items item ts))"
  by (subst parse_items.simps) (simp split: prod.split)

lemma parse_items_end: "parse_items item (Chr (CHR ''}'') # ts) = ([], Chr (CHR ''}'') # ts)"
  if "\<And>v. item (Chr (CHR ''}'')) v = None"
  using that by (subst parse_items.simps) (auto simp: assignment_Some split: option.splits prod.splits)

lemma conf_items_close: "conf_items k = Some (a, item) \<Longrightarrow> item (Chr c) v = None"
  by (auto simp: conf_items_def item_defs split: token.splits)

lemma parse_printed_items:
  assumes "list_all (\<lambda>i. case item_tokens i of (k, v) \<Rightarrow> item k v = Some i \<and> value_ok v) is"
    and "\<And>v. item (Chr (CHR ''}'')) v = None"
  shows "parse_items item (lex (concat (map print_item is) @ CHR ''}'' # s))
    = (is, Chr (CHR ''}'') # lex s)"
  using assms(1)
proof (induction "is")
  case Nil
  then show ?case by (simp add: parse_items_end assms(2))
next
  case (Cons i "is")
  obtain k v where kv: "item_tokens i = (k, v)" by fastforce
  with Cons show ?case
    by (simp add: lex_item parse_items_step)
qed

lemma parse_printed_block:
  assumes "block_ok b"
  shows "yyparse (lex (print_block b @ s))
    = (case yyparse (lex s) of (bs, ok) \<Rightarrow> (fst b # snd b @ bs, ok))"
proof -
  from assms obtain item where item: "conf_items (fst (item_tokens (fst b))) = Some (fst b, item)"
    and all: "list_all (\<lambda>i. case item_tokens i of (k, v) \<Rightarrow> item k v = Some i \<and> value_ok v) (snd b)"
    by (auto simp: block_ok_def split: option.splits)
  have "lex (print_block b @ s) = fst (item_tokens (fst b)) # Chr (CHR ''{'')
      # lex (concat (map print_item (snd b)) @ CHR ''}'' # CHR 0x0A # s)"
    using lex_word [OF word_of_item [of "fst b"]] by (simp add: print_block_def)
  then show ?thesis
    using parse_printed_items [OF all, of "CHR 0x0A # s"] conf_items_close [OF item]
    by (simp add: item parse_block_def split: prod.split)
qed

lemma parse_printed:
  "list_all block_ok bs \<Longrightarrow>
     yyparse (lex (print_config bs)) = (concat (map (\<lambda>(a, is). a # is) bs), True)"
  by (induction bs) (auto simp: print_config_def parse_printed_block)

end
