(* ===== verification/Config.thy ===== *)
theory Config
  imports Config_Print Files
begin

text \<open>
  The configuration: the structures of src/include/config.h, the actions of src/src/parser.y
  and \<open>ParseConfig\<close>, \<open>DeallocateConfig\<close> and \<open>yyerror\<close> of src/src/config.c. A string of the
  configuration is never written to, so a pointer to one carries its text; its block in
  the heap says whether it is still there. A structure is allocated in the heap and its
  fields are held under its address in a store of its type.
\<close>

section \<open>Structures\<close>

datatype cstr = Null_str | Dup addr string

text \<open>The pid file name is the only string that may be a literal of the program.\<close>

datatype pidname = Heap_str cstr | Literal string

record listen_t =
  l_bindaddr :: cstr
  l_port :: "16 word"

record conf_module =
  cm_name :: cstr
  cm_path :: cstr

record config_t =
  directory :: cstr
  user :: cstr
  group :: cstr
  pidfile :: pidname
  modsearchpath :: cstr
  daemonize :: "8 word"
  fixpath :: "8 word"
  readtimeout :: "32 word"
  listenblocks :: "addr list"
  moduleblocks :: "addr list"

text \<open>The sizes of the structures; only that they are not 0 matters.\<close>

definition sizeof_listen :: nat where "sizeof_listen = 16"
definition sizeof_conf_module :: nat where "sizeof_conf_module = 16"
definition sizeof_config :: nat where "sizeof_config = 80"

definition zero_config :: config_t where
  "zero_config = \<lparr>directory = Null_str, user = Null_str, group = Null_str, pidfile = Heap_str Null_str,
     modsearchpath = Null_str, daemonize = 0, fixpath = 0, readtimeout = 0, listenblocks = [],
     moduleblocks = []\<rparr>"

text \<open>The heap with the three stores, and the global variables of src/src/parser.y.\<close>

record cfgs =
  cg_mem :: heap
  confs :: "addr \<rightharpoonup> config_t"
  listens :: "addr \<rightharpoonup> listen_t"
  cmods :: "addr \<rightharpoonup> conf_module"
  gconfig :: addr
  curblock :: addr
  curmod :: addr

definition at :: "('a \<rightharpoonup> 'b) \<Rightarrow> 'a \<Rightarrow> 'a \<Rightarrow> fault + 'b" where
  "at m nil p =
     (if p = nil then Inl Null_deref
      else case m p of None \<Rightarrow> Inl Use_after_free | Some x \<Rightarrow> Inr x)"

abbreviation config_at :: "addr \<Rightarrow> cfgs \<Rightarrow> fault + config_t" where
  "config_at p g \<equiv> at (confs g) NULL p"

text \<open>\<open>strdup\<close> of a text, as a pointer to it.\<close>

definition dup :: "string \<Rightarrow> cfgs \<Rightarrow> cstr \<times> cfgs" where
  "dup s g =
     (case strdup s (cg_mem g) of (p, h) \<Rightarrow>
       (if p = NULL then Null_str else Dup p s, g\<lparr>cg_mem := h\<rparr>))"

text \<open>\<open>free\<close> of a string.\<close>

definition free_str :: "cstr \<Rightarrow> cfgs \<Rightarrow> fault + cfgs" where
  "free_str s g =
     (case s of
        Null_str \<Rightarrow> Inr g
      | Dup p _ \<Rightarrow> and_then (free p (cg_mem g)) (\<lambda>h. Inr (g\<lparr>cg_mem := h\<rparr>)))"

section \<open>The actions of the grammar\<close>

text \<open>\<open>nmalloc(sizeof(config_t))\<close> with the defaults both kinds of allocation set.\<close>

definition new_config :: "8 word \<Rightarrow> cfgs \<Rightarrow> fault + cfgs" where
  "new_config d g =
     and_then (nmalloc sizeof_config (cg_mem g)) (\<lambda>(p, h).
       Inr (g\<lparr>cg_mem := h, gconfig := p,
              confs := (confs g)(p \<mapsto> zero_config\<lparr>daemonize := d, readtimeout := 5, fixpath := 1\<rparr>)\<rparr>))"

definition on_config :: "(config_t \<Rightarrow> config_t) \<Rightarrow> cfgs \<Rightarrow> fault + cfgs" where
  "on_config f g =
     and_then (config_at (gconfig g) g) (\<lambda>c. Inr (g\<lparr>confs := (confs g)(gconfig g \<mapsto> f c)\<rparr>))"

definition on_listen :: "(listen_t \<Rightarrow> listen_t) \<Rightarrow> cfgs \<Rightarrow> fault + cfgs" where
  "on_listen f g =
     and_then (at (listens g) NULL (curblock g)) (\<lambda>l.
       Inr (g\<lparr>listens := (listens g)(curblock g \<mapsto> f l)\<rparr>))"

definition on_module :: "(conf_module \<Rightarrow> conf_module) \<Rightarrow> cfgs \<Rightarrow> fault + cfgs" where
  "on_module f g =
     and_then (at (cmods g) NULL (curmod g)) (\<lambda>m.
       Inr (g\<lparr>cmods := (cmods g)(curmod g \<mapsto> f m)\<rparr>))"

definition module_entry :: "cfgs \<Rightarrow> fault + cfgs" where
  "module_entry g =
     and_then (nmalloc sizeof_conf_module (cg_mem g)) (\<lambda>(m, h).
       let g1 = g\<lparr>cg_mem := h, curmod := m,
                  cmods := (cmods g)(m \<mapsto> \<lparr>cm_name = Null_str, cm_path = Null_str\<rparr>)\<rparr> in
       and_then (if gconfig g1 = NULL then new_config (- 1) g1 else Inr g1) (\<lambda>g2.
       and_then (config_at (gconfig g2) g2) (\<lambda>c.
       and_then (list_push m (moduleblocks c, cg_mem g2)) (\<lambda>(ms, h2).
         on_config (moduleblocks_update (\<lambda>_. ms)) (g2\<lparr>cg_mem := h2\<rparr>)))))"

definition listen_entry :: "cfgs \<Rightarrow> fault + cfgs" where
  "listen_entry g =
     and_then (nmalloc sizeof_listen (cg_mem g)) (\<lambda>(l, h).
       let g1 = g\<lparr>cg_mem := h, curblock := l,
                  listens := (listens g)(l \<mapsto> \<lparr>l_bindaddr = Null_str, l_port = - 1\<rparr>)\<rparr> in
       and_then (if gconfig g1 = NULL then new_config (- 1) g1 else Inr g1) (\<lambda>g2.
       and_then (config_at (gconfig g2) g2) (\<lambda>c.
       and_then (list_push l (listenblocks c, cg_mem g2)) (\<lambda>(ls, h2).
         on_config (listenblocks_update (\<lambda>_. ls)) (g2\<lparr>cg_mem := h2\<rparr>)))))"

definition server_entry :: "cfgs \<Rightarrow> fault + cfgs" where
  "server_entry g = new_config 1 g"

text \<open>
  A string item stores the copy. \<open>directory\<close>, \<open>user\<close>, \<open>group\<close>, \<open>pidfile\<close> and \<open>bind\<close> end the
  program when there is no memory for it.
\<close>

definition set_str ::
  "(cstr \<Rightarrow> config_t \<Rightarrow> config_t) \<Rightarrow> bool \<Rightarrow> string \<Rightarrow> cfgs \<Rightarrow> fault + cfgs" where
  "set_str upd required s g =
     (case dup s g of (p, g1) \<Rightarrow>
       and_then (on_config (upd p) g1) (\<lambda>g2.
         if required \<and> p = Null_str then Inl Exit_failure else Inr g2))"

definition bool_char :: "bool \<Rightarrow> 8 word" where
  "bool_char b = (if b then 1 else 0)"

fun act :: "action \<Rightarrow> cfgs \<Rightarrow> fault + cfgs" where
  "act Server_entry g = server_entry g"
| "act Listen_entry g = listen_entry g"
| "act Module_entry g = module_entry g"
| "act (Module_path s) g = (case dup s g of (p, g1) \<Rightarrow> on_module (cm_path_update (\<lambda>_. p)) g1)"
| "act (Module_name s) g = (case dup s g of (p, g1) \<Rightarrow> on_module (cm_name_update (\<lambda>_. p)) g1)"
| "act (Listen_bind s) g =
     (case dup s g of (p, g1) \<Rightarrow>
       and_then (on_listen (l_bindaddr_update (\<lambda>_. p)) g1) (\<lambda>g2.
         if p = Null_str then Inl Exit_failure else Inr g2))"
| "act (Listen_port n) g = on_listen (l_port_update (\<lambda>_. word_of_int n)) g"
| "act (Server_directory s) g = set_str (\<lambda>p. directory_update (\<lambda>_. p)) True s g"
| "act (Server_user s) g = set_str (\<lambda>p. user_update (\<lambda>_. p)) True s g"
| "act (Server_group s) g = set_str (\<lambda>p. group_update (\<lambda>_. p)) True s g"
| "act (Server_module_search_path s) g = set_str (\<lambda>p. modsearchpath_update (\<lambda>_. p)) False s g"
| "act (Server_daemonize b) g = on_config (daemonize_update (\<lambda>_. bool_char b)) g"
| "act (Server_pidfile s) g = set_str (\<lambda>p. pidfile_update (\<lambda>_. Heap_str p)) True s g"
| "act (Server_readtimeout n) g = on_config (readtimeout_update (\<lambda>_. word_of_int n)) g"
| "act (Server_fixpath b) g = on_config (fixpath_update (\<lambda>_. bool_char b)) g"

section \<open>config.c\<close>

text \<open>\<open>yyparse\<close> on the text of the file: the actions in order, and \<open>yyerror\<close> on an error.\<close>

definition parse_text :: "string \<Rightarrow> cfgs \<Rightarrow> fault + cfgs" where
  "parse_text s g =
     (case yyparse (lex s) of (as, ok) \<Rightarrow>
       and_then (fold_res act as g) (\<lambda>g'. if ok then Inr g' else Inl Exit_failure))"

text \<open>The checks behind the parser, up to the value \<open>ParseConfig\<close> returns.\<close>

definition check_config :: "cfgs \<Rightarrow> fault + int \<times> cfgs" where
  "check_config g =
     (if gconfig g = NULL then Inr (1, g)
      else and_then (config_at (gconfig g) g) (\<lambda>c.
        if directory c = Null_str then Inr (1, g)
        else and_then (on_config (\<lambda>c. c
               \<lparr>pidfile := (if pidfile c = Heap_str Null_str
                            then Literal ''/var/run/nbstftp.pid'' else pidfile c),
                readtimeout := (if sint (readtimeout c) < 2 then 5 else readtimeout c)\<rparr>) g)
               (\<lambda>g'. Inr (0, g'))))"

text \<open>
  The scanner reads the whole stream; reading a directory fails and ends the program.
\<close>

definition ParseConfig ::
  "string \<Rightarrow> nat \<times> filesys \<Rightarrow> cfgs \<Rightarrow> fault + int \<times> (nat \<times> filesys) \<times> cfgs" where
  "ParseConfig filename st g =
     (case fopen_read filename st of (fd, e, fs) \<Rightarrow>
       if fd = 0 then Inr (1, (e, fs), g)
       else if nodes fs filename = Some Dir then Inl Exit_failure
       else and_then (fread (length (file_bytes filename fs)) fd fs) (\<lambda>(s, fs1).
         and_then (parse_text s g) (\<lambda>g1.
         and_then (fclose fd fs1) (\<lambda>fs2.
         and_then (check_config g1) (\<lambda>(r, g2). Inr (r, (e, fs2), g2))))))"

text \<open>
  \<open>DeallocateConfig\<close>. The vectors are those of the global \<open>config\<close>, the rest is of the
  argument. The module blocks themselves, the pid file name and the module search path
  are not freed.
\<close>

definition free_struct :: "addr \<Rightarrow> cfgs \<Rightarrow> fault + cfgs" where
  "free_struct p g = and_then (free p (cg_mem g)) (\<lambda>h. Inr (g\<lparr>cg_mem := h\<rparr>))"

definition free_listen :: "addr \<Rightarrow> cfgs \<Rightarrow> fault + cfgs" where
  "free_listen b g =
     and_then (at (listens g) NULL b) (\<lambda>l.
     and_then (free_str (l_bindaddr l) g) (\<lambda>g1.
     and_then (free_struct b g1) (\<lambda>g2. Inr (g2\<lparr>listens := (listens g2)(b := None)\<rparr>))))"

definition free_cmod :: "addr \<Rightarrow> cfgs \<Rightarrow> fault + cfgs" where
  "free_cmod m g =
     and_then (at (cmods g) NULL m) (\<lambda>cm.
     and_then (free_str (cm_name cm) g) (\<lambda>g1. free_str (cm_path cm) g1))"

definition DeallocateConfig :: "addr \<Rightarrow> cfgs \<Rightarrow> fault + cfgs" where
  "DeallocateConfig conf g =
     (if gconfig g = NULL then Inr g
      else and_then (config_at (gconfig g) g) (\<lambda>c.
        and_then (fold_res free_listen (listenblocks c) g) (\<lambda>g1.
        and_then (on_config (listenblocks_update (\<lambda>_. [])) g1) (\<lambda>g2.
        and_then (fold_res free_cmod (moduleblocks c) g2) (\<lambda>g3.
        and_then (on_config (moduleblocks_update (\<lambda>_. [])) g3) (\<lambda>g4.
        and_then (config_at conf g4) (\<lambda>d.
        and_then (free_str (user d) g4) (\<lambda>g5.
        and_then (free_str (group d) g5) (\<lambda>g6.
        and_then (free_str (directory d) g6) (\<lambda>g7.
        and_then (free_struct conf g7) (\<lambda>g8.
          Inr (g8\<lparr>confs := (confs g8)(conf := None)\<rparr>))))))))))))"

end
