(* ===== verification/Config_Inv.thy ===== *)
theory Config_Inv
  imports Config
begin

text \<open>
  What the configuration owns, an invariant of the grammar's actions, and what they mean.
  \<open>config_inv lo g\<close> says that everything the configuration in force owns is alive, that
  nothing is owned twice and that all of it was allocated at \<open>lo\<close> or later;
  \<open>abs_config\<close> is the configuration as plain data, and every action of the grammar is an
  operation \<open>spec_act\<close> on it.
\<close>

section \<open>Ownership\<close>

definition str_addrs :: "cstr \<Rightarrow> addr list" where
  "str_addrs s = (case s of Dup p _ \<Rightarrow> [p] | _ \<Rightarrow> [])"

lemma str_addrs_simps [simp]:
  "str_addrs Null_str = []" "str_addrs (Dup p t) = [p]"
  by (simp_all add: str_addrs_def)

definition pid_addrs :: "pidname \<Rightarrow> addr list" where
  "pid_addrs f = (case f of Heap_str s \<Rightarrow> str_addrs s | Literal _ \<Rightarrow> [])"

lemma pid_addrs_simps [simp]: "pid_addrs (Heap_str s) = str_addrs s" "pid_addrs (Literal t) = []"
  by (simp_all add: pid_addrs_def)

definition listen_addrs :: "cfgs \<Rightarrow> addr \<Rightarrow> addr list" where
  "listen_addrs g l = (case listens g l of None \<Rightarrow> [] | Some x \<Rightarrow> str_addrs (l_bindaddr x))"

definition cmod_addrs :: "cfgs \<Rightarrow> addr \<Rightarrow> addr list" where
  "cmod_addrs g m =
     (case cmods g m of None \<Rightarrow> [] | Some x \<Rightarrow> str_addrs (cm_name x) @ str_addrs (cm_path x))"

definition conf_addrs :: "config_t \<Rightarrow> addr list" where
  "conf_addrs c = str_addrs (directory c) @ str_addrs (user c) @ str_addrs (group c)
     @ pid_addrs (pidfile c) @ str_addrs (modsearchpath c)"

definition own :: "cfgs \<Rightarrow> addr \<Rightarrow> config_t \<Rightarrow> addr list" where
  "own g p c = p # conf_addrs c @ listenblocks c @ moduleblocks c
     @ concat (map (listen_addrs g) (listenblocks c)) @ concat (map (cmod_addrs g) (moduleblocks c))"

definition conf_wf :: "nat \<Rightarrow> cfgs \<Rightarrow> addr \<Rightarrow> bool" where
  "conf_wf lo g p \<longleftrightarrow>
     p \<noteq> NULL \<and> (case confs g p of
       None \<Rightarrow> False
     | Some c \<Rightarrow> distinct (own g p c)
         \<and> (\<forall>a \<in> set (own g p c). lo \<le> a \<and> blocks (cg_mem g) a \<noteq> None)
         \<and> (\<forall>l \<in> set (listenblocks c). listens g l \<noteq> None)
         \<and> (\<forall>m \<in> set (moduleblocks c). cmods g m \<noteq> None))"

definition stores_wf :: "cfgs \<Rightarrow> bool" where
  "stores_wf g \<longleftrightarrow> heap_wf (cg_mem g)
     \<and> (\<forall>a \<ge> brk (cg_mem g). confs g a = None \<and> listens g a = None \<and> cmods g a = None)"

definition config_inv :: "nat \<Rightarrow> cfgs \<Rightarrow> bool" where
  "config_inv lo g \<longleftrightarrow> stores_wf g \<and> (gconfig g \<noteq> NULL \<longrightarrow> conf_wf lo g (gconfig g))"

text \<open>Nothing that was allocated before \<open>lo\<close> changes.\<close>

definition old_kept :: "nat \<Rightarrow> cfgs \<Rightarrow> cfgs \<Rightarrow> bool" where
  "old_kept lo g g' \<longleftrightarrow> (\<forall>a < lo. confs g' a = confs g a \<and> listens g' a = listens g a
     \<and> cmods g' a = cmods g a \<and> blocks (cg_mem g') a = blocks (cg_mem g) a)
     \<and> brk (cg_mem g) \<le> brk (cg_mem g') \<and> oom (cg_mem g') = oom (cg_mem g)"

lemma old_kept_refl [simp]: "old_kept lo g g"
  by (simp add: old_kept_def)

lemma old_kept_trans: "old_kept lo g g' \<Longrightarrow> old_kept lo g' g'' \<Longrightarrow> old_kept lo g g''"
  by (simp add: old_kept_def)

section \<open>The block an action belongs to\<close>

fun kind_of :: "action \<Rightarrow> action" where
  "kind_of (Module_path s) = Module_entry"
| "kind_of (Module_name s) = Module_entry"
| "kind_of (Listen_bind s) = Listen_entry"
| "kind_of (Listen_port n) = Listen_entry"
| "kind_of Listen_entry = Listen_entry"
| "kind_of Module_entry = Module_entry"
| "kind_of _ = Server_entry"

fun entry :: "action \<Rightarrow> bool" where
  "entry Server_entry = True"
| "entry Listen_entry = True"
| "entry Module_entry = True"
| "entry _ = False"

text \<open>The block that is open: the pointer its items go through.\<close>

fun opened :: "action \<Rightarrow> cfgs \<Rightarrow> bool" where
  "opened Listen_entry g = (\<exists>c ls. confs g (gconfig g) = Some c \<and> listenblocks c = ls @ [curblock g])"
| "opened Module_entry g = (\<exists>c ms. confs g (gconfig g) = Some c \<and> moduleblocks c = ms @ [curmod g])"
| "opened _ g = True"

text \<open>A sequence of actions in which every item stands in a block of its kind.\<close>

fun grouped :: "action option \<Rightarrow> action list \<Rightarrow> bool" where
  "grouped b [] = True"
| "grouped b (a # as) = ((entry a \<or> b = Some (kind_of a)) \<and> grouped (Some (kind_of a)) as)"

lemma grouped_weaken: "grouped None as \<Longrightarrow> grouped b as"
  by (cases as) auto

lemma conf_items_cases:
  assumes "conf_items k = Some (a, item)"
  shows "entry a" "kind_of a = a" "item k' v = Some i \<Longrightarrow> kind_of i = a"
  using assms by (auto simp: conf_items_def item_defs split: token.splits)

lemma parse_items_kind:
  assumes "\<And>k v i. item k v = Some i \<Longrightarrow> kind_of i = a"
  shows "list_all (\<lambda>i. kind_of i = a) (fst (parse_items item ts))"
  using assms
proof (induction item ts rule: parse_items.induct)
  case (1 item ts)
  show ?case
  proof (cases "assignment ts")
    case None
    then show ?thesis by (simp add: parse_items.simps)
  next
    case (Some x)
    then obtain k v ts' where x: "assignment ts = Some (k, v, ts')" by (cases x) auto
    show ?thesis
    proof (cases "item k v")
      case None
      with x show ?thesis by (simp add: parse_items.simps)
    next
      case (Some i)
      with x 1 show ?thesis
        by (subst parse_items.simps) (auto split: prod.splits)
    qed
  qed
qed

lemma grouped_items:
  "list_all (\<lambda>i. kind_of i = a) is \<Longrightarrow> grouped None bs \<Longrightarrow> grouped (Some a) (is @ bs)"
  by (induction "is") (auto intro: grouped_weaken)

text \<open>Whatever the parser reads, the actions it performs are grouped.\<close>

lemma grouped_yyparse: "grouped None (fst (yyparse ts))"
proof (induction ts rule: yyparse.induct)
  case (2 k ts)
  show ?case
  proof (cases "conf_items k")
    case (Some x)
    then obtain a item where ai: "conf_items k = Some (a, item)" by (cases x) auto
    obtain as r where b: "parse_block item ts = (as, r)" by fastforce
    have "list_all (\<lambda>i. kind_of i = a) (fst (parse_items item ts'))" for ts'
      by (rule parse_items_kind) (rule conf_items_cases(3) [OF ai])
    from this [of "tl ts"] b have "list_all (\<lambda>i. kind_of i = a) as"
      by (auto simp: parse_block_def expect_Some split: option.splits prod.splits)
    then have "grouped None (a # as)" "grouped None bs \<Longrightarrow> grouped None (a # as @ bs)" for bs
      using grouped_items [of a as "[]"] grouped_items [of a as bs] conf_items_cases(1,2) [OF ai]
      by simp_all
    with 2 ai b show ?thesis
      by (auto split: option.splits prod.splits)
  qed simp
qed simp

section \<open>The configuration as data\<close>

record aconfig =
  a_directory :: "string option"
  a_user :: "string option"
  a_group :: "string option"
  a_pidfile :: "string option"
  a_modsearchpath :: "string option"
  a_daemonize :: "8 word"
  a_fixpath :: "8 word"
  a_readtimeout :: "32 word"
  a_listens :: "(string option \<times> 16 word) list"
  a_modules :: "(string option \<times> string option) list"

definition str_val :: "cstr \<Rightarrow> string option" where
  "str_val s = (case s of Null_str \<Rightarrow> None | Dup p t \<Rightarrow> Some t)"

lemma str_val_simps [simp]:
  "str_val Null_str = None" "str_val (Dup p t) = Some t"
  by (simp_all add: str_val_def)

lemma str_val_None: "str_val s = None \<longleftrightarrow> s = Null_str"
  by (cases s) auto

definition pid_val :: "pidname \<Rightarrow> string option" where
  "pid_val f = (case f of Heap_str s \<Rightarrow> str_val s | Literal t \<Rightarrow> Some t)"

lemma pid_val_simps [simp]: "pid_val (Heap_str s) = str_val s" "pid_val (Literal t) = Some t"
  by (simp_all add: pid_val_def)

lemma pid_val_None: "pid_val f = None \<longleftrightarrow> f = Heap_str Null_str"
  by (cases f) (auto simp: str_val_None)

definition abs_listen :: "listen_t \<Rightarrow> string option \<times> 16 word" where
  "abs_listen l = (str_val (l_bindaddr l), l_port l)"

definition abs_cmod :: "conf_module \<Rightarrow> string option \<times> string option" where
  "abs_cmod m = (str_val (cm_name m), str_val (cm_path m))"

definition abs_conf :: "cfgs \<Rightarrow> config_t \<Rightarrow> aconfig" where
  "abs_conf g c = \<lparr>a_directory = str_val (directory c), a_user = str_val (user c),
     a_group = str_val (group c), a_pidfile = pid_val (pidfile c),
     a_modsearchpath = str_val (modsearchpath c), a_daemonize = daemonize c,
     a_fixpath = fixpath c, a_readtimeout = readtimeout c,
     a_listens = map (\<lambda>l. abs_listen (the (listens g l))) (listenblocks c),
     a_modules = map (\<lambda>m. abs_cmod (the (cmods g m))) (moduleblocks c)\<rparr>"

definition abs_config :: "cfgs \<Rightarrow> aconfig option" where
  "abs_config g =
     (if gconfig g = NULL then None else map_option (abs_conf g) (confs g (gconfig g)))"

definition default_config :: "8 word \<Rightarrow> aconfig" where
  "default_config d = \<lparr>a_directory = None, a_user = None, a_group = None, a_pidfile = None,
     a_modsearchpath = None, a_daemonize = d, a_fixpath = 1, a_readtimeout = 5,
     a_listens = [], a_modules = []\<rparr>"

definition on_last :: "('a \<Rightarrow> 'a) \<Rightarrow> 'a list \<Rightarrow> 'a list" where
  "on_last f xs = butlast xs @ [f (last xs)]"

lemma on_last_snoc [simp]: "on_last f (xs @ [x]) = xs @ [f x]"
  by (simp add: on_last_def)

text \<open>What each action of the grammar means.\<close>

fun spec_act :: "action \<Rightarrow> aconfig option \<Rightarrow> aconfig option" where
  "spec_act Server_entry x = Some (default_config 1)"
| "spec_act Listen_entry x =
     (case x of None \<Rightarrow> Some (default_config (- 1)\<lparr>a_listens := [(None, - 1)]\<rparr>)
      | Some c \<Rightarrow> Some (c\<lparr>a_listens := a_listens c @ [(None, - 1)]\<rparr>))"
| "spec_act Module_entry x =
     (case x of None \<Rightarrow> Some (default_config (- 1)\<lparr>a_modules := [(None, None)]\<rparr>)
      | Some c \<Rightarrow> Some (c\<lparr>a_modules := a_modules c @ [(None, None)]\<rparr>))"
| "spec_act (Module_path s) x =
     map_option (a_modules_update (on_last (\<lambda>(n, p). (n, Some s)))) x"
| "spec_act (Module_name s) x =
     map_option (a_modules_update (on_last (\<lambda>(n, p). (Some s, p)))) x"
| "spec_act (Listen_bind s) x =
     map_option (a_listens_update (on_last (\<lambda>(b, p). (Some s, p)))) x"
| "spec_act (Listen_port n) x =
     map_option (a_listens_update (on_last (\<lambda>(b, p). (b, word_of_int n)))) x"
| "spec_act (Server_directory s) x = map_option (a_directory_update (\<lambda>_. Some s)) x"
| "spec_act (Server_user s) x = map_option (a_user_update (\<lambda>_. Some s)) x"
| "spec_act (Server_group s) x = map_option (a_group_update (\<lambda>_. Some s)) x"
| "spec_act (Server_module_search_path s) x = map_option (a_modsearchpath_update (\<lambda>_. Some s)) x"
| "spec_act (Server_daemonize b) x = map_option (a_daemonize_update (\<lambda>_. bool_char b)) x"
| "spec_act (Server_pidfile s) x = map_option (a_pidfile_update (\<lambda>_. Some s)) x"
| "spec_act (Server_readtimeout n) x = map_option (a_readtimeout_update (\<lambda>_. word_of_int n)) x"
| "spec_act (Server_fixpath b) x = map_option (a_fixpath_update (\<lambda>_. bool_char b)) x"

end
