(* ===== verification/Config_Actions.thy ===== *)
theory Config_Actions
  imports Config_Inv "HOL-Library.Multiset"
begin

text \<open>
  Every action of the grammar of src/src/parser.y keeps \<open>config_inv\<close> and does what
  \<open>spec_act\<close> says: the proof of the configuration's invariant and of its refinement.
\<close>

section \<open>Every action keeps the invariant and does what it means\<close>

definition act_ok :: "nat \<Rightarrow> action \<Rightarrow> cfgs \<Rightarrow> cfgs \<Rightarrow> bool" where
  "act_ok lo a g g' \<longleftrightarrow> config_inv lo g' \<and> old_kept lo g g' \<and> gconfig g' \<noteq> NULL
     \<and> opened (kind_of a) g' \<and> abs_config g' = spec_act a (abs_config g)"

lemma addrs_frame [simp]:
  "listen_addrs (g\<lparr>cg_mem := h\<rparr>) = listen_addrs g" "cmod_addrs (g\<lparr>cg_mem := h\<rparr>) = cmod_addrs g"
  "listen_addrs (g\<lparr>confs := cs\<rparr>) = listen_addrs g" "cmod_addrs (g\<lparr>confs := cs\<rparr>) = cmod_addrs g"
  "listen_addrs (g\<lparr>gconfig := p\<rparr>) = listen_addrs g" "cmod_addrs (g\<lparr>gconfig := p\<rparr>) = cmod_addrs g"
  "listen_addrs (g\<lparr>curblock := p\<rparr>) = listen_addrs g" "cmod_addrs (g\<lparr>curblock := p\<rparr>) = cmod_addrs g"
  "listen_addrs (g\<lparr>curmod := p\<rparr>) = listen_addrs g" "cmod_addrs (g\<lparr>curmod := p\<rparr>) = cmod_addrs g"
  "cmod_addrs (g\<lparr>listens := ls\<rparr>) = cmod_addrs g" "listen_addrs (g\<lparr>cmods := ms\<rparr>) = listen_addrs g"
  by (simp_all add: listen_addrs_def cmod_addrs_def fun_eq_iff)

lemma stores_brk: "stores_wf g \<Longrightarrow> 0 < brk (cg_mem g)"
  by (simp add: stores_wf_def heap_wf_brk)

lemma stores_fresh:
  assumes "stores_wf g"
  shows "blocks (cg_mem g) (brk (cg_mem g)) = None" "confs g (brk (cg_mem g)) = None"
    "listens g (brk (cg_mem g)) = None" "cmods g (brk (cg_mem g)) = None"
  using assms by (simp_all add: stores_wf_def heap_wf_fresh)

definition alloc :: "byte list \<Rightarrow> heap \<Rightarrow> heap" where
  "alloc b h = h\<lparr>blocks := (blocks h)(brk h \<mapsto> b), brk := Suc (brk h)\<rparr>"

lemma alloc_simps [simp]:
  "brk (alloc b h) = Suc (brk h)" "oom (alloc b h) = oom h"
  "blocks (alloc b h) = (blocks h)(brk h \<mapsto> b)"
  "mem_ok (alloc b h) = mem_ok h"
  by (simp_all add: alloc_def mem_ok_def)

lemma alloc_neq [simp]: "alloc b h \<noteq> h"
  by (metis alloc_simps(1) n_not_Suc_n)

lemma heap_wf_alloc [simp]: "heap_wf h \<Longrightarrow> heap_wf (alloc b h)"
  by (auto simp: heap_wf_def less_Suc_eq)

lemma dup_eq:
  assumes "stores_wf g" "mem_ok (cg_mem g)"
  shows "dup s g = (Dup (brk (cg_mem g)) s, g\<lparr>cg_mem := alloc (s @ [NUL]) (cg_mem g)\<rparr>)"
  using assms stores_brk [OF assms(1)] by (simp add: dup_def strdup_eq mem_ok_def alloc_def)

lemma nmalloc_alloc:
  assumes "stores_wf g" "mem_ok (cg_mem g)" "0 < n"
  shows "nmalloc n (cg_mem g) = Inr (brk (cg_mem g), alloc (replicate n NUL) (cg_mem g))"
  using assms stores_brk [OF assms(1)] by (simp add: nmalloc_eq mem_ok_def alloc_def)

lemma distinct_mset_le:
  assumes "mset ys \<subseteq># mset xs" "distinct xs"
  shows "distinct ys"
proof -
  have once: "count (mset zs) a \<le> 1" if "distinct zs" for zs :: "'a list" and a
    using that by (simp add: distinct_count_atmost_1)
  then have le: "count (mset ys) a \<le> 1" for a
    using mset_subset_eq_count [OF assms(1), of a] once [OF assms(2), of a] by linarith
  have "count (mset ys) a = (if a \<in> set ys then 1 else 0)" for a
  proof (cases "a \<in> set ys")
    case True
    then have "count (mset ys) a \<noteq> 0" by (simp add: count_eq_zero_iff)
    with le [of a] have "count (mset ys) a = 1" by linarith
    with True show ?thesis by simp
  qed (simp add: count_eq_zero_iff)
  then show ?thesis by (simp add: distinct_count_atmost_1)
qed

text \<open>
  The configuration stays well formed when what it owns afterwards is what it owned before,
  perhaps less, and blocks that are new.
\<close>

lemma conf_wf_step:
  assumes "conf_wf lo g p" "confs g p = Some c" "confs g' p = Some c'"
    and own: "mset (own g' p c') \<subseteq># mset (new @ own g p c)" "distinct new"
    and new: "\<And>a. a \<in> set new \<Longrightarrow> lo \<le> a \<and> a \<notin> set (own g p c) \<and> blocks (cg_mem g') a \<noteq> None"
    and old: "\<And>a. blocks (cg_mem g) a \<noteq> None \<Longrightarrow> blocks (cg_mem g') a \<noteq> None"
    and "\<And>l. l \<in> set (listenblocks c') \<Longrightarrow> listens g' l \<noteq> None"
    and "\<And>m. m \<in> set (moduleblocks c') \<Longrightarrow> cmods g' m \<noteq> None"
  shows "conf_wf lo g' p"
proof -
  from assms have live: "\<forall>a \<in> set (own g p c). lo \<le> a \<and> blocks (cg_mem g) a \<noteq> None"
    and "distinct (own g p c)" "p \<noteq> 0"
    by (simp_all add: conf_wf_def)
  with own(2) new have "distinct (new @ own g p c)" by auto
  with own have "distinct (own g' p c')" by (blast intro: distinct_mset_le)
  moreover have "set (own g' p c') \<subseteq> set new \<union> set (own g p c)"
    using set_mset_mono [OF own(1)] by simp
  ultimately show ?thesis
    using assms live new old \<open>p \<noteq> 0\<close> unfolding conf_wf_def by (simp) (blast)
qed

lemma config_invE:
  assumes "config_inv lo g" "gconfig g \<noteq> NULL"
  obtains c where "confs g (gconfig g) = Some c" "conf_wf lo g (gconfig g)" "stores_wf g"
    "\<forall>l \<in> set (listenblocks c). listens g l \<noteq> None"
    "\<forall>m \<in> set (moduleblocks c). cmods g m \<noteq> None" 
  using assms by (auto simp: config_inv_def conf_wf_def split: option.splits)

lemma fresh_not_owned:
  assumes "conf_wf lo g p" "confs g p = Some c" "stores_wf g"
  shows "brk (cg_mem g) \<notin> set (own g p c)"
  using assms stores_fresh(1) [OF assms(3)] by (auto simp: conf_wf_def)

text \<open>Changing a field of the configuration in force.\<close>

lemma act_ok_config:
  assumes inv: "config_inv lo g" "gconfig g \<noteq> NULL"  "lo \<le> brk (cg_mem g)"
    and c: "confs g (gconfig g) = Some c"
    and g': "g' = g\<lparr>cg_mem := h, confs := (confs g)(gconfig g \<mapsto> c')\<rparr>"
    and lists: "listenblocks c' = listenblocks c" "moduleblocks c' = moduleblocks c"
    and h: "h = cg_mem g \<and> mset (conf_addrs c') = mset (conf_addrs c)
       \<or> h = alloc b (cg_mem g) \<and> mset (conf_addrs c') \<subseteq># add_mset (brk (cg_mem g)) (mset (conf_addrs c))"
    and kind: "kind_of a = Server_entry"
    and meaning: "spec_act a (Some (abs_conf g c)) = Some (abs_conf g c')"
  shows "act_ok lo a g g'"
proof -
  from inv c have cw: "conf_wf lo g (gconfig g)" "stores_wf g" "lo \<le> gconfig g"
      "\<forall>l \<in> set (listenblocks c). listens g l \<noteq> None" "\<forall>m \<in> set (moduleblocks c). cmods g m \<noteq> None" 
    by (auto simp: config_inv_def conf_wf_def own_def)
  have "conf_wf lo g' (gconfig g)"
  proof (rule conf_wf_step [OF cw(1) c, where new = "if h = cg_mem g then [] else [brk (cg_mem g)]"])
    show "confs g' (gconfig g) = Some c'" by (simp add: g')
    show "mset (own g' (gconfig g) c') \<subseteq># mset ((if h = cg_mem g then [] else [brk (cg_mem g)]) @ own g (gconfig g) c)"
      using h by (auto simp: own_def g' lists)
  qed (use h inv(3) fresh_not_owned [OF cw(1) c cw(2)] cw lists in \<open>auto simp: g' split: if_splits\<close>)
  moreover have "stores_wf g'"
    using cw h c inv by (auto simp: stores_wf_def g')
  moreover have "abs_conf g' c' = abs_conf g c'"
    by (simp add: abs_conf_def g')
  ultimately show ?thesis
    using h c inv cw kind meaning by (auto simp: act_ok_def config_inv_def old_kept_def abs_config_def g')
qed

lemma set_str_ok:
  assumes inv: "config_inv lo g" "mem_ok (cg_mem g)" "gconfig g \<noteq> NULL" "lo \<le> brk (cg_mem g)"
    and upd: "\<And>c p. listenblocks (upd p c) = listenblocks c \<and> moduleblocks (upd p c) = moduleblocks c
      \<and> mset (conf_addrs (upd p c)) \<subseteq># mset (str_addrs p) + (mset (conf_addrs c))"
    and kind: "kind_of a = Server_entry"
    and meaning: "\<And>c p. spec_act a (Some (abs_conf g c)) = Some (abs_conf g (upd (Dup p s) c))"
  shows "\<exists>g'. set_str upd r s g = Inr g' \<and> act_ok lo a g g'"
proof -
  from inv obtain c where c: "confs g (gconfig g) = Some c" "stores_wf g"
    by (elim config_invE)
  let ?p = "Dup (brk (cg_mem g)) s"
  have "set_str upd r s g = Inr (g\<lparr>cg_mem := alloc (s @ [NUL]) (cg_mem g),
      confs := (confs g)(gconfig g \<mapsto> upd ?p c)\<rparr>)"
    using c inv by (simp add: set_str_def dup_eq on_config_def at_def)
  moreover have "act_ok lo a g (g\<lparr>cg_mem := alloc (s @ [NUL]) (cg_mem g),
      confs := (confs g)(gconfig g \<mapsto> upd ?p c)\<rparr>)"
    by (rule act_ok_config [OF inv(1,3,4) c(1) refl]) (use upd [of ?p c] kind meaning in auto)
  ultimately show ?thesis by blast
qed


lemma on_config_ok:
  assumes inv: "config_inv lo g" "gconfig g \<noteq> NULL" "lo \<le> brk (cg_mem g)"
    and upd: "\<And>c. listenblocks (f c) = listenblocks c \<and> moduleblocks (f c) = moduleblocks c
      \<and> mset (conf_addrs (f c)) = mset (conf_addrs c)"
    and kind: "kind_of a = Server_entry"
    and meaning: "\<And>c. spec_act a (Some (abs_conf g c)) = Some (abs_conf g (f c))"
  shows "\<exists>g'. on_config f g = Inr g' \<and> act_ok lo a g g'"
proof -
  from inv obtain c where c: "confs g (gconfig g) = Some c"
    by (elim config_invE)
  then have "on_config f g = Inr (g\<lparr>cg_mem := cg_mem g, confs := (confs g)(gconfig g \<mapsto> f c)\<rparr>)"
    using inv by (simp add: on_config_def at_def)
  moreover have "act_ok lo a g (g\<lparr>cg_mem := cg_mem g, confs := (confs g)(gconfig g \<mapsto> f c)\<rparr>)"
    by (rule act_ok_config [OF inv c refl]) (use upd [of c] kind meaning in auto)
  ultimately show ?thesis by blast
qed

lemmas conf_meaning = conf_addrs_def abs_conf_def

text \<open>Changing the block that is open.\<close>

lemma on_listen_ok:
  assumes inv: "config_inv lo g" "gconfig g \<noteq> NULL" "lo \<le> brk (cg_mem g)" "opened Listen_entry g"
    and h: "h = cg_mem g \<or> h = alloc b (cg_mem g)"
    and addrs: "\<And>l. str_addrs (l_bindaddr (f l)) = (if h = cg_mem g then str_addrs (l_bindaddr l) else [brk (cg_mem g)])"
    and kind: "kind_of a = Listen_entry"
    and meaning: "\<And>x. spec_act a (Some x) = Some (a_listens_update (on_last fa) x)"
      "\<And>l. fa (abs_listen l) = abs_listen (f l)"
  shows "\<exists>g'. on_listen f (g\<lparr>cg_mem := h\<rparr>) = Inr g' \<and> act_ok lo a g g'"
proof -
  from inv obtain c ls where c: "confs g (gconfig g) = Some c" "listenblocks c = ls @ [curblock g]"
    by auto
  let ?p = "gconfig g" and ?l = "curblock g"
  from inv c have cw: "conf_wf lo g ?p" "stores_wf g" "lo \<le> ?l" "listens g ?l \<noteq> None" "?l \<noteq> 0" "?l \<notin> set ls"
      "\<forall>l \<in> set ls. listens g l \<noteq> None" "\<forall>m \<in> set (moduleblocks c). cmods g m \<noteq> None"
      "?l < brk (cg_mem g)"
    by (auto simp: config_inv_def conf_wf_def own_def stores_wf_def heap_wf_def)
  then obtain l where l: "listens g ?l = Some l" by auto
  let ?g = "g\<lparr>cg_mem := h, listens := (listens g)(?l \<mapsto> f l)\<rparr>"
  have run: "on_listen f (g\<lparr>cg_mem := h\<rparr>) = Inr ?g"
    using l cw by (simp add: on_listen_def at_def)
  have same: "map (listen_addrs ?g) ls = map (listen_addrs g) ls"
    using cw by (auto simp: listen_addrs_def)
  have one: "listen_addrs ?g ?l = str_addrs (l_bindaddr (f l))" "listen_addrs g ?l = str_addrs (l_bindaddr l)"
    by (simp_all add: listen_addrs_def l)
  have rest: "cmod_addrs ?g = cmod_addrs g"
    by simp
  have "conf_wf lo ?g ?p"
  proof (rule conf_wf_step [OF cw(1) c(1), where new = "if h = cg_mem g then [] else [brk (cg_mem g)]"])
    show "confs ?g ?p = Some c" using c by simp
    show "mset (own ?g ?p c) \<subseteq># mset ((if h = cg_mem g then [] else [brk (cg_mem g)]) @ own g ?p c)"
      unfolding own_def c(2) map_append concat_append same rest using addrs [of l]
      by (simp add: one)
  qed (use h inv(3) fresh_not_owned [OF cw(1) c(1) cw(2)] cw c in \<open>auto split: if_splits\<close>)
  moreover have "stores_wf ?g"
    using cw h by (auto simp: stores_wf_def)
  moreover have "abs_conf ?g c = a_listens_update (on_last fa) (abs_conf g c)"
    using cw l by (auto simp: abs_conf_def c meaning(2))
  ultimately show ?thesis
    using run c inv kind meaning(1) h cw
    by (auto simp: act_ok_def config_inv_def old_kept_def abs_config_def)
qed

lemma on_module_ok:
  assumes inv: "config_inv lo g" "gconfig g \<noteq> NULL" "lo \<le> brk (cg_mem g)" "opened Module_entry g"
    and addrs: "\<And>m. mset (str_addrs (cm_name (f m)) @ str_addrs (cm_path (f m)))
      \<subseteq># add_mset (brk (cg_mem g)) (mset (str_addrs (cm_name m) @ str_addrs (cm_path m)))"
    and kind: "kind_of a = Module_entry"
    and meaning: "\<And>x. spec_act a (Some x) = Some (a_modules_update (on_last fa) x)"
      "\<And>m. fa (abs_cmod m) = abs_cmod (f m)"
  shows "\<exists>g'. on_module f (g\<lparr>cg_mem := alloc b (cg_mem g)\<rparr>) = Inr g' \<and> act_ok lo a g g'"
proof -
  from inv obtain c ms where c: "confs g (gconfig g) = Some c" "moduleblocks c = ms @ [curmod g]"
    by auto
  let ?p = "gconfig g" and ?m = "curmod g"
  from inv c have cw: "conf_wf lo g ?p" "stores_wf g" "lo \<le> ?m" "cmods g ?m \<noteq> None" "?m \<noteq> 0" "?m \<notin> set ms"
      "\<forall>m \<in> set ms. cmods g m \<noteq> None" "\<forall>l \<in> set (listenblocks c). listens g l \<noteq> None"
      "?m < brk (cg_mem g)"
    by (auto simp: config_inv_def conf_wf_def own_def stores_wf_def heap_wf_def)
  then obtain m where m: "cmods g ?m = Some m" by auto
  let ?g = "g\<lparr>cg_mem := alloc b (cg_mem g), cmods := (cmods g)(?m \<mapsto> f m)\<rparr>"
  have run: "on_module f (g\<lparr>cg_mem := alloc b (cg_mem g)\<rparr>) = Inr ?g"
    using m cw by (simp add: on_module_def at_def)
  have same: "map (cmod_addrs ?g) ms = map (cmod_addrs g) ms"
    using cw by (auto simp: cmod_addrs_def)
  have one: "cmod_addrs ?g ?m = str_addrs (cm_name (f m)) @ str_addrs (cm_path (f m))"
      "cmod_addrs g ?m = str_addrs (cm_name m) @ str_addrs (cm_path m)"
    by (simp_all add: cmod_addrs_def m)
  have rest: "listen_addrs ?g = listen_addrs g"
    by simp
  have "conf_wf lo ?g ?p"
  proof (rule conf_wf_step [OF cw(1) c(1), where new = "[brk (cg_mem g)]"])
    show "confs ?g ?p = Some c" using c by simp
    show "mset (own ?g ?p c) \<subseteq># mset ([brk (cg_mem g)] @ own g ?p c)"
      unfolding own_def c(2) map_append concat_append same rest using addrs [of m]
      by (simp add: one)
  qed (use inv(3) fresh_not_owned [OF cw(1) c(1) cw(2)] cw c in \<open>auto split: if_splits\<close>)
  moreover have "stores_wf ?g"
    using cw by (auto simp: stores_wf_def)
  moreover have "abs_conf ?g c = a_modules_update (on_last fa) (abs_conf g c)"
    using cw m by (auto simp: abs_conf_def c meaning(2))
  ultimately show ?thesis
    using run c inv kind meaning(1) cw
    by (auto simp: act_ok_def config_inv_def old_kept_def abs_config_def)
qed


text \<open>Opening a block.\<close>

lemma new_config_ok:
  assumes st: "stores_wf g" and "mem_ok (cg_mem g)" "lo \<le> brk (cg_mem g)"
  shows "\<exists>g'. new_config d g = Inr g' \<and> config_inv lo g' \<and> old_kept lo g g' \<and> gconfig g' \<noteq> NULL
    \<and> abs_config g' = Some (default_config d) \<and> mem_ok (cg_mem g')
    \<and> listens g' = listens g \<and> cmods g' = cmods g \<and> curblock g' = curblock g \<and> curmod g' = curmod g
    \<and> (\<forall>a. blocks (cg_mem g) a \<noteq> None \<longrightarrow> blocks (cg_mem g') a \<noteq> None)
    \<and> confs g' (gconfig g') = Some (zero_config\<lparr>daemonize := d, readtimeout := 5, fixpath := 1\<rparr>)
    \<and> gconfig g' = brk (cg_mem g)"
  using assms
  by (auto simp: new_config_def nmalloc_alloc [OF st] sizeof_config_def config_inv_def stores_wf_def
      heap_wf_brk conf_wf_def own_def conf_addrs_def zero_config_def old_kept_def abs_config_def
      abs_conf_def default_config_def)

lemma list_push_ok:
  "mem_ok h \<Longrightarrow> list_push x (xs, h) = Inr (xs @ [x], h\<lparr>brk := Suc (brk h)\<rparr>)"
  by (simp add: list_push_def mem_ok_def)

lemma heap_wf_brk_Suc: "heap_wf h \<Longrightarrow> heap_wf (h\<lparr>brk := Suc (brk h)\<rparr>)"
  by (auto simp: heap_wf_def less_Suc_eq)

lemma push_listen_ok:
  assumes inv: "config_inv lo g" "mem_ok (cg_mem g)" "gconfig g \<noteq> NULL" "lo \<le> curblock g"
    and l: "listens g (curblock g) = Some \<lparr>l_bindaddr = Null_str, l_port = - 1\<rparr>"
      "blocks (cg_mem g) (curblock g) \<noteq> None"
      "\<And>c. confs g (gconfig g) = Some c \<Longrightarrow> curblock g \<notin> set (own g (gconfig g) c)"
  shows "\<exists>g'. and_then (config_at (gconfig g) g) (\<lambda>c.
       and_then (list_push (curblock g) (listenblocks c, cg_mem g)) (\<lambda>(ls, h2).
         on_config (listenblocks_update (\<lambda>_. ls)) (g\<lparr>cg_mem := h2\<rparr>))) = Inr g'
     \<and> config_inv lo g' \<and> old_kept lo g g' \<and> gconfig g' = gconfig g \<and> opened Listen_entry g'
     \<and> abs_config g' = map_option (\<lambda>c. c\<lparr>a_listens := a_listens c @ [(None, - 1)]\<rparr>) (abs_config g)"
proof -
  from inv obtain c where c: "confs g (gconfig g) = Some c" "conf_wf lo g (gconfig g)" "stores_wf g"
    "\<forall>l \<in> set (listenblocks c). listens g l \<noteq> None" "\<forall>m \<in> set (moduleblocks c). cmods g m \<noteq> None"
    by (elim config_invE)
  let ?p = "gconfig g" and ?c = "c\<lparr>listenblocks := listenblocks c @ [curblock g]\<rparr>"
  let ?g = "g\<lparr>cg_mem := (cg_mem g)\<lparr>brk := Suc (brk (cg_mem g))\<rparr>, confs := (confs g)(?p \<mapsto> ?c)\<rparr>"
  have "conf_wf lo ?g ?p"
  proof (rule conf_wf_step [OF c(2,1), where new = "[curblock g]"])
    show "confs ?g ?p = Some ?c" by simp
    show "mset (own ?g ?p ?c) \<subseteq># mset ([curblock g] @ own g ?p c)"
      using l(1) by (simp add: own_def conf_addrs_def) (simp add: listen_addrs_def)
  qed (use c l inv in auto)
  moreover have "stores_wf ?g"
    using c(1,3) by (auto simp: stores_wf_def heap_wf_brk_Suc)
  moreover have "lo \<le> ?p"
    using c(1,2) by (simp add: conf_wf_def own_def)
  moreover have "abs_conf ?g ?c = abs_conf g c\<lparr>a_listens := a_listens (abs_conf g c) @ [(None, - 1)]\<rparr>"
    using l(1) by (simp add: abs_conf_def abs_listen_def)
  ultimately show ?thesis
    using c(1) inv(2,3)
    by (simp add: at_def list_push_ok on_config_def config_inv_def old_kept_def abs_config_def)
qed

lemma push_module_ok:
  assumes inv: "config_inv lo g" "mem_ok (cg_mem g)" "gconfig g \<noteq> NULL" "lo \<le> curmod g"
    and m: "cmods g (curmod g) = Some \<lparr>cm_name = Null_str, cm_path = Null_str\<rparr>"
      "blocks (cg_mem g) (curmod g) \<noteq> None"
      "\<And>c. confs g (gconfig g) = Some c \<Longrightarrow> curmod g \<notin> set (own g (gconfig g) c)"
  shows "\<exists>g'. and_then (config_at (gconfig g) g) (\<lambda>c.
       and_then (list_push (curmod g) (moduleblocks c, cg_mem g)) (\<lambda>(ms, h2).
         on_config (moduleblocks_update (\<lambda>_. ms)) (g\<lparr>cg_mem := h2\<rparr>))) = Inr g'
     \<and> config_inv lo g' \<and> old_kept lo g g' \<and> gconfig g' = gconfig g \<and> opened Module_entry g'
     \<and> abs_config g' = map_option (\<lambda>c. c\<lparr>a_modules := a_modules c @ [(None, None)]\<rparr>) (abs_config g)"
proof -
  from inv obtain c where c: "confs g (gconfig g) = Some c" "conf_wf lo g (gconfig g)" "stores_wf g"
    "\<forall>l \<in> set (listenblocks c). listens g l \<noteq> None" "\<forall>m \<in> set (moduleblocks c). cmods g m \<noteq> None"
    by (elim config_invE)
  let ?p = "gconfig g" and ?c = "c\<lparr>moduleblocks := moduleblocks c @ [curmod g]\<rparr>"
  let ?g = "g\<lparr>cg_mem := (cg_mem g)\<lparr>brk := Suc (brk (cg_mem g))\<rparr>, confs := (confs g)(?p \<mapsto> ?c)\<rparr>"
  have "conf_wf lo ?g ?p"
  proof (rule conf_wf_step [OF c(2,1), where new = "[curmod g]"])
    show "confs ?g ?p = Some ?c" by simp
    show "mset (own ?g ?p ?c) \<subseteq># mset ([curmod g] @ own g ?p c)"
      using m(1) by (simp add: own_def conf_addrs_def) (simp add: cmod_addrs_def)
  qed (use c m inv in auto)
  moreover have "stores_wf ?g"
    using c(1,3) by (auto simp: stores_wf_def heap_wf_brk_Suc)
  moreover have "lo \<le> ?p"
    using c(1,2) by (simp add: conf_wf_def own_def)
  moreover have "abs_conf ?g ?c = abs_conf g c\<lparr>a_modules := a_modules (abs_conf g c) @ [(None, None)]\<rparr>"
    using m(1) by (simp add: abs_conf_def abs_cmod_def)
  ultimately show ?thesis
    using c(1) inv(2,3)
    by (simp add: at_def list_push_ok on_config_def config_inv_def old_kept_def abs_config_def)
qed


lemma sizeof_pos: "0 < sizeof_listen" "0 < sizeof_conf_module" "0 < sizeof_config"
  by (simp_all add: sizeof_listen_def sizeof_conf_module_def sizeof_config_def)

text \<open>The new block is in place before the configuration is looked at.\<close>

lemma inv_other_store:
  assumes "config_inv lo g" "confs g' = confs g" "gconfig g' = gconfig g" "stores_wf g'"
    and "\<And>a. blocks (cg_mem g) a \<noteq> None \<Longrightarrow> blocks (cg_mem g') a \<noteq> None"
    and "\<And>a. a < brk (cg_mem g) \<Longrightarrow> listens g' a = listens g a \<and> cmods g' a = cmods g a"
  shows "config_inv lo g'" "abs_config g' = abs_config g"
    "\<And>c. confs g (gconfig g) = Some c \<Longrightarrow> gconfig g \<noteq> NULL \<Longrightarrow> own g' (gconfig g) c = own g (gconfig g) c"
proof -
  have below: "a < brk (cg_mem g)" if "listens g a \<noteq> None \<or> cmods g a \<noteq> None" for a
  proof (rule ccontr)
    assume "\<not> a < brk (cg_mem g)"
    then have "brk (cg_mem g) \<le> a" by simp
    with that assms(1) show False by (simp add: config_inv_def stores_wf_def)
  qed
  show own: "own g' (gconfig g) c = own g (gconfig g) c"
    if c: "confs g (gconfig g) = Some c" and nn: "gconfig g \<noteq> NULL" for c
  proof -
    from c assms(1) nn have "\<forall>l \<in> set (listenblocks c). listens g l \<noteq> None"
        "\<forall>m \<in> set (moduleblocks c). cmods g m \<noteq> None"
      by (simp_all add: config_inv_def conf_wf_def)
    then have "map (listen_addrs g') (listenblocks c) = map (listen_addrs g) (listenblocks c)"
        "map (cmod_addrs g') (moduleblocks c) = map (cmod_addrs g) (moduleblocks c)"
      using assms(6) below by (auto simp: listen_addrs_def cmod_addrs_def)
    then show ?thesis by (simp only: own_def)
  qed
  show "config_inv lo g'"
  proof (cases "gconfig g = NULL")
    case False
    with assms(1) obtain c where c: "confs g (gconfig g) = Some c" "conf_wf lo g (gconfig g)"
      by (elim config_invE)
    with own [OF c(1) False] below show ?thesis
      using assms False by (auto simp: config_inv_def conf_wf_def)
  qed (use assms in \<open>simp add: config_inv_def\<close>)
  show "abs_config g' = abs_config g"
  proof (cases "gconfig g = NULL")
    case False
    with assms(1) obtain c where c: "confs g (gconfig g) = Some c"
        "\<forall>l \<in> set (listenblocks c). listens g l \<noteq> None" "\<forall>m \<in> set (moduleblocks c). cmods g m \<noteq> None"
      by (elim config_invE)
    then show ?thesis
      using assms(2,3,6) below False by (auto simp: abs_config_def abs_conf_def)
  qed (use assms in \<open>simp add: abs_config_def\<close>)
qed

lemma ensure_config_ok:
  assumes "config_inv lo g" "mem_ok (cg_mem g)" "lo \<le> brk (cg_mem g)"
  shows "\<exists>g'. (if gconfig g = NULL then new_config (- 1) g else Inr g) = Inr g'
    \<and> config_inv lo g' \<and> old_kept lo g g' \<and> gconfig g' \<noteq> NULL \<and> mem_ok (cg_mem g')
    \<and> abs_config g' = (if gconfig g = NULL then Some (default_config (- 1)) else abs_config g)
    \<and> listens g' = listens g \<and> cmods g' = cmods g \<and> curblock g' = curblock g \<and> curmod g' = curmod g
    \<and> (\<forall>a. blocks (cg_mem g) a \<noteq> None \<longrightarrow> blocks (cg_mem g') a \<noteq> None)
    \<and> (gconfig g = NULL \<longrightarrow> gconfig g' = brk (cg_mem g)
        \<and> confs g' (gconfig g') = Some (zero_config\<lparr>daemonize := - 1, readtimeout := 5, fixpath := 1\<rparr>))
    \<and> (gconfig g \<noteq> NULL \<longrightarrow> g' = g)"
  using new_config_ok [OF _ assms(2,3), of "- 1"] assms by (auto simp: config_inv_def)

lemma listen_entry_ok:
  assumes "config_inv lo g" "mem_ok (cg_mem g)" "lo \<le> brk (cg_mem g)"
  shows "\<exists>g'. listen_entry g = Inr g' \<and> act_ok lo Listen_entry g g'"
proof -
  let ?l = "brk (cg_mem g)" and ?new = "\<lparr>l_bindaddr = Null_str, l_port = - 1\<rparr>"
  let ?g1 = "g\<lparr>cg_mem := alloc (replicate sizeof_listen NUL) (cg_mem g), curblock := ?l,
    listens := (listens g)(?l \<mapsto> ?new)\<rparr>"
  from assms have st: "stores_wf g" by (simp add: config_inv_def)
  then have "stores_wf ?g1" by (auto simp: stores_wf_def)
  note g1 = inv_other_store [OF assms(1), of ?g1, OF _ _ this]
  have inv1: "config_inv lo ?g1" "abs_config ?g1 = abs_config g"
    by (rule g1; auto)+
  have own1: "?l \<notin> set (own ?g1 (gconfig g) c)" if "confs g (gconfig g) = Some c" "gconfig g \<noteq> NULL" for c
    using g1(3) [OF _ _ _ _ that] fresh_not_owned [of lo g "gconfig g"] that assms(1) st
    by (auto simp: config_inv_def)
  have "mem_ok (cg_mem ?g1)" "lo \<le> brk (cg_mem ?g1)"
    using assms by simp_all
  from ensure_config_ok [OF inv1(1) this] obtain g2 where
    g2: "(if gconfig ?g1 = NULL then new_config (- 1) ?g1 else Inr ?g1) = Inr g2"
      "config_inv lo g2" "old_kept lo ?g1 g2" "gconfig g2 \<noteq> NULL" "mem_ok (cg_mem g2)"
      "abs_config g2 = (if gconfig ?g1 = NULL then Some (default_config (- 1)) else abs_config ?g1)"
      "listens g2 = listens ?g1" "curblock g2 = curblock ?g1"
      "\<forall>a. blocks (cg_mem ?g1) a \<noteq> None \<longrightarrow> blocks (cg_mem g2) a \<noteq> None"
      "gconfig ?g1 = NULL \<longrightarrow> gconfig g2 = brk (cg_mem ?g1)
         \<and> confs g2 (gconfig g2) = Some (zero_config\<lparr>daemonize := - 1, readtimeout := 5, fixpath := 1\<rparr>)"
      "gconfig ?g1 \<noteq> NULL \<longrightarrow> g2 = ?g1"
    by (elim exE conjE)
  have "?l \<notin> set (own g2 (gconfig g2) c)" if "confs g2 (gconfig g2) = Some c" for c
  proof (cases "gconfig g = NULL")
    case True
    with g2(10) that show ?thesis by (simp add: own_def conf_addrs_def zero_config_def)
  next
    case False
    with g2(11) that own1 show ?thesis by simp
  qed
  moreover have "blocks (cg_mem g2) ?l \<noteq> None" using g2(9) by simp
  ultimately obtain g3 where g3:
    "and_then (config_at (gconfig g2) g2) (\<lambda>c.
       and_then (list_push (curblock g2) (listenblocks c, cg_mem g2)) (\<lambda>(ls, h2).
         on_config (listenblocks_update (\<lambda>_. ls)) (g2\<lparr>cg_mem := h2\<rparr>))) = Inr g3"
    "config_inv lo g3" "old_kept lo g2 g3" "gconfig g3 = gconfig g2" "opened Listen_entry g3"
    "abs_config g3 = map_option (\<lambda>c. c\<lparr>a_listens := a_listens c @ [(None, - 1)]\<rparr>) (abs_config g2)"
    using push_listen_ok [OF g2(2,5,4)] g2(7,8) assms(3) by force
  have "listen_entry g = Inr g3"
    unfolding listen_entry_def nmalloc_alloc [OF st assms(2) sizeof_pos(1)] and_then.simps
      prod.case Let_def g2(1) using g3(1) g2(8) by simp
  moreover have "old_kept lo g ?g1"
    using assms by (auto simp: old_kept_def)
  moreover have "spec_act Listen_entry (abs_config g) = abs_config g3"
    using g2(6) g3(6) assms(1) inv1(2)
    by (auto simp: abs_config_def default_config_def config_inv_def conf_wf_def split: option.splits)
  ultimately show ?thesis
    using g2 g3 by (auto simp: act_ok_def intro: old_kept_trans)
qed

lemma module_entry_ok:
  assumes "config_inv lo g" "mem_ok (cg_mem g)" "lo \<le> brk (cg_mem g)"
  shows "\<exists>g'. module_entry g = Inr g' \<and> act_ok lo Module_entry g g'"
proof -
  let ?m = "brk (cg_mem g)" and ?new = "\<lparr>cm_name = Null_str, cm_path = Null_str\<rparr>"
  let ?g1 = "g\<lparr>cg_mem := alloc (replicate sizeof_conf_module NUL) (cg_mem g), curmod := ?m,
    cmods := (cmods g)(?m \<mapsto> ?new)\<rparr>"
  from assms have st: "stores_wf g" by (simp add: config_inv_def)
  then have "stores_wf ?g1" by (auto simp: stores_wf_def)
  note g1 = inv_other_store [OF assms(1), of ?g1, OF _ _ this]
  have inv1: "config_inv lo ?g1" "abs_config ?g1 = abs_config g"
    by (rule g1; auto)+
  have own1: "?m \<notin> set (own ?g1 (gconfig g) c)" if "confs g (gconfig g) = Some c" "gconfig g \<noteq> NULL" for c
    using g1(3) [OF _ _ _ _ that] fresh_not_owned [of lo g "gconfig g"] that assms(1) st
    by (auto simp: config_inv_def)
  have "mem_ok (cg_mem ?g1)" "lo \<le> brk (cg_mem ?g1)"
    using assms by simp_all
  from ensure_config_ok [OF inv1(1) this] obtain g2 where
    g2: "(if gconfig ?g1 = NULL then new_config (- 1) ?g1 else Inr ?g1) = Inr g2"
      "config_inv lo g2" "old_kept lo ?g1 g2" "gconfig g2 \<noteq> NULL" "mem_ok (cg_mem g2)"
      "abs_config g2 = (if gconfig ?g1 = NULL then Some (default_config (- 1)) else abs_config ?g1)"
      "cmods g2 = cmods ?g1" "curmod g2 = curmod ?g1"
      "\<forall>a. blocks (cg_mem ?g1) a \<noteq> None \<longrightarrow> blocks (cg_mem g2) a \<noteq> None"
      "gconfig ?g1 = NULL \<longrightarrow> gconfig g2 = brk (cg_mem ?g1)
         \<and> confs g2 (gconfig g2) = Some (zero_config\<lparr>daemonize := - 1, readtimeout := 5, fixpath := 1\<rparr>)"
      "gconfig ?g1 \<noteq> NULL \<longrightarrow> g2 = ?g1"
    by (elim exE conjE)
  have "?m \<notin> set (own g2 (gconfig g2) c)" if "confs g2 (gconfig g2) = Some c" for c
  proof (cases "gconfig g = NULL")
    case True
    with g2(10) that show ?thesis by (simp add: own_def conf_addrs_def zero_config_def)
  next
    case False
    with g2(11) that own1 show ?thesis by simp
  qed
  moreover have "blocks (cg_mem g2) ?m \<noteq> None" using g2(9) by simp
  ultimately obtain g3 where g3:
    "and_then (config_at (gconfig g2) g2) (\<lambda>c.
       and_then (list_push (curmod g2) (moduleblocks c, cg_mem g2)) (\<lambda>(ms, h2).
         on_config (moduleblocks_update (\<lambda>_. ms)) (g2\<lparr>cg_mem := h2\<rparr>))) = Inr g3"
    "config_inv lo g3" "old_kept lo g2 g3" "gconfig g3 = gconfig g2" "opened Module_entry g3"
    "abs_config g3 = map_option (\<lambda>c. c\<lparr>a_modules := a_modules c @ [(None, None)]\<rparr>) (abs_config g2)"
    using push_module_ok [OF g2(2,5,4)] g2(7,8) assms(3) by force
  have "module_entry g = Inr g3"
    unfolding module_entry_def nmalloc_alloc [OF st assms(2) sizeof_pos(2)] and_then.simps
      prod.case Let_def g2(1) using g3(1) g2(8) by simp
  moreover have "old_kept lo g ?g1"
    using assms by (auto simp: old_kept_def)
  moreover have "spec_act Module_entry (abs_config g) = abs_config g3"
    using g2(6) g3(6) assms(1) inv1(2)
    by (auto simp: abs_config_def default_config_def config_inv_def conf_wf_def split: option.splits)
  ultimately show ?thesis
    using g2 g3 by (auto simp: act_ok_def intro: old_kept_trans)
qed


section \<open>Sequences of actions\<close>

lemma act_step:
  assumes inv: "config_inv lo g" "mem_ok (cg_mem g)" "lo \<le> brk (cg_mem g)"
    and pos: "entry a \<or> gconfig g \<noteq> NULL \<and> opened (kind_of a) g"
  shows "\<exists>g'. act a g = Inr g' \<and> act_ok lo a g g'"
proof -
  from inv have st: "stores_wf g" by (simp add: config_inv_def)
  note strs = set_str_ok [OF inv(1,2) _ inv(3)] and flds = on_config_ok [OF inv(1) _ inv(3)]
    and lis = on_listen_ok [OF inv(1) _ inv(3)] and mods = on_module_ok [OF inv(1) _ inv(3)]
  show ?thesis
  proof (cases a)
    case Server_entry
    with new_config_ok [OF st inv(2,3), of 1] show ?thesis
      by (auto simp: server_entry_def act_ok_def)
  next
    case Listen_entry
    with listen_entry_ok [OF inv] show ?thesis by simp
  next
    case Module_entry
    with module_entry_ok [OF inv] show ?thesis by simp
  next
    case (Module_path s)
    with pos mods [of "cm_path_update (\<lambda>_. Dup (brk (cg_mem g)) s)" a "\<lambda>(n, p). (n, Some s)" "s @ [NUL]"]
    show ?thesis by (simp add: dup_eq [OF st inv(2)] abs_cmod_def)
  next
    case (Module_name s)
    with pos mods [of "cm_name_update (\<lambda>_. Dup (brk (cg_mem g)) s)" a "\<lambda>(n, p). (Some s, p)" "s @ [NUL]"]
    show ?thesis by (simp add: dup_eq [OF st inv(2)] abs_cmod_def)
  next
    case (Listen_bind s)
    with pos lis [of "alloc (s @ [NUL]) (cg_mem g)" "s @ [NUL]"
        "l_bindaddr_update (\<lambda>_. Dup (brk (cg_mem g)) s)" a "\<lambda>(b, p). (Some s, p)"]
    show ?thesis by (auto simp: dup_eq [OF st inv(2)] abs_listen_def)
  next
    case (Listen_port n)
    with pos lis [of "cg_mem g" "[]" "l_port_update (\<lambda>_. word_of_int n)" a "\<lambda>(b, p). (b, word_of_int n)"]
    show ?thesis by (simp add: abs_listen_def)
  next
    case (Server_directory s)
    with pos show ?thesis by (simp, intro strs) (auto simp: conf_meaning)
  next
    case (Server_user s)
    with pos show ?thesis by (simp, intro strs) (auto simp: conf_meaning)
  next
    case (Server_group s)
    with pos show ?thesis by (simp, intro strs) (auto simp: conf_meaning)
  next
    case (Server_module_search_path s)
    with pos show ?thesis by (simp, intro strs) (auto simp: conf_meaning)
  next
    case (Server_pidfile s)
    with pos show ?thesis by (simp, intro strs) (auto simp: conf_meaning)
  next
    case (Server_daemonize b)
    with pos show ?thesis by (simp, intro flds) (auto simp: conf_meaning)
  next
    case (Server_readtimeout n)
    with pos show ?thesis by (simp, intro flds) (auto simp: conf_meaning)
  next
    case (Server_fixpath b)
    with pos show ?thesis by (simp, intro flds) (auto simp: conf_meaning)
  qed
qed

text \<open>
  A grouped sequence of actions runs to its end when there is memory, and its result is
  the specification's.
\<close>

lemma act_fold:
  assumes "config_inv lo g" "mem_ok (cg_mem g)" "lo \<le> brk (cg_mem g)" "grouped b as"
    and "\<And>k. b = Some k \<Longrightarrow> gconfig g \<noteq> NULL \<and> opened k g"
  shows "\<exists>g'. fold_res act as g = Inr g' \<and> config_inv lo g' \<and> old_kept lo g g'
    \<and> abs_config g' = fold spec_act as (abs_config g)"
  using assms
proof (induction as arbitrary: b g)
  case (Cons a as)
  from Cons.prems(4,5) have "entry a \<or> gconfig g \<noteq> NULL \<and> opened (kind_of a) g"
    by auto
  with act_step [OF Cons.prems(1-3)] obtain g1 where g1: "act a g = Inr g1" "act_ok lo a g g1"
    by blast
  then have "mem_ok (cg_mem g1)" "lo \<le> brk (cg_mem g1)"
    using Cons.prems(2,3) by (auto simp: act_ok_def old_kept_def mem_ok_def)
  with g1 Cons.IH [of g1 "Some (kind_of a)"] Cons.prems(4) obtain g2 where
    "fold_res act as g1 = Inr g2" "config_inv lo g2" "old_kept lo g1 g2"
    "abs_config g2 = fold spec_act as (abs_config g1)"
    by (auto simp: act_ok_def)
  with g1 show ?case
    by (auto simp: act_ok_def intro: old_kept_trans)
qed simp

end
