(* ===== verification/Config_Life.thy ===== *)
theory Config_Life
  imports Config_Actions
begin

text \<open>
  The life of a configuration: \<open>ParseConfig\<close> and its checks against the specification,
  \<open>DeallocateConfig\<close>, and reading the configuration again on \<open>SIGHUP\<close>.
\<close>

section \<open>Parsing a text\<close>

lemma parse_text_ok:
  assumes "config_inv lo g" "mem_ok (cg_mem g)" "lo \<le> brk (cg_mem g)" "yyparse (lex s) = (as, True)"
  shows "\<exists>g'. parse_text s g = Inr g' \<and> config_inv lo g' \<and> old_kept lo g g'
    \<and> abs_config g' = fold spec_act as (abs_config g)"
  using act_fold [OF assms(1-3), of None as] grouped_yyparse [of "lex s"] assms(4)
  by (auto simp: parse_text_def)

lemma parse_text_error:
  assumes "config_inv 0 g" "mem_ok (cg_mem g)" "yyparse (lex s) = (as, False)"
  shows "parse_text s g = Inl Exit_failure"
  using act_fold [OF assms(1,2), of None as] grouped_yyparse [of "lex s"] assms(3)
  by (auto simp: parse_text_def)

text \<open>The checks, on the configuration as data.\<close>

definition spec_check :: "aconfig option \<Rightarrow> int \<times> aconfig option" where
  "spec_check x =
     (case x of
        None \<Rightarrow> (1, None)
      | Some c \<Rightarrow>
          if a_directory c = None then (1, Some c)
          else (0, Some (c\<lparr>a_pidfile := Some (case a_pidfile c of None \<Rightarrow> ''/var/run/nbstftp.pid'' | Some f \<Rightarrow> f),
                 a_readtimeout := (if sint (a_readtimeout c) < 2 then 5 else a_readtimeout c)\<rparr>)))"

lemma check_config_ok:
  assumes "config_inv lo g"
  shows "\<exists>r g'. check_config g = Inr (r, g') \<and> config_inv lo g' \<and> old_kept lo g g'
    \<and> gconfig g' = gconfig g \<and> cg_mem g' = cg_mem g \<and> (r, abs_config g') = spec_check (abs_config g)"
proof (cases "gconfig g = NULL")
  case True
  with assms show ?thesis
    by (simp add: check_config_def abs_config_def spec_check_def)
next
  case False
  with assms obtain c where c: "confs g (gconfig g) = Some c" "conf_wf lo g (gconfig g)" "stores_wf g"
    "\<forall>l \<in> set (listenblocks c). listens g l \<noteq> None" "\<forall>m \<in> set (moduleblocks c). cmods g m \<noteq> None"
    by (elim config_invE)
  show ?thesis
  proof (cases "directory c = Null_str")
    case True
    with c False assms show ?thesis
      by (simp add: check_config_def at_def abs_config_def spec_check_def abs_conf_def)
  next
    case dir: False
    let ?c = "c\<lparr>pidfile := (if pidfile c = Heap_str Null_str then Literal ''/var/run/nbstftp.pid'' else pidfile c),
                readtimeout := (if sint (readtimeout c) < 2 then 5 else readtimeout c)\<rparr>"
    let ?g = "g\<lparr>confs := (confs g)(gconfig g \<mapsto> ?c)\<rparr>"
    have run: "check_config g = Inr (0, ?g)"
      using c dir False by (simp add: check_config_def at_def on_config_def)
    have "conf_wf lo ?g (gconfig g)"
    proof (rule conf_wf_step [OF c(2,1), where new = "[]"])
      show "confs ?g (gconfig g) = Some ?c" by simp
      show "mset (own ?g (gconfig g) ?c) \<subseteq># mset ([] @ own g (gconfig g) c)"
        by (simp add: own_def conf_addrs_def)
    qed (use c in auto)
    moreover have "stores_wf ?g" "lo \<le> gconfig g"
      using c by (auto simp: stores_wf_def conf_wf_def own_def)
    moreover have "spec_check (Some (abs_conf g c)) = (0, Some (abs_conf ?g ?c))"
      using dir pid_val_None [of "pidfile c"]
      by (auto simp: spec_check_def abs_conf_def str_val_None split: option.splits)
    ultimately show ?thesis
      using run c False by (auto simp: config_inv_def old_kept_def abs_config_def)
  qed
qed

section \<open>ParseConfig\<close>

lemma ParseConfig_read:
  assumes "fs_wf fs" "nodes fs file = Some (Reg s)" "r_perm fs file = 0"
  shows "ParseConfig file (e, fs) g =
    and_then (parse_text s g) (\<lambda>g1. and_then (check_config g1) (\<lambda>(r, g2).
      Inr (r, (e, fs\<lparr>next_handle := Suc (next_handle fs), handles := (handles fs)(next_handle fs := None)\<rparr>), g2)))"
  using assms
  by (simp add: ParseConfig_def fopen_read_def open_handle_def fread_def stream_def file_bytes_def
      fclose_def fs_wf_def)

lemma ParseConfig_no_file:
  assumes "nodes fs file = None \<or> r_perm fs file \<noteq> 0"
  shows "\<exists>e'. ParseConfig file (e, fs) g = Inr (1, (e', fs), g)"
  using assms by (auto simp: ParseConfig_def fopen_read_def split: option.splits)

lemma ParseConfig_ok:
  assumes "fs_wf fs" "nodes fs file = Some (Reg s)" "r_perm fs file = 0"
    and inv: "config_inv lo g" "mem_ok (cg_mem g)" "lo \<le> brk (cg_mem g)"
    and parse: "yyparse (lex s) = (as, True)"
  shows "\<exists>r fs' g'. ParseConfig file (e, fs) g = Inr (r, (e, fs'), g') \<and> nodes fs' = nodes fs
    \<and> config_inv lo g' \<and> old_kept lo g g' \<and> (r, abs_config g') = spec_check (fold spec_act as (abs_config g))"
proof -
  from parse_text_ok [OF inv parse] obtain g1 where g1: "parse_text s g = Inr g1" "config_inv lo g1"
    "old_kept lo g g1" "abs_config g1 = fold spec_act as (abs_config g)" by blast
  from check_config_ok [OF g1(2)] obtain r g2 where "check_config g1 = Inr (r, g2)" "config_inv lo g2"
    "old_kept lo g1 g2" "(r, abs_config g2) = spec_check (abs_config g1)" by blast
  with g1 show ?thesis
    by (auto simp: ParseConfig_read [OF assms(1-3)] intro: old_kept_trans)
qed

text \<open>What acceptance means for the configuration, whatever the file holds.\<close>

lemma abs_config_Some:
  "abs_config g = Some v \<longleftrightarrow> gconfig g \<noteq> NULL \<and> (\<exists>c. confs g (gconfig g) = Some c \<and> v = abs_conf g c)"
  by (auto simp: abs_config_def)

lemma spec_check_accepts:
  assumes "spec_check x = (0, y)"
  shows "\<exists>v. y = Some v \<and> a_directory v \<noteq> None \<and> a_pidfile v \<noteq> None \<and> 2 \<le> sint (a_readtimeout v)"
  using assms by (auto simp: spec_check_def split: option.splits if_splits)

lemma ParseConfig_accepted:
  assumes fs: "fs_wf fs" "nodes fs path = Some (Reg s)" and inv: "config_inv 0 g" "mem_ok (cg_mem g)"
    and run: "ParseConfig path (e, fs) g = Inr (0, st, g')"
  obtains v c where "config_inv 0 g'" "gconfig g' \<noteq> NULL" "confs g' (gconfig g') = Some c" "v = abs_conf g' c"
    "a_directory v \<noteq> None" "a_pidfile v \<noteq> None" "2 \<le> sint (a_readtimeout v)"
proof -
  have perm: "r_perm fs path = 0"
    using run ParseConfig_no_file [of fs path e g] by auto
  obtain as ok where p: "yyparse (lex s) = (as, ok)" by fastforce
  have "ok"
    using run p parse_text_error [OF inv] ParseConfig_read [OF fs perm] by (cases ok) auto
  with p have "yyparse (lex s) = (as, True)" by simp
  from ParseConfig_ok [OF fs perm inv _ this, of e] run
  have "config_inv 0 g'" "spec_check (fold spec_act as (abs_config g)) = (0, abs_config g')" by auto
  with spec_check_accepts [OF this(2)] that show ?thesis
    by (auto simp: abs_config_Some)
qed

section \<open>DeallocateConfig\<close>

text \<open>A heap in which some blocks are freed.\<close>

definition dead :: "addr list \<Rightarrow> heap \<Rightarrow> heap" where
  "dead F h = h\<lparr>blocks := blocks h |` (- set F)\<rparr>"

lemma dead_simps [simp]:
  "brk (dead F h) = brk h" "oom (dead F h) = oom h" "dead [] h = h"
  "blocks (dead F h) a = (if a \<in> set F then None else blocks h a)"
  "dead G (dead F h) = dead (F @ G) h"
  by (simp_all add: dead_def restrict_map_def Compl_Un fun_eq_iff)

lemma heap_wf_dead [simp]: "heap_wf h \<Longrightarrow> heap_wf (dead F h)"
  by (simp add: heap_wf_def)

definition live :: "addr list \<Rightarrow> heap \<Rightarrow> bool" where
  "live F h \<longleftrightarrow> (\<forall>a \<in> set F. a \<noteq> NULL \<and> blocks h a \<noteq> None)"

lemma live_simps [simp]:
  "live [] h" "live (a # F) h \<longleftrightarrow> a \<noteq> NULL \<and> blocks h a \<noteq> None \<and> live F h"
  "live (F @ G) h \<longleftrightarrow> live F h \<and> live G h"
  by (auto simp: live_def)

lemma live_dead: "live F h \<Longrightarrow> set F \<inter> set G = {} \<Longrightarrow> live F (dead G h)"
  by (auto simp: live_def)

lemma free_live: "live [p] h \<Longrightarrow> free p h = Inr (dead [p] h)"
  by (auto simp: free_def dead_def restrict_map_def fun_eq_iff)

lemma free_str_live:
  "live (str_addrs s) (cg_mem g) \<Longrightarrow>
     free_str s g = Inr (g\<lparr>cg_mem := dead (str_addrs s) (cg_mem g)\<rparr>)"
  by (cases s) (simp_all add: free_str_def free_live)

lemma free_struct_live:
  "live [p] (cg_mem g) \<Longrightarrow> free_struct p g = Inr (g\<lparr>cg_mem := dead [p] (cg_mem g)\<rparr>)"
  by (simp add: free_struct_def free_live)

text \<open>The two loops free what their blocks own.\<close>

definition listens_own :: "cfgs \<Rightarrow> addr list \<Rightarrow> addr list" where
  "listens_own g ls = concat (map (\<lambda>l. listen_addrs g l @ [l]) ls)"

lemma listens_own_cong:
  "(\<And>l. l \<in> set ls \<Longrightarrow> listens g' l = listens g l) \<Longrightarrow> listens_own g' ls = listens_own g ls"
  by (induction ls) (auto simp: listens_own_def listen_addrs_def)

lemma set_listens_own: "set ls \<subseteq> set (listens_own g ls)"
  by (auto simp: listens_own_def)

lemma free_listens:
  assumes "distinct (listens_own g ls)" "live (listens_own g ls) (cg_mem g)"
    and "\<And>l. l \<in> set ls \<Longrightarrow> listens g l \<noteq> None"
  shows "fold_res free_listen ls g
    = Inr (g\<lparr>cg_mem := dead (listens_own g ls) (cg_mem g), listens := listens g |` (- set ls)\<rparr>)"
  using assms
proof (induction ls arbitrary: g)
  case Nil
  then show ?case by (simp add: listens_own_def)
next
  case (Cons l ls)
  from Cons.prems obtain x where x: "listens g l = Some x" by fastforce
  let ?g = "g\<lparr>cg_mem := dead (listen_addrs g l @ [l]) (cg_mem g), listens := (listens g)(l := None)\<rparr>"
  from Cons.prems(1) set_listens_own [of ls g] have notin: "l \<notin> set ls" "l \<notin> set (listen_addrs g l)"
      "set (listens_own g ls) \<inter> set (listen_addrs g l @ [l]) = {}" "distinct (listens_own g ls)"
    by (auto simp: listens_own_def)
  have own: "listens_own ?g ls = listens_own g ls"
    using notin by (intro listens_own_cong) auto
  have "free_listen l g = Inr ?g"
    using x notin Cons.prems(2)
    by (simp add: free_listen_def at_def listens_own_def listen_addrs_def free_str_live free_struct_live)
  moreover have "fold_res free_listen ls ?g = Inr (?g\<lparr>cg_mem := dead (listens_own ?g ls) (cg_mem ?g),
      listens := listens ?g |` (- set ls)\<rparr>)"
  proof (rule Cons.IH)
    show "distinct (listens_own ?g ls)" using own notin by simp
    show "live (listens_own ?g ls) (cg_mem ?g)"
      using Cons.prems(2) notin unfolding own
      by simp (rule live_dead, auto simp: listens_own_def)
    show "listens ?g l' \<noteq> None" if "l' \<in> set ls" for l'
      using that notin Cons.prems(3) by auto
  qed
  moreover have "(listens g)(l := None) |` (- set ls) = listens g |` (- set (l # ls))"
    by (auto simp: restrict_map_def fun_eq_iff)
  ultimately show ?case
    using own by (simp add: listens_own_def [of g "l # ls"]) (simp add: listens_own_def)
qed

lemma free_cmods:
  assumes "distinct (concat (map (cmod_addrs g) ms))" "live (concat (map (cmod_addrs g) ms)) (cg_mem g)"
    and "\<And>m. m \<in> set ms \<Longrightarrow> m \<noteq> NULL \<and> cmods g m \<noteq> None"
  shows "fold_res free_cmod ms g
    = Inr (g\<lparr>cg_mem := dead (concat (map (cmod_addrs g) ms)) (cg_mem g)\<rparr>)"
  using assms
proof (induction ms arbitrary: g)
  case (Cons m ms)
  from Cons.prems obtain x where x: "cmods g m = Some x" "m \<noteq> NULL" by fastforce
  let ?g = "g\<lparr>cg_mem := dead (cmod_addrs g m) (cg_mem g)\<rparr>"
  have "set (str_addrs (cm_path x)) \<inter> set (str_addrs (cm_name x)) = {}"
      "live (str_addrs (cm_name x)) (cg_mem g)" "live (str_addrs (cm_path x)) (cg_mem g)"
    using x Cons.prems(1,2) by (auto simp: cmod_addrs_def)
  then have "free_cmod m g = Inr ?g"
    using x by (simp add: free_cmod_def at_def cmod_addrs_def free_str_live live_dead)
  moreover have "fold_res free_cmod ms ?g
      = Inr (?g\<lparr>cg_mem := dead (concat (map (cmod_addrs ?g) ms)) (cg_mem ?g)\<rparr>)"
  proof (rule Cons.IH)
    show "live (concat (map (cmod_addrs ?g) ms)) (cg_mem ?g)"
      using Cons.prems(1,2) by simp (rule live_dead, auto)
  qed (use Cons.prems in auto)
  ultimately show ?case by simp
qed simp


definition dealloc_addrs :: "cfgs \<Rightarrow> config_t \<Rightarrow> addr \<Rightarrow> config_t \<Rightarrow> addr list" where
  "dealloc_addrs g c q d = listens_own g (listenblocks c) @ concat (map (cmod_addrs g) (moduleblocks c))
     @ str_addrs (user d) @ str_addrs (group d) @ str_addrs (directory d) @ [q]"

lemma live_chain:
  assumes "distinct (L @ M @ u @ r @ d @ [q])" "live (L @ M @ u @ r @ d @ [q]) h"
  shows "live M (dead L h)" "live u (dead (L @ M) h)" "live r (dead (L @ M @ u) h)"
    "live d (dead (L @ M @ u @ r) h)" "live [q] (dead (L @ M @ u @ r @ d) h)"
  using assms by (auto intro!: live_dead)

lemma DeallocateConfig_run:
  assumes nn: "gconfig g \<noteq> NULL" and c: "confs g (gconfig g) = Some c" and d: "confs g q = Some d"
    and dist: "distinct (dealloc_addrs g c q d)" and liv: "live (dealloc_addrs g c q d) (cg_mem g)"
    and ls: "\<And>l. l \<in> set (listenblocks c) \<Longrightarrow> listens g l \<noteq> None"
    and ms: "\<And>m. m \<in> set (moduleblocks c) \<Longrightarrow> m \<noteq> NULL \<and> cmods g m \<noteq> None"
  shows "DeallocateConfig q g = Inr (g\<lparr>cg_mem := dead (dealloc_addrs g c q d) (cg_mem g),
    listens := listens g |` (- set (listenblocks c)),
    confs := (confs g)(gconfig g \<mapsto> c\<lparr>listenblocks := [], moduleblocks := []\<rparr>, q := None)\<rparr>)"
proof -
  let ?p = "gconfig g" and ?L = "listens_own g (listenblocks c)"
    and ?M = "concat (map (cmod_addrs g) (moduleblocks c))"
  let ?u = "str_addrs (user d)" and ?gr = "str_addrs (group d)" and ?d = "str_addrs (directory d)"
  note dd = dist [unfolded dealloc_addrs_def] and ll = liv [unfolded dealloc_addrs_def]
  note chain = live_chain [OF dd ll]
  define g1 where "g1 = g\<lparr>cg_mem := dead ?L (cg_mem g), listens := listens g |` (- set (listenblocks c))\<rparr>"
  define g2 where "g2 = g1\<lparr>confs := (confs g)(?p \<mapsto> c\<lparr>listenblocks := []\<rparr>)\<rparr>"
  define g3 where "g3 = g2\<lparr>cg_mem := dead (?L @ ?M) (cg_mem g)\<rparr>"
  define g4 where "g4 = g3\<lparr>confs := (confs g)(?p \<mapsto> c\<lparr>listenblocks := [], moduleblocks := []\<rparr>)\<rparr>"
  have s1: "fold_res free_listen (listenblocks c) g = Inr g1"
    unfolding g1_def using dd ll ls by (intro free_listens) auto
  have s2: "on_config (listenblocks_update (\<lambda>_. [])) g1 = Inr g2"
    using nn c by (simp add: on_config_def at_def g1_def g2_def)
  have "cmod_addrs g2 = cmod_addrs g" "cg_mem g2 = dead ?L (cg_mem g)" "cmods g2 = cmods g"
    by (simp_all add: g2_def g1_def)
  moreover note chain(1)
  ultimately have s3: "fold_res free_cmod (moduleblocks c) g2 = Inr g3"
    using free_cmods [of g2 "moduleblocks c"] dd ms by (simp add: g3_def)
  have s4: "on_config (moduleblocks_update (\<lambda>_. [])) g3 = Inr g4"
    using nn by (simp add: on_config_def at_def g4_def g3_def g2_def g1_def)
  obtain d' where d': "confs g4 q = Some d'" "user d' = user d" "group d' = group d" "directory d' = directory d"
    using c d by (cases "q = ?p") (auto simp: g4_def)
  have m4: "cg_mem g4 = dead (?L @ ?M) (cg_mem g)" by (simp add: g4_def g3_def)
  have s5: "free_str (user d) g4 = Inr (g4\<lparr>cg_mem := dead (?L @ ?M @ ?u) (cg_mem g)\<rparr>)"
    using chain(2) by (simp add: free_str_live m4)
  have s6: "free_str (group d) (g4\<lparr>cg_mem := dead (?L @ ?M @ ?u) (cg_mem g)\<rparr>)
      = Inr (g4\<lparr>cg_mem := dead (?L @ ?M @ ?u @ ?gr) (cg_mem g)\<rparr>)"
    using chain(3) by (simp add: free_str_live)
  have s7: "free_str (directory d) (g4\<lparr>cg_mem := dead (?L @ ?M @ ?u @ ?gr) (cg_mem g)\<rparr>)
      = Inr (g4\<lparr>cg_mem := dead (?L @ ?M @ ?u @ ?gr @ ?d) (cg_mem g)\<rparr>)"
    using chain(4) by (simp add: free_str_live)
  have s8: "free_struct q (g4\<lparr>cg_mem := dead (?L @ ?M @ ?u @ ?gr @ ?d) (cg_mem g)\<rparr>)
      = Inr (g4\<lparr>cg_mem := dead (dealloc_addrs g c q d) (cg_mem g)\<rparr>)"
    using chain(5) by (simp add: free_struct_live dealloc_addrs_def)
  from ll have "q \<noteq> NULL" by simp
  with nn c d' show ?thesis
    unfolding DeallocateConfig_def
    by (simp add: at_def s1 s2 s3 s4 s5 s6 s7 s8 g4_def [symmetric] del: dead_simps)
       (simp add: g4_def g3_def g2_def g1_def)
qed


lemma mset_listens_own: "mset (listens_own g ls) = mset (concat (map (listen_addrs g) ls)) + mset ls"
  by (induction ls) (simp_all add: listens_own_def)

lemma dealloc_own: "mset (dealloc_addrs g c p c) \<subseteq># mset (own g p c)"
  by (simp add: dealloc_addrs_def own_def conf_addrs_def mset_listens_own)

lemma live_own:
  assumes "conf_wf lo g p" "confs g p = Some c" "stores_wf g"
  shows "live (own g p c) (cg_mem g)" "distinct (own g p c)"
  using assms heap_wf_live [of "cg_mem g"] by (fastforce simp: conf_wf_def live_def stores_wf_def)+

text \<open>The last thing the program does: nothing is freed twice.\<close>

lemma DeallocateConfig_in_force:
  assumes "config_inv lo g" "gconfig g \<noteq> NULL"
  shows "\<exists>g'. DeallocateConfig (gconfig g) g = Inr g' \<and> gconfig g' = gconfig g
    \<and> confs g' (gconfig g) = None"
proof -
  from assms obtain c where c: "confs g (gconfig g) = Some c" "conf_wf lo g (gconfig g)" "stores_wf g"
    "\<forall>l \<in> set (listenblocks c). listens g l \<noteq> None" "\<forall>m \<in> set (moduleblocks c). cmods g m \<noteq> None"
    by (elim config_invE)
  note own = live_own [OF c(2,1,3)]
  have "distinct (dealloc_addrs g c (gconfig g) c)"
    by (rule distinct_mset_le [OF dealloc_own own(2)])
  moreover have "live (dealloc_addrs g c (gconfig g) c) (cg_mem g)"
    using own(1) set_mset_mono [OF dealloc_own [of g c "gconfig g"]] by (auto simp: live_def)
  moreover have "\<forall>m \<in> set (moduleblocks c). m \<noteq> NULL"
    using own(1) by (auto simp: live_def own_def)
  ultimately show ?thesis
    using DeallocateConfig_run [OF assms(2) c(1,1)] c(4,5) by simp
qed

lemma DeallocateConfig_other:
  assumes inv: "config_inv lo g" "gconfig g \<noteq> NULL"
    and q: "confs g q = Some d" "q \<noteq> NULL" "q < lo"
    and d: "\<forall>a \<in> set (q # conf_addrs d). a < lo \<and> blocks (cg_mem g) a \<noteq> None" "distinct (q # conf_addrs d)"
  shows "\<exists>g' c. DeallocateConfig q g = Inr g' \<and> gconfig g' = gconfig g \<and> confs g' q = None
    \<and> config_inv lo g' \<and> abs_config g' = map_option (\<lambda>v. v\<lparr>a_listens := [], a_modules := []\<rparr>) (abs_config g)"
proof -
  let ?p = "gconfig g"
  from inv obtain c where c: "confs g ?p = Some c" "conf_wf lo g ?p" "stores_wf g"
    "\<forall>l \<in> set (listenblocks c). listens g l \<noteq> None" "\<forall>m \<in> set (moduleblocks c). cmods g m \<noteq> None"
    by (elim config_invE)
  note own = live_own [OF c(2,1,3)]
  let ?F = "dealloc_addrs g c q d" and ?c = "c\<lparr>listenblocks := [], moduleblocks := []\<rparr>"
  define G where "G = listens_own g (listenblocks c) @ concat (map (cmod_addrs g) (moduleblocks c))"
  define D where "D = str_addrs (user d) @ str_addrs (group d) @ str_addrs (directory d) @ [q]"
  have F: "?F = G @ D" by (simp add: dealloc_addrs_def G_def D_def)
  have m: "mset (G @ ?p # conf_addrs c) \<subseteq># mset (own g ?p c)"
    by (simp add: own_def mset_listens_own G_def)
  have "distinct (G @ ?p # conf_addrs c)"
    by (rule distinct_mset_le [OF m own(2)])
  then have G: "distinct G" "set G \<inter> set (?p # conf_addrs c) = {}" "distinct (?p # conf_addrs c)"
    unfolding distinct_append by blast+
  have sub: "set G \<subseteq> set (own g ?p c)" "set (?p # conf_addrs c) \<subseteq> set (own g ?p c)"
    using set_mset_mono [OF m] by auto
  have lo: "\<forall>a \<in> set (own g ?p c). lo \<le> a"
    using c(1,2) by (simp add: conf_wf_def)
  have D: "set D \<subseteq> set (q # conf_addrs d)" "distinct D"
    using d(2) by (auto simp: conf_addrs_def D_def)
  have disj: "set (own g ?p c) \<inter> set D = {}"
    using lo D(1) d(1) by (meson disjoint_iff leD subsetD)
  have "distinct ?F"
    using G(1) D(2) disj sub(1) unfolding F by auto
  moreover have "live ?F (cg_mem g)"
    using own(1) sub(1) D(1) d(1) c(3) unfolding F live_def
    by (auto simp: stores_wf_def heap_wf_def)
  moreover have "\<forall>m \<in> set (moduleblocks c). m \<noteq> NULL"
    using own(1) by (auto simp: live_def own_def)
  ultimately have run: "DeallocateConfig q g = Inr (g\<lparr>cg_mem := dead ?F (cg_mem g),
    listens := listens g |` (- set (listenblocks c)), confs := (confs g)(?p \<mapsto> ?c, q := None)\<rparr>)"
    (is "_ = Inr ?g")
    using DeallocateConfig_run [OF inv(2) c(1) q(1)] c(4,5) by simp
  have pq: "?p \<noteq> q"
    using lo q(3) by (auto simp: own_def)
  have "own ?g ?p ?c = ?p # conf_addrs c"
    by (simp add: own_def conf_addrs_def)
  moreover have "\<forall>a \<in> set (?p # conf_addrs c). lo \<le> a \<and> blocks (cg_mem ?g) a \<noteq> None"
  proof
    fix a assume a: "a \<in> set (?p # conf_addrs c)"
    then have "a \<in> set (own g ?p c)" "a \<notin> set ?F"
      using sub(2) G(2) disj unfolding F by auto
    with own(1) lo show "lo \<le> a \<and> blocks (cg_mem ?g) a \<noteq> None"
      by (simp add: live_def)
  qed
  ultimately have "conf_wf lo ?g ?p"
    using inv(2) pq G(3) by (simp add: conf_wf_def)
  moreover have "stores_wf ?g"
    using c(1,3) by (auto simp: stores_wf_def restrict_map_def)
  ultimately show ?thesis
    using run c(1) inv(2) pq by (simp add: config_inv_def abs_config_def abs_conf_def)
qed

section \<open>Reading the configuration again\<close>

text \<open>The case \<open>SIGHUP\<close> of \<open>SignalHandler\<close>, src/src/signalhandler.c.\<close>

definition rehash :: "string \<Rightarrow> nat \<times> filesys \<Rightarrow> cfgs \<Rightarrow> fault + (nat \<times> filesys) \<times> cfgs" where
  "rehash configfile st g =
     (let oldconf = gconfig g in
      and_then (ParseConfig configfile st g) (\<lambda>(r, st', g').
        if r = 1 then Inr (st', g')
        else and_then (DeallocateConfig oldconf g') (\<lambda>g''. Inr (st', g''))))"

lemma act_same_config:
  assumes "act a g = Inr g'" "a \<noteq> Server_entry" "gconfig g \<noteq> NULL"
  shows "gconfig g' = gconfig g"
  using assms
  by (cases a) (auto simp: and_then_eq_Inr dup_def set_str_def on_config_def on_listen_def on_module_def
      listen_entry_def module_entry_def Let_def at_def split: prod.splits if_splits option.splits)

lemma acts_same_config:
  assumes "fold_res act as g = Inr g'" "Server_entry \<notin> set as" "gconfig g \<noteq> NULL"
  shows "gconfig g' = gconfig g"
  using assms by (induction as arbitrary: g) (auto simp: and_then_eq_Inr dest: act_same_config)


lemma grouped_split:
  "grouped b (pre @ a # post) \<Longrightarrow> grouped b pre \<and> grouped (Some (kind_of a)) post"
  by (induction pre arbitrary: b) auto

lemma spec_act_Some: "\<exists>y. spec_act a (Some x) = Some y"
  by (cases a) auto

lemma fold_spec_Some: "\<exists>y. fold spec_act as (Some x) = Some y"
proof (induction as arbitrary: x)
  case (Cons a as)
  then show ?case using spec_act_Some [of a x] by auto
qed simp

text \<open>
  Once a server block is read, the new configuration shares nothing with the old one, and
  the old one is as it was.
\<close>

lemma acts_after_server:
  assumes inv: "config_inv 0 g" "mem_ok (cg_mem g)" and old: "gconfig g \<noteq> NULL"
    and as: "grouped None as" "Server_entry \<in> set as"
  obtains lo g' d where "fold_res act as g = Inr g'" "config_inv lo g'" "gconfig g' \<noteq> NULL"
    "abs_config g' = fold spec_act as (abs_config g)"
    "confs g' (gconfig g) = Some d" "distinct (gconfig g # conf_addrs d)"
    "\<forall>a \<in> set (gconfig g # conf_addrs d). a < lo \<and> blocks (cg_mem g') a \<noteq> None"
proof -
  let ?q = "gconfig g"
  obtain pre post where split: "as = pre @ Server_entry # post" "Server_entry \<notin> set pre"
    using split_list_first [OF as(2)] by blast
  then have gr: "grouped None pre" "grouped (Some Server_entry) post"
    using grouped_split [of None pre Server_entry post] as(1) by auto
  obtain g1 where g1: "fold_res act pre g = Inr g1" "config_inv 0 g1" "old_kept 0 g g1"
      "abs_config g1 = fold spec_act pre (abs_config g)"
    using act_fold [OF inv _ gr(1)] by auto
  have q1: "gconfig g1 = ?q"
    by (rule acts_same_config [OF g1(1) split(2) old])
  then obtain d where d: "confs g1 ?q = Some d" "conf_wf 0 g1 ?q" "stores_wf g1"
    using g1(2) old by (metis config_invE)
  let ?lo = "brk (cg_mem g1)"
  have m1: "mem_ok (cg_mem g1)"
    using g1(3) inv(2) by (simp add: old_kept_def mem_ok_def)
  obtain g2 where g2: "new_config 1 g1 = Inr g2" "config_inv ?lo g2" "old_kept ?lo g1 g2"
      "gconfig g2 \<noteq> NULL" "abs_config g2 = Some (default_config 1)" "mem_ok (cg_mem g2)"
    using new_config_ok [OF d(3) m1 order_refl, of 1] by blast
  have "?lo \<le> brk (cg_mem g2)"
    using g2(3) by (simp add: old_kept_def)
  from act_fold [OF g2(2,6) this gr(2)] g2(4) obtain g3 where g3: "fold_res act post g2 = Inr g3"
      "config_inv ?lo g3" "old_kept ?lo g2 g3" "abs_config g3 = fold spec_act post (abs_config g2)"
    by auto
  have abs3: "abs_config g3 = fold spec_act as (abs_config g)"
    by (simp add: split(1) g3(4) g2(5))
  have kept: "old_kept ?lo g1 g3"
    using g2(3) g3(3) by (rule old_kept_trans)
  have own: "distinct (?q # conf_addrs d)" "\<forall>a \<in> set (?q # conf_addrs d). blocks (cg_mem g1) a \<noteq> None"
    using d by (auto simp: conf_wf_def own_def)
  then have below: "\<forall>a \<in> set (?q # conf_addrs d). a < ?lo"
    using d(3) by (auto simp: stores_wf_def heap_wf_def)
  have "gconfig g3 \<noteq> NULL"
    using fold_spec_Some [of post "default_config 1"] g3(4) g2(5)
    by (auto simp: abs_config_def split: if_splits)
  show thesis
  proof (rule that)
    show "fold_res act as g = Inr g3"
      by (simp add: split(1) g1(1) g2(1) g3(1) server_entry_def)
  qed (use g3(2) abs3 kept d(1) own below \<open>gconfig g3 \<noteq> NULL\<close> in \<open>auto simp: old_kept_def\<close>)
qed


lemma rehash_replaces:
  assumes fs: "fs_wf fs" "nodes fs file = Some (Reg s)" "r_perm fs file = 0"
    and inv: "config_inv 0 g" "mem_ok (cg_mem g)" and old: "gconfig g \<noteq> NULL"
    and parse: "yyparse (lex s) = (as, True)" "Server_entry \<in> set as"
    and v: "spec_check (fold spec_act as (abs_config g)) = (0, Some v)"
  shows "\<exists>fs' g'. rehash file (e, fs) g = Inr ((e, fs'), g') \<and> config_inv 0 g'
    \<and> gconfig g' \<noteq> NULL \<and> gconfig g' \<noteq> gconfig g \<and> confs g' (gconfig g) = None
    \<and> abs_config g' = Some (v\<lparr>a_listens := [], a_modules := []\<rparr>)"
proof -
  let ?q = "gconfig g"
  have gr: "grouped None as" using grouped_yyparse [of "lex s"] parse(1) by simp
  obtain lo g1 d where
    g1: "fold_res act as g = Inr g1" "config_inv lo g1" "gconfig g1 \<noteq> NULL"
      "abs_config g1 = fold spec_act as (abs_config g)"
    and d: "confs g1 ?q = Some d" "distinct (?q # conf_addrs d)"
      "\<forall>a \<in> set (?q # conf_addrs d). a < lo \<and> blocks (cg_mem g1) a \<noteq> None"
    by (rule acts_after_server [OF inv old gr parse(2)])
  from check_config_ok [OF g1(2)] obtain r g2 where g2: "check_config g1 = Inr (r, g2)"
      "config_inv lo g2" "old_kept lo g1 g2" "gconfig g2 = gconfig g1" "cg_mem g2 = cg_mem g1"
      "(r, abs_config g2) = spec_check (abs_config g1)" by blast
  from g2(6) have "(r, abs_config g2) = (0, Some v)"
    unfolding g1(4) v .
  then have r: "r = 0" "abs_config g2 = Some v" by simp_all
  have d2: "confs g2 ?q = Some d" "?q < lo"
    using d g2(3) by (auto simp: old_kept_def)
  have g2n: "gconfig g2 \<noteq> NULL" using g1(3) g2(4) by simp
  from DeallocateConfig_other [OF g2(2) g2n d2(1) old d2(2) _ d(2)] d(3) g2(5) obtain g3 where
    g3: "DeallocateConfig ?q g2 = Inr g3" "gconfig g3 = gconfig g2" "confs g3 ?q = None"
      "config_inv lo g3" "abs_config g3 = Some (v\<lparr>a_listens := [], a_modules := []\<rparr>)"
    using r(2) by auto
  have "config_inv 0 g3"
    using g3(4) by (auto simp: config_inv_def conf_wf_def split: option.splits)
  moreover have "gconfig g2 \<noteq> ?q"
    using g2(2) g2n d2(2) by (auto simp: config_inv_def conf_wf_def own_def split: option.splits)
  moreover have "parse_text s g = Inr g1"
    using g1(1) parse(1) by (simp add: parse_text_def)
  ultimately show ?thesis
    using g2(1) r(1) g3 g2n by (simp add: rehash_def Let_def ParseConfig_read [OF fs])
qed

lemma rehash_dangling:
  assumes fs: "fs_wf fs" "nodes fs file = Some (Reg s)" "r_perm fs file = 0"
    and inv: "config_inv 0 g" "mem_ok (cg_mem g)" and old: "gconfig g \<noteq> NULL"
    and dir: "a_directory (the (abs_config g)) \<noteq> None"
    and parse: "yyparse (lex s) = (as, True)" "Server_entry \<notin> set as"
  shows "\<exists>fs' g'. rehash file (e, fs) g = Inr ((e, fs'), g') \<and> gconfig g' = gconfig g
    \<and> confs g' (gconfig g') = None"
proof -
  obtain g1 where g1: "fold_res act as g = Inr g1" "config_inv 0 g1"
      "abs_config g1 = fold spec_act as (abs_config g)"
    using act_fold [OF inv, of None as] grouped_yyparse [of "lex s"] parse(1) by auto
  have q: "gconfig g1 = gconfig g"
    by (rule acts_same_config [OF g1(1) parse(2) old])
  have "\<exists>c. fold spec_act as (Some x) = Some c \<and> (a_directory x \<noteq> None \<longrightarrow> a_directory c \<noteq> None)" for x
    using parse(2)
  proof (induction as arbitrary: x)
    case (Cons a as)
    obtain y where y: "spec_act a (Some x) = Some y" "a_directory x \<noteq> None \<longrightarrow> a_directory y \<noteq> None"
      using Cons.prems by (cases a) auto
    with Cons.IH [of y] Cons.prems show ?case by auto
  qed simp
  moreover obtain x where "abs_config g = Some x"
    using inv(1) old by (auto simp: abs_config_def config_inv_def conf_wf_def split: option.splits)
  ultimately obtain c where c: "abs_config g1 = Some c" "a_directory c \<noteq> None"
    using g1(3) dir by auto
  from check_config_ok [OF g1(2)] obtain r g2 where g2: "check_config g1 = Inr (r, g2)"
      "config_inv 0 g2" "gconfig g2 = gconfig g1" "(r, abs_config g2) = spec_check (abs_config g1)"
    by blast
  with c have "r = 0" by (auto simp: spec_check_def split: if_splits)
  moreover obtain g3 where "DeallocateConfig (gconfig g) g2 = Inr g3" "gconfig g3 = gconfig g2"
      "confs g3 (gconfig g2) = None"
    using DeallocateConfig_in_force [OF g2(2)] g2(3) q old by auto
  moreover have "parse_text s g = Inr g1"
    using g1(1) parse(1) by (simp add: parse_text_def)
  ultimately show ?thesis
    using g2(1,3) q by (simp add: rehash_def Let_def ParseConfig_read [OF fs])
qed

end
