(* ===== verification/Commandline.thy ===== *)
theory Commandline
  imports Text Memory
begin

text \<open>
  The command line, src/src/commandline.c. \<open>LICENSE\<close> is the text of the generated header
  LICENSE.h. The functions that print end the program; what they print is left out, what
  they do to memory is not.
\<close>

section \<open>The functions that print\<close>

definition PrintHelp :: "fault + 'a" where
  "PrintHelp = Inl Exit_failure"

text \<open>
  The copy of the license and the two writes: the text, and a zero byte at the index behind
  the one it would have to be at.
\<close>

definition license_copy :: "byte list \<Rightarrow> heap \<Rightarrow> fault + heap" where
  "license_copy LICENSE h =
     and_then (nmalloc (length LICENSE + 1) h) (\<lambda>(str, h1).
     and_then (store str 0 LICENSE h1) (\<lambda>h2.
     and_then (store str (length LICENSE + 1) [NUL] h2) (\<lambda>h3.
       free str h3)))"

definition PrintLicense :: "byte list \<Rightarrow> heap \<Rightarrow> fault + 'a" where
  "PrintLicense LICENSE h = and_then (license_copy LICENSE h) (\<lambda>_. Inl Exit_failure)"

definition PrintVersion :: "byte list \<Rightarrow> heap \<Rightarrow> fault + 'a" where
  "PrintVersion LICENSE h = and_then (license_copy LICENSE h) (\<lambda>_. Inl Exit_failure)"

section \<open>HandleArguments\<close>

text \<open>The global variables \<open>nofork\<close> and \<open>configfile\<close>, and the local \<open>wait_for_conf\<close>.\<close>

record options =
  nofork :: int
  configfile :: "string option"
  wait_for_conf :: bool

text \<open>
  One option without its dashes; \<open>short\<close> says that it had one. \<open>final\<close> says that it is the
  last argument.
\<close>

definition handle_option ::
  "byte list \<Rightarrow> heap \<Rightarrow> bool \<Rightarrow> string \<Rightarrow> bool \<Rightarrow> options \<Rightarrow> fault + options" where
  "handle_option LICENSE h short arg final st =
     (if strcasecmp arg (if short then ''h'' else ''help'') = 0 then PrintHelp
      else if strcasecmp arg (if short then ''l'' else ''license'') = 0 then PrintLicense LICENSE h
      else if strcasecmp arg (if short then ''f'' else ''nofork'') = 0 then Inr (st\<lparr>nofork := 1\<rparr>)
      else if strcasecmp arg (if short then ''v'' else ''version'') = 0 then PrintVersion LICENSE h
      else if strcasecmp arg (if short then ''c'' else ''config'') = 0 then
        (if final then Inl Exit_failure else Inr (st\<lparr>wait_for_conf := True\<rparr>))
      else PrintHelp)"

fun handle_arguments :: "byte list \<Rightarrow> heap \<Rightarrow> string list \<Rightarrow> options \<Rightarrow> fault + options" where
  "handle_arguments LICENSE h [] st = Inr st"
| "handle_arguments LICENSE h (arg # args) st =
     and_then
       (if take 2 arg = ''--'' then handle_option LICENSE h False (drop 2 arg) (args = []) st
        else if take 1 arg = ''-'' then handle_option LICENSE h True (drop 1 arg) (args = []) st
        else Inr (if wait_for_conf st then st\<lparr>configfile := Some arg\<rparr> else st))
       (handle_arguments LICENSE h args)"

definition HandleArguments ::
  "byte list \<Rightarrow> heap \<Rightarrow> string list \<Rightarrow> options \<Rightarrow> fault + options" where
  "HandleArguments LICENSE h argv st = handle_arguments LICENSE h argv (st\<lparr>wait_for_conf := False\<rparr>)"

section \<open>What it does\<close>

lemma license_copy_overflow:
  assumes "heap_wf h" "mem_ok h"
  shows "license_copy LICENSE h = Inl Out_of_bounds"
  using assms by (simp add: license_copy_def nmalloc_eq heap_wf_brk mem_ok_def store_def)

text \<open>Which arguments are the options that are not fatal, and which are names.\<close>

definition is_option :: "string \<Rightarrow> string \<Rightarrow> string \<Rightarrow> bool" where
  "is_option short long arg \<longleftrightarrow>
     (take 2 arg = ''--'' \<and> strcasecmp (drop 2 arg) long = 0)
     \<or> (take 1 arg = ''-'' \<and> take 2 arg \<noteq> ''--'' \<and> strcasecmp (drop 1 arg) short = 0)"

definition is_name :: "string \<Rightarrow> bool" where
  "is_name arg \<longleftrightarrow> take 1 arg \<noteq> ''-''"

abbreviation is_nofork :: "string \<Rightarrow> bool" where "is_nofork \<equiv> is_option ''f'' ''nofork''"
abbreviation is_config :: "string \<Rightarrow> bool" where "is_config \<equiv> is_option ''c'' ''config''"

definition usable :: "string list \<Rightarrow> bool" where
  "usable args \<longleftrightarrow> (\<forall>a \<in> set args. is_name a \<or> is_nofork a \<or> is_config a)
     \<and> (args \<noteq> [] \<longrightarrow> \<not> is_config (last args))"

text \<open>The names behind the first \<open>-c\<close>: the last of them is the configuration file.\<close>

definition config_names :: "bool \<Rightarrow> string list \<Rightarrow> string list" where
  "config_names wait args =
     filter is_name (if wait then args else dropWhile (\<lambda>a. \<not> is_config a) args)"

lemma lower_words:
  "map lower ''help'' = ''help''" "map lower ''license'' = ''license''" "map lower ''nofork'' = ''nofork''"
  "map lower ''version'' = ''version''" "map lower ''config'' = ''config''"
  "map lower ''h'' = ''h''" "map lower ''l'' = ''l''" "map lower ''f'' = ''f''"
  "map lower ''v'' = ''v''" "map lower ''c'' = ''c''"
  by code_simp+

lemma option_word:
  "cstring s \<Longrightarrow> cstring t \<Longrightarrow> map lower t = t \<Longrightarrow> strcasecmp s t = 0 \<longleftrightarrow> map lower s = t"
  by (simp add: strcasecmp_0_iff)

lemma option_words:
  assumes "cstring s"
  shows "strcasecmp s ''help'' = 0 \<longleftrightarrow> map lower s = ''help''"
    "strcasecmp s ''license'' = 0 \<longleftrightarrow> map lower s = ''license''"
    "strcasecmp s ''nofork'' = 0 \<longleftrightarrow> map lower s = ''nofork''"
    "strcasecmp s ''version'' = 0 \<longleftrightarrow> map lower s = ''version''"
    "strcasecmp s ''config'' = 0 \<longleftrightarrow> map lower s = ''config''"
    "strcasecmp s ''h'' = 0 \<longleftrightarrow> map lower s = ''h''" "strcasecmp s ''l'' = 0 \<longleftrightarrow> map lower s = ''l''"
    "strcasecmp s ''f'' = 0 \<longleftrightarrow> map lower s = ''f''" "strcasecmp s ''v'' = 0 \<longleftrightarrow> map lower s = ''v''"
    "strcasecmp s ''c'' = 0 \<longleftrightarrow> map lower s = ''c''"
  by (rule option_word [OF assms], simp, rule lower_words)+

lemma cstring_drop: "cstring s \<Longrightarrow> cstring (drop n s)"
  by (auto simp: cstring_def dest: in_set_dropD)

lemma take_1_of_2: "take 2 arg = ''--'' \<Longrightarrow> take 1 arg = ''-''"
  by (cases arg) auto

text \<open>The three kinds of arguments that do not end the program.\<close>

lemma handle_option_ok:
  assumes "cstring s"
  shows "strcasecmp s (if short then ''f'' else ''nofork'') = 0 \<Longrightarrow>
      handle_option LICENSE h short s final st = Inr (st\<lparr>nofork := 1\<rparr>)"
    "strcasecmp s (if short then ''c'' else ''config'') = 0 \<Longrightarrow>
      handle_option LICENSE h short s False st = Inr (st\<lparr>wait_for_conf := True\<rparr>)"
  using assms by (cases short; simp add: handle_option_def option_words)+

lemma handle_nofork:
  assumes "cstring a" "is_nofork a"
  shows "handle_arguments LICENSE h (a # args) st = handle_arguments LICENSE h args (st\<lparr>nofork := 1\<rparr>)"
proof (cases "take 2 a = ''--''")
  case True
  with assms handle_option_ok(1) [OF cstring_drop [OF assms(1)], of 2 False] show ?thesis
    by (simp add: is_option_def)
next
  case False
  with assms handle_option_ok(1) [OF cstring_drop [OF assms(1)], of 1 True] show ?thesis
    by (simp add: is_option_def)
qed

lemma handle_config:
  assumes "cstring a" "is_config a" "args \<noteq> []"
  shows "handle_arguments LICENSE h (a # args) st = handle_arguments LICENSE h args (st\<lparr>wait_for_conf := True\<rparr>)"
proof (cases "take 2 a = ''--''")
  case True
  with assms handle_option_ok(2) [OF cstring_drop [OF assms(1)], of 2 False] show ?thesis
    by (simp add: is_option_def)
next
  case False
  with assms handle_option_ok(2) [OF cstring_drop [OF assms(1)], of 1 True] show ?thesis
    by (simp add: is_option_def)
qed

lemma handle_name:
  assumes "is_name a"
  shows "handle_arguments LICENSE h (a # args) st = handle_arguments LICENSE h args
    (if wait_for_conf st then st\<lparr>configfile := Some a\<rparr> else st)"
  using assms take_1_of_2 [of a] by (auto simp: is_name_def)

lemma names_apart: "is_name a \<Longrightarrow> \<not> is_option s l a"
  using take_1_of_2 [of a] by (auto simp: is_name_def is_option_def)

lemma nofork_not_config: "cstring a \<Longrightarrow> is_nofork a \<Longrightarrow> \<not> is_config a"
  using cstring_drop [of a] by (auto simp: is_option_def option_words)

lemma usable_Cons: "usable (a # args) \<Longrightarrow>
    usable args \<and> (is_name a \<or> is_nofork a \<or> is_config a \<and> args \<noteq> [])"
  by (auto simp: usable_def)

lemma handle_arguments_usable:
  assumes "usable args" "\<forall>a \<in> set args. cstring a"
  shows "\<exists>st'. handle_arguments LICENSE h args st = Inr st'
    \<and> nofork st' = (if \<exists>a \<in> set args. is_nofork a then 1 else nofork st)
    \<and> configfile st' = (case rev (config_names (wait_for_conf st) args) of
          [] \<Rightarrow> configfile st | n # _ \<Rightarrow> Some n)"
  using assms
proof (induction args arbitrary: st)
  case Nil
  then show ?case by (simp add: config_names_def)
next
  case (Cons a args)
  from usable_Cons [OF Cons.prems(1)] have us: "usable args"
    and kinds: "is_name a \<or> is_nofork a \<or> is_config a \<and> args \<noteq> []" by simp_all
  note IH = Cons.IH [OF us]
  have cs: "cstring a" "\<forall>a \<in> set args. cstring a" using Cons.prems(2) by simp_all
  consider (name) "is_name a" | (nf) "is_nofork a" | (conf) "is_config a" "args \<noteq> []"
    using kinds by blast
  then show ?case
  proof cases
    case name
    let ?st = "if wait_for_conf st then st\<lparr>configfile := Some a\<rparr> else st"
    have rw: "rev (config_names (wait_for_conf st) (a # args))
        = rev (config_names (wait_for_conf st) args) @ (if wait_for_conf st then [a] else [])"
      using name names_apart [OF name] by (simp add: config_names_def)
    show ?thesis
      using IH [OF cs(2), of ?st] name names_apart [OF name, of "''f''" "''nofork''"]
      unfolding handle_name [OF name] rw
      by (cases "rev (config_names (wait_for_conf st) args)") auto
  next
    case nf
    have "\<not> is_name a" "\<not> is_config a"
      using nf names_apart nofork_not_config [OF cs(1)] by blast+
    then have "config_names (wait_for_conf st) (a # args) = config_names (wait_for_conf st) args"
      by (simp add: config_names_def)
    with IH [OF cs(2), of "st\<lparr>nofork := 1\<rparr>"] nf show ?thesis
      unfolding handle_nofork [OF cs(1) nf] by (auto split: list.splits)
  next
    case conf
    have "\<not> is_name a" "\<not> is_nofork a"
      using conf(1) names_apart nofork_not_config [OF cs(1)] by blast+
    then have "config_names (wait_for_conf st) (a # args) = config_names True args"
      using conf(1) by (simp add: config_names_def)
    with IH [OF cs(2), of "st\<lparr>wait_for_conf := True\<rparr>"] conf \<open>\<not> is_nofork a\<close> show ?thesis
      unfolding handle_config [OF cs(1) conf] by (auto split: list.splits)
  qed
qed

end
