(* ===== verification/Startup.thy ===== *)
theory Startup
  imports Server Config_Life Commandline
begin

text \<open>
  The process around the main loop: identity and terminal (src/src/misc.c), the pid file and
  \<open>main\<close> (src/src/main.c), the listening sockets (src/src/socket.c), the ownership of the pid
  file (src/src/filesystem.c) and the signals (src/src/signalhandler.c). What the kernel and
  the C library answer is the argument \<open>system\<close>.
\<close>

section \<open>The system\<close>

text \<open>The user and group ids of the process.\<close>

record creds =
  ruid :: nat
  euid :: nat
  suid :: nat
  rgid :: nat
  egid :: nat
  sgid :: nat

text \<open>
  \<open>setuid\<close> and \<open>setgid\<close> of POSIX: a process whose effective user is 0 sets all three ids, any
  other only the effective one, and only to its real or saved id.
\<close>

definition setuid :: "nat \<Rightarrow> creds \<Rightarrow> int \<times> creds" where
  "setuid u c =
     (if euid c = 0 then (0, c\<lparr>ruid := u, euid := u, suid := u\<rparr>)
      else if u = ruid c \<or> u = suid c then (0, c\<lparr>euid := u\<rparr>)
      else (- 1, c))"

definition setgid :: "nat \<Rightarrow> creds \<Rightarrow> int \<times> creds" where
  "setgid g c =
     (if euid c = 0 then (0, c\<lparr>rgid := g, egid := g, sgid := g\<rparr>)
      else if g = rgid c \<or> g = sgid c then (0, c\<lparr>egid := g\<rparr>)
      else (- 1, c))"

text \<open>
  \<open>s_perms\<close> are the permissions a process with given ids has (reading, writing, creating; the
  error number, 0 where it is allowed). \<open>s_socket k\<close> is what the call number \<open>k\<close> of
  \<open>socket\<close> returns.
\<close>

record system =
  getpwnam :: "string \<Rightarrow> (nat \<times> nat) option"
  getgrnam :: "string \<Rightarrow> nat option"
  s_perms :: "creds \<Rightarrow> (string \<Rightarrow> nat) \<times> (string \<Rightarrow> nat) \<times> (string \<Rightarrow> nat)"
  chown_ok :: "string \<Rightarrow> bool"
  chmod_ok :: "string \<Rightarrow> bool"
  isatty :: "nat \<Rightarrow> bool"
  s_fork :: int
  child_pid :: int
  setpgid_ok :: bool
  kill_0 :: "int \<Rightarrow> bool"
  inet_pton4 :: "string \<Rightarrow> 32 word option"
  inet_pton6 :: "string \<Rightarrow> 128 word option"
  s_socket :: "nat \<Rightarrow> int"
  nonblock_ok :: "int \<Rightarrow> bool"
  bind_ok :: "int \<Rightarrow> sockaddr \<Rightarrow> bool"
  epoll_created :: bool
  s_dlopen :: "string \<Rightarrow> image option"
  LICENSE :: "byte list"
  default_conf :: string

section \<open>The process\<close>

datatype syscall = Chown string nat nat | Chmod string nat

datatype signal = SIGHUP | SIGSEGV | SIGTERM | SIGINT | SIGPIPE | Other_signal int

text \<open>
  The state of the server and of its configuration share one heap, that of the world;
  \<open>with_config\<close> runs a function of theory Config on it. The part of the configuration the
  request handlers read is copied to the world where it changes.
\<close>

record proc =
  p_world :: world
  p_cfgs :: cfgs
  p_opts :: options
  p_running :: bool
  p_creds :: creds
  p_pid :: int
  p_segv :: nat
  p_nsock :: nat
  p_handled :: "signal \<Rightarrow> bool"
  p_calls :: "syscall list"

definition conf_view :: "config_t \<Rightarrow> config" where
  "conf_view c = \<lparr>cf_directory = str_val (directory c), cf_fixpath = (fixpath c \<noteq> 0),
     cf_readtimeout = sint (readtimeout c)\<rparr>"

definition put_config :: "cfgs \<Rightarrow> proc \<Rightarrow> proc" where
  "put_config g p =
     p\<lparr>p_cfgs := g,
       p_world := (p_world p)\<lparr>w_mem := cg_mem g,
         w_conf := (case confs g (gconfig g) of None \<Rightarrow> w_conf (p_world p) | Some c \<Rightarrow> conf_view c)\<rparr>\<rparr>"

definition get_config :: "proc \<Rightarrow> cfgs" where
  "get_config p = (p_cfgs p)\<lparr>cg_mem := w_mem (p_world p)\<rparr>"

text \<open>\<open>die\<close> of src/src/misc.c: whether or not there is memory for the message.\<close>

definition die :: "string \<Rightarrow> proc \<Rightarrow> fault + 'a" where
  "die msg p =
     (case malloc (2 * length msg) (w_mem (p_world p)) of (str, h) \<Rightarrow>
       if str = NULL then Inl Exit_failure
       else and_then (free str h) (\<lambda>_. Inl Exit_failure))"

section \<open>Files and identity\<close>

text \<open>\<open>unlink\<close> needs the permission that creating the file needs.\<close>

definition unlink :: "string \<Rightarrow> filesys \<Rightarrow> filesys" where
  "unlink path fs = (if c_perm fs path = 0 then fs\<lparr>nodes := (nodes fs)(path := None)\<rparr> else fs)"

text \<open>The calls \<open>SetFilePermissions\<close> makes, with what it returns.\<close>

definition SetFilePermissions ::
  "system \<Rightarrow> string \<Rightarrow> string option \<Rightarrow> string option \<Rightarrow> nat \<Rightarrow> int \<times> syscall list" where
  "SetFilePermissions sys file usr grp permissions =
     (if usr = None \<and> grp = None then (0, [])
      else
        let ids =
          (case usr of
             None \<Rightarrow> map_option (\<lambda>g. (0, g)) (getgrnam sys (the grp))
           | Some u \<Rightarrow>
               (case getpwnam sys u of
                  None \<Rightarrow> None
                | Some (uid, pgid) \<Rightarrow>
                    (case grp of
                       None \<Rightarrow> Some (uid, 0)
                     | Some g \<Rightarrow>
                         if u = g then Some (uid, pgid)
                         else map_option (\<lambda>g. (uid, g)) (getgrnam sys g))))
        in case ids of
             None \<Rightarrow> (1, [])
           | Some (uid, gid) \<Rightarrow>
               if \<not> chown_ok sys file then (1, [Chown file uid gid])
               else if \<not> chmod_ok sys file then (1, [Chown file uid gid, Chmod file permissions])
               else (0, [Chown file uid gid, Chmod file permissions]))"

text \<open>The permissions the file system grants follow the ids.\<close>

definition set_creds :: "system \<Rightarrow> creds \<Rightarrow> proc \<Rightarrow> proc" where
  "set_creds sys c p =
     (case s_perms sys c of (r, w, cr) \<Rightarrow>
       p\<lparr>p_creds := c,
         p_world := (p_world p)\<lparr>w_fs := (w_fs (p_world p))\<lparr>r_perm := r, w_perm := w, c_perm := cr\<rparr>\<rparr>\<rparr>)"

text \<open>The check of the directory at the end of \<open>SwitchUserAndGroup\<close>.\<close>

definition check_directory :: "proc \<Rightarrow> fault + int \<times> proc" where
  "check_directory p =
     (let fs = w_fs (p_world p); g = get_config p in
      and_then (config_at (gconfig g) g) (\<lambda>c.
        case str_val (directory c) of
          None \<Rightarrow> Inl Null_deref
        | Some dir \<Rightarrow>
            Inr (if access_read dir fs \<noteq> 0 \<and> access_write dir fs \<noteq> 0 then 1 else 0, p)))"

definition SwitchUserAndGroup ::
  "system \<Rightarrow> string option \<Rightarrow> string option \<Rightarrow> proc \<Rightarrow> fault + int \<times> proc" where
  "SwitchUserAndGroup sys usr grp p =
     (if usr = None \<and> grp = None then Inr (0, p)
      else
        let switch_group = (\<lambda>p.
              (case grp of
                 None \<Rightarrow> check_directory p
               | Some g \<Rightarrow>
                   (case getgrnam sys g of
                      None \<Rightarrow> Inr (1, p)
                    | Some gid \<Rightarrow>
                        (case setgid gid (p_creds p) of (r, c) \<Rightarrow>
                          if r = - 1 then Inr (1, p) else check_directory (set_creds sys c p)))))
        in case usr of
             None \<Rightarrow> switch_group p
           | Some u \<Rightarrow>
               (case getpwnam sys u of
                  None \<Rightarrow> Inr (1, p)
                | Some (uid, pgid) \<Rightarrow>
                    (case setuid uid (p_creds p) of (r, c) \<Rightarrow>
                      if r = - 1 then Inr (1, p)
                      else let p1 = set_creds sys c p in
                        if grp = Some u then
                          (case setgid pgid c of (r2, c2) \<Rightarrow>
                            if r2 = - 1 then Inr (1, p1) else Inr (0, set_creds sys c2 p1))
                        else switch_group p1)))"

text \<open>The argument of the outer \<open>isatty\<close> is the value of the conjunction.\<close>

definition InTerm :: "system \<Rightarrow> bool" where
  "InTerm sys = isatty sys (if (1 :: nat) \<noteq> 0 \<and> isatty sys 0 \<and> isatty sys 2 then 1 else 0)"

text \<open>\<open>None\<close>: the process has ended with \<open>EXIT_SUCCESS\<close>, as the parent of the daemon does.\<close>

definition Daemonize :: "system \<Rightarrow> proc \<Rightarrow> fault + proc option" where
  "Daemonize sys p =
     (if nofork (p_opts p) = 0 \<and> InTerm sys then
        let i = s_fork sys in
        if i > 0 then Inr None
        else let p1 = (if i = 0 then p\<lparr>p_pid := child_pid sys\<rparr> else p) in
          if \<not> setpgid_ok sys then die ''Unable to setpgid()'' p1
          else if i = - 1 then die ''Unable to daemonize'' p1
          else Inr (Some p1)
      else Inr (Some p))"

section \<open>The pid file\<close>

text \<open>
  \<open>atoi\<close> on the 1024 bytes of \<open>pidstr\<close>, which the file may fill to the last one: then the
  number may not end inside the array.
\<close>

definition number_rest :: "string \<Rightarrow> string" where
  "number_rest s =
     (case dropWhile is_space s of
        [] \<Rightarrow> []
      | c # cs \<Rightarrow> dropWhile is_digit (if c = CHR ''-'' \<or> c = CHR ''+'' then cs else c # cs))"

definition atoi_buffer :: "nat \<Rightarrow> byte list \<Rightarrow> fault + int" where
  "atoi_buffer n bs =
     (if length bs = n \<and> number_rest bs = [] then Inl Out_of_bounds
      else Inr (atoi (takeWhile (\<lambda>c. c \<noteq> NUL) bs)))"

text \<open>
  The part behind the label \<open>write\<close>. 511 is the octal 0777; the result of
  \<open>SetFilePermissions\<close> is ignored.
\<close>

definition write_pid_file :: "system \<Rightarrow> string \<Rightarrow> config_t \<Rightarrow> proc \<Rightarrow> fault + proc" where
  "write_pid_file sys file c p =
     (case fopen_write file (w_errno (p_world p), w_fs (p_world p)) of (f, e, fs) \<Rightarrow>
       if f = 0 then Inr (p\<lparr>p_world := (p_world p)\<lparr>w_errno := e, w_fs := fs\<rparr>\<rparr>)
       else and_then (fwrite (dec_int (p_pid p)) f fs) (\<lambda>(n, fs1).
         and_then (fclose f fs1) (\<lambda>fs2.
           Inr (p\<lparr>p_world := (p_world p)\<lparr>w_errno := e, w_fs := fs2\<rparr>,
                  p_calls := p_calls p @ (if user c \<noteq> Null_str \<or> group c \<noteq> Null_str
                    then snd (SetFilePermissions sys file (str_val (user c)) (str_val (group c)) 511)
                    else [])\<rparr>))))"

definition WritePID :: "system \<Rightarrow> proc \<Rightarrow> fault + proc" where
  "WritePID sys p =
     (let g = get_config p in
      and_then (config_at (gconfig g) g) (\<lambda>c.
        case pid_val (pidfile c) of
          None \<Rightarrow> Inl Null_deref
        | Some file \<Rightarrow>
            (let w = p_world p in
             and_then (FileExists file (w_errno w, w_fs w)) (\<lambda>(ex, e1, fs1).
               let p1 = p\<lparr>p_world := w\<lparr>w_errno := e1, w_fs := fs1\<rparr>\<rparr> in
               if \<not> ex then write_pid_file sys file c p1
               else (case fopen_read file (e1, fs1) of (f, e2, fs2) \<Rightarrow>
                 if f = 0 then write_pid_file sys file c (p\<lparr>p_world := w\<lparr>w_errno := e2, w_fs := fs2\<rparr>\<rparr>)
                 else and_then (fread 1024 f fs2) (\<lambda>(bs, fs3).
                   and_then (fclose f fs3) (\<lambda>fs4.
                   and_then (atoi_buffer 1024 bs) (\<lambda>pid.
                     if kill_0 sys pid then die ''A nbstftp daemon is already running!'' p1
                     else write_pid_file sys file c
                            (p\<lparr>p_world := w\<lparr>w_errno := e2, w_fs := unlink file fs4\<rparr>\<rparr>)))))))))"

end
