(* ===== verification/Program.thy ===== *)
theory Program
  imports Startup
begin

text \<open>
  The listening sockets of src/src/socket.c, the signal handlers of src/src/signalhandler.c and
  \<open>main\<close> of src/src/main.c: start-up, the steps of the running process, and the cleanup.
\<close>

section \<open>Listening sockets\<close>

text \<open>The address \<open>inet_pton\<close> makes of the text, IPv6 when there is a colon in it; the rest of the structure is zero.\<close>

definition bind_sockaddr :: "system \<Rightarrow> string \<Rightarrow> 16 word \<Rightarrow> sockaddr option" where
  "bind_sockaddr sys addr port =
     (if CHR '':'' \<in> set addr then map_option (\<lambda>ip. IPv6 port 0 ip 0) (inet_pton6 sys addr)
      else map_option (IPv4 port) (inet_pton4 sys addr))"

definition set_world :: "world \<Rightarrow> proc \<Rightarrow> proc" where
  "set_world w p = p\<lparr>p_world := w\<rparr>"

definition BindToSocket :: "system \<Rightarrow> string \<Rightarrow> 16 word \<Rightarrow> proc \<Rightarrow> fault + int \<times> proc" where
  "BindToSocket sys addr port p =
     (case bind_sockaddr sys addr port of
        None \<Rightarrow> Inr (- 1, p)
      | Some saddr \<Rightarrow>
          (let fd = s_socket sys (p_nsock p);
               p1 = p\<lparr>p_nsock := Suc (p_nsock p)\<rparr>; w = p_world p in
           if fd < 0 then Inr (- 1, p1)
           else let w1 = w\<lparr>w_mux := open_fd fd (w_mux w)\<rparr> in
             if \<not> nonblock_ok sys fd \<or> \<not> bind_ok sys fd saddr
             then Inr (- 1, set_world (w1\<lparr>w_mux := close_fd fd (w_mux w1)\<rparr>) p1)
             else and_then (AddSocket fd (Some addr) saddr True w1) (\<lambda>((r, sock), w2).
               Inr (if r = - 1 then - 1 else 0, set_world w2 p1))))"

text \<open>One round of the loop of \<open>InitializeSockets\<close>, for the listen block \<open>b\<close>.\<close>

definition listen_defaults :: "listen_t \<Rightarrow> cfgs \<Rightarrow> listen_t \<times> cfgs" where
  "listen_defaults l g =
     (let l1 = (if l_port l = - 1 then l\<lparr>l_port := 69\<rparr> else l) in
      if l_bindaddr l1 = Null_str
      then (case dup ''::'' g of (s, g1) \<Rightarrow> (l1\<lparr>l_bindaddr := s\<rparr>, g1))
      else (l1, g))"

definition bind_block :: "system \<Rightarrow> addr \<Rightarrow> bool \<times> proc \<Rightarrow> fault + bool \<times> proc" where
  "bind_block sys b st =
     (case st of (bound, p) \<Rightarrow>
       let g = get_config p in
       and_then (at (listens g) NULL b) (\<lambda>l.
         case listen_defaults l g of (l1, g1) \<Rightarrow>
           let p1 = p\<lparr>p_cfgs := g1\<lparr>listens := (listens g1)(b \<mapsto> l1)\<rparr>,
                      p_world := (p_world p)\<lparr>w_mem := cg_mem g1\<rparr>\<rparr> in
           (case str_val (l_bindaddr l1) of
              None \<Rightarrow> Inl Assert_failed
            | Some a \<Rightarrow>
                and_then (BindToSocket sys a (l_port l1) p1) (\<lambda>(r, p2).
                  Inr (bound \<or> r \<noteq> - 1, p2)))))"

definition InitializeSockets :: "system \<Rightarrow> proc \<Rightarrow> fault + int \<times> proc" where
  "InitializeSockets sys p =
     (let g = get_config p; w = p_world p in
      if gconfig g = NULL then Inl Assert_failed
      else and_then (InitializeMultiplexer (epoll_created sys) (cf_readtimeout (w_conf w)) (w_mux w) (w_errno w, w_mem w))
        (\<lambda>(r, m, e, h).
          let w1 = w\<lparr>w_mux := m, w_errno := e, w_mem := h\<rparr> in
          if r = - 1 then Inr (- 1, set_world w1 p)
          else let w2 = w1\<lparr>w_socks := []\<rparr> in
            if w_errno w2 = ENOMEM then Inr (- 1, set_world w2 p)
            else and_then (config_at (gconfig g) g) (\<lambda>c.
              and_then (fold_res (bind_block sys) (listenblocks c) (False, set_world w2 p))
                (\<lambda>(bound, p3). Inr (if bound then 0 else - 1, p3)))))"

definition ShutdownSockets :: "world \<Rightarrow> fault + world" where
  "ShutdownSockets w =
     and_then (fold_res (\<lambda>s w. and_then (free (sk_bindaddr s) (w_mem w)) (\<lambda>h.
                 Inr (w\<lparr>w_mux := close_fd (sk_fd s) (w_mux w), w_mem := h\<rparr>))) (w_socks w) w)
       (\<lambda>w1. Inr (w1\<lparr>w_socks := [], w_mux := snd (ShutdownMultiplexer (w_mux w1))\<rparr>))"

section \<open>Signals\<close>

definition RegisterSignalHandlers :: "proc \<Rightarrow> proc" where
  "RegisterSignalHandlers p =
     p\<lparr>p_handled := (p_handled p)(SIGSEGV := True, SIGINT := True, SIGTERM := True,
                                 SIGHUP := True, SIGPIPE := True)\<rparr>"

definition SignalHandler :: "signal \<Rightarrow> proc \<Rightarrow> fault + proc" where
  "SignalHandler sig p =
     and_then
       (case sig of
          SIGHUP \<Rightarrow>
            (case configfile (p_opts p) of
               None \<Rightarrow> Inl Null_deref
             | Some f \<Rightarrow>
                 and_then (rehash f (w_errno (p_world p), w_fs (p_world p)) (get_config p))
                   (\<lambda>((e, fs), g).
                     Inr (put_config g (p\<lparr>p_world := (p_world p)\<lparr>w_errno := e, w_fs := fs\<rparr>\<rparr>))))
        | SIGSEGV \<Rightarrow>
            if p_segv p \<ge> 1 then Inl Exit_failure else Inr (p\<lparr>p_segv := Suc (p_segv p)\<rparr>)
        | SIGTERM \<Rightarrow> Inr (p\<lparr>p_running := False\<rparr>)
        | SIGINT \<Rightarrow> Inr (p\<lparr>p_running := False\<rparr>)
        | SIGPIPE \<Rightarrow> Inr p
        | Other_signal _ \<Rightarrow> Inr p)
       (\<lambda>p1. Inr (p1\<lparr>p_world := call_event EV_SIGNAL (p_world p1)\<rparr>))"

section \<open>main\<close>

text \<open>Where \<open>main\<close> stands after its first part.\<close>

datatype started =
    Loop proc      \<comment> \<open>before the first round of the loop\<close>
  | Cleanup proc   \<comment> \<open>at the label \<open>cleanup\<close>\<close>
  | Parent_exit    \<comment> \<open>ended in \<open>Daemonize\<close>\<close>

definition module_names :: "config_t \<Rightarrow> cfgs \<Rightarrow> (string option \<times> string option) list" where
  "module_names c g =
     map (\<lambda>m. case cmods g m of None \<Rightarrow> (None, None)
              | Some cm \<Rightarrow> (str_val (cm_name cm), str_val (cm_path cm))) (moduleblocks c)"

definition load_config :: "proc \<Rightarrow> fault + int \<times> proc" where
  "load_config p =
     and_then (ParseConfig (the (configfile (p_opts p))) (w_errno (p_world p), w_fs (p_world p)) (get_config p))
       (\<lambda>(r, (e, fs), g).
         Inr (r, put_config g (p\<lparr>p_world := (p_world p)\<lparr>w_errno := e, w_fs := fs\<rparr>\<rparr>)))"

definition load_modules :: "system \<Rightarrow> proc \<Rightarrow> fault + proc" where
  "load_modules sys p =
     (let g = get_config p; w = p_world p in
      and_then (config_at (gconfig g) g) (\<lambda>c.
        and_then (InitializeModules (s_dlopen sys) (module_names c g) (w_mem w, w_mods w))
          (\<lambda>(h, ms). Inr (set_world (w\<lparr>w_mem := h, w_mods := ms\<rparr>) p))))"

definition main_start :: "system \<Rightarrow> string list \<Rightarrow> proc \<Rightarrow> fault + started" where
  "main_start sys argv p0 =
     and_then (HandleArguments (LICENSE sys) (w_mem (p_world p0)) argv (p_opts p0)) (\<lambda>opts.
     let p1 = RegisterSignalHandlers (p0\<lparr>p_opts := opts\<rparr>);
         p2 = (if configfile opts = None then p1\<lparr>p_opts := opts\<lparr>configfile := Some (default_conf sys)\<rparr>\<rparr>
               else p1) in
     and_then (load_config p2) (\<lambda>(r, p3).
     if r \<noteq> 0 then die ''Failed to parse the config file!'' p3
     else and_then (WritePID sys p3) (\<lambda>p4.
     and_then (load_modules sys (p4\<lparr>p_world := (p_world p4)\<lparr>w_pool := []\<rparr>\<rparr>)) (\<lambda>p5.
     and_then (InitializeSockets sys p5) (\<lambda>(s, p6).
     if s = - 1 then die ''Failed to initialize and bind to the interfaces!'' p6
     else and_then (config_at (gconfig (p_cfgs p6)) (p_cfgs p6)) (\<lambda>c.
     and_then (SwitchUserAndGroup sys (str_val (user c)) (str_val (group c)) p6) (\<lambda>(u, p7).
     if u = 1 then Inr (Cleanup p7)
     else
       let nf = (if nofork (p_opts p7) = - 1 then (if daemonize c = 0 then 1 else 0)
                 else nofork (p_opts p7)) in
       and_then (Daemonize sys (p7\<lparr>p_opts := (p_opts p7)\<lparr>nofork := nf\<rparr>\<rparr>)) (\<lambda>d.
         Inr (case d of None \<Rightarrow> Parent_exit | Some p8 \<Rightarrow> Loop p8)))))))))"

text \<open>The part of \<open>main\<close> behind the label \<open>cleanup\<close>.\<close>

definition main_cleanup :: "proc \<Rightarrow> fault + proc" where
  "main_cleanup p =
     and_then (ShutdownSockets (p_world p)) (\<lambda>w1.
     and_then (DeallocateClients w1) (\<lambda>w2.
     let g = p_cfgs p in
     and_then (if gconfig g = NULL then Inr w2
               else and_then (config_at (gconfig g) g) (\<lambda>c.
                 case pid_val (pidfile c) of
                   None \<Rightarrow> Inl Null_deref
                 | Some file \<Rightarrow> Inr (w2\<lparr>w_fs := unlink file (w_fs w2)\<rparr>))) (\<lambda>w3.
     and_then (DeallocateConfig (gconfig g) (g\<lparr>cg_mem := w_mem w3\<rparr>)) (\<lambda>g'.
       Inr (p\<lparr>p_world := w3\<lparr>w_mem := cg_mem g'\<rparr>, p_cfgs := g'\<rparr>)))))"

text \<open>
  The steps of the running process: a round of the loop, what changes around it, and a
  signal that arrives between rounds. A round is a step only while the configuration
  pointer is not dangling: the handlers read the configuration through it.
\<close>

definition config_live :: "proc \<Rightarrow> bool" where
  "config_live p \<longleftrightarrow> confs (p_cfgs p) (gconfig (p_cfgs p)) \<noteq> None"

inductive pstep :: "proc \<Rightarrow> proc \<Rightarrow> bool" where
  round: "p_running p \<Longrightarrow> config_live p \<Longrightarrow> server_round evs (p_world p) = Inr w' \<Longrightarrow>
    pstep p (set_world w' p)"
| environment: "pstep p (set_world ((p_world p)\<lparr>w_now := t,
    w_net := (w_net (p_world p))\<lparr>inq := q, send_fail := sf\<rparr>\<rparr>) p)"
| signal: "p_handled p sig \<Longrightarrow> SignalHandler sig p = Inr p' \<Longrightarrow> pstep p p'"

inductive preach :: "proc \<Rightarrow> proc \<Rightarrow> bool" for p0 where
  start: "preach p0 p0"
| more: "preach p0 p \<Longrightarrow> pstep p p' \<Longrightarrow> preach p0 p'"

inductive_cases pstepE: "pstep p p'"

end
