(* ===== verification/Program_Inv.thy ===== *)
theory Program_Inv
  imports Program
begin

text \<open>
  What start-up, signals and the running process keep: the memory and the clients of the
  server, its invariant through the whole process, the sockets it listens on, its identity,
  and the pid file.
\<close>

section \<open>Frames\<close>

text \<open>What start-up and the signal handlers leave of the server's state.\<close>

definition idle :: "world \<Rightarrow> world \<Rightarrow> bool" where
  "idle w w' \<longleftrightarrow> w_pool w' = w_pool w \<and> w_clients w' = w_clients w \<and> brk (w_mem w) \<le> brk (w_mem w')"

lemma idle_refl [simp]: "idle w w"
  by (simp add: idle_def)

lemma idle_trans [trans]: "idle w w1 \<Longrightarrow> idle w1 w2 \<Longrightarrow> idle w w2"
  by (auto simp: idle_def)

lemma idle_inv: "srv_inv w \<Longrightarrow> idle w w' \<Longrightarrow> srv_inv w'"
  by (erule srv_inv_same) (simp_all add: idle_def)

lemma dup_brk: "dup s g = (p, g') \<Longrightarrow> brk (cg_mem g) \<le> brk (cg_mem g')"
  by (auto simp: dup_def split: prod.splits dest!: strdup_brk)

lemma on_config_mem: "on_config f g = Inr g' \<Longrightarrow> cg_mem g' = cg_mem g"
  by (auto simp: on_config_def and_then_eq_Inr)

lemma on_listen_mem: "on_listen f g = Inr g' \<Longrightarrow> cg_mem g' = cg_mem g"
  by (auto simp: on_listen_def and_then_eq_Inr)

lemma on_module_mem: "on_module f g = Inr g' \<Longrightarrow> cg_mem g' = cg_mem g"
  by (auto simp: on_module_def and_then_eq_Inr)

lemma new_config_brk: "new_config d g = Inr g' \<Longrightarrow> brk (cg_mem g) \<le> brk (cg_mem g')"
  by (auto simp: new_config_def and_then_eq_Inr dest!: nmalloc_brk)

lemma set_str_brk: "set_str upd r s g = Inr g' \<Longrightarrow> brk (cg_mem g) \<le> brk (cg_mem g')"
  by (auto simp: set_str_def and_then_eq_Inr split: prod.splits if_splits dest!: dup_brk on_config_mem)

lemma entry_brk:
  assumes "and_then (if b then new_config d g1 else Inr g1) (\<lambda>g2. and_then (F g2) (\<lambda>c.
      and_then (list_push x (xs c, cg_mem g2)) (\<lambda>(ys, h2). on_config (U ys) (g2\<lparr>cg_mem := h2\<rparr>)))) = Inr g'"
  shows "brk (cg_mem g1) \<le> brk (cg_mem g')"
proof -
  from assms obtain g2 c ys h2 where
    "(if b then new_config d g1 else Inr g1) = Inr g2" "list_push x (xs c, cg_mem g2) = Inr (ys, h2)"
    "on_config (U ys) (g2\<lparr>cg_mem := h2\<rparr>) = Inr g'"
    by (auto simp: and_then_eq_Inr simp del: and_then_if)
  then have "brk (cg_mem g1) \<le> brk (cg_mem g2)" "brk h2 = Suc (brk (cg_mem g2))" "cg_mem g' = h2"
    by (auto split: if_splits dest: new_config_brk list_push_extends on_config_mem)
  then show ?thesis by simp
qed

lemma listen_entry_brk: "listen_entry g = Inr g' \<Longrightarrow> brk (cg_mem g) \<le> brk (cg_mem g')"
  unfolding listen_entry_def Let_def
  by (auto simp: and_then_eq_Inr [of "nmalloc _ _"] simp del: and_then_if dest!: entry_brk nmalloc_brk)

lemma module_entry_brk: "module_entry g = Inr g' \<Longrightarrow> brk (cg_mem g) \<le> brk (cg_mem g')"
  unfolding module_entry_def Let_def
  by (auto simp: and_then_eq_Inr [of "nmalloc _ _"] simp del: and_then_if dest!: entry_brk nmalloc_brk)

lemma act_brk: "act a g = Inr g' \<Longrightarrow> brk (cg_mem g) \<le> brk (cg_mem g')"
  by (cases a)
    (auto simp: server_entry_def and_then_eq_Inr split: prod.splits if_splits
      dest: new_config_brk set_str_brk on_config_mem listen_entry_brk module_entry_brk
      dest!: dup_brk on_listen_mem on_module_mem)

lemma acts_brk: "fold_res act as g = Inr g' \<Longrightarrow> brk (cg_mem g) \<le> brk (cg_mem g')"
  by (induction as arbitrary: g) (auto simp: and_then_eq_Inr dest!: act_brk intro: le_trans)

lemma check_config_mem: "check_config g = Inr (r, g') \<Longrightarrow> cg_mem g' = cg_mem g"
  by (auto simp: check_config_def and_then_eq_Inr split: if_splits dest!: on_config_mem)

lemma parse_text_brk: "parse_text s g = Inr g' \<Longrightarrow> brk (cg_mem g) \<le> brk (cg_mem g')"
  by (cases "yyparse (lex s)") (auto simp: parse_text_def and_then_eq_Inr split: if_splits dest!: acts_brk)

lemma ParseConfig_brk:
  "ParseConfig f st g = Inr (r, st', g') \<Longrightarrow> brk (cg_mem g) \<le> brk (cg_mem g')"
  by (auto simp: ParseConfig_def and_then_eq_Inr split: prod.splits if_splits
      dest!: parse_text_brk check_config_mem)

lemma free_brk: "free p h = Inr h' \<Longrightarrow> brk h' = brk h"
  by (auto simp: free_def split: if_splits)

lemma free_str_brk: "free_str s g = Inr g' \<Longrightarrow> brk (cg_mem g') = brk (cg_mem g)"
  by (auto simp: free_str_def and_then_eq_Inr split: cstr.splits dest!: free_brk)

lemma free_struct_brk: "free_struct p g = Inr g' \<Longrightarrow> brk (cg_mem g') = brk (cg_mem g)"
  by (auto simp: free_struct_def and_then_eq_Inr dest!: free_brk)

lemma fold_brk:
  assumes "\<And>x g g'. F x g = Inr g' \<Longrightarrow> brk (cg_mem g') = brk (cg_mem g)"
  shows "fold_res F xs g = Inr g' \<Longrightarrow> brk (cg_mem g') = brk (cg_mem g)"
  by (induction xs arbitrary: g) (auto simp: and_then_eq_Inr dest!: assms)

lemma free_listen_brk: "free_listen l g = Inr g' \<Longrightarrow> brk (cg_mem g') = brk (cg_mem g)"
  by (auto simp: free_listen_def and_then_eq_Inr dest!: free_str_brk free_struct_brk)

lemma free_cmod_brk: "free_cmod l g = Inr g' \<Longrightarrow> brk (cg_mem g') = brk (cg_mem g)"
  by (auto simp: free_cmod_def and_then_eq_Inr dest!: free_str_brk)

lemma fold_free_brk:
  "fold_res free_listen xs g = Inr g' \<Longrightarrow> brk (cg_mem g') = brk (cg_mem g)"
  "fold_res free_cmod xs g = Inr g' \<Longrightarrow> brk (cg_mem g') = brk (cg_mem g)"
  by (erule fold_brk [rotated], erule free_listen_brk) (erule fold_brk [rotated], erule free_cmod_brk)

lemma DeallocateConfig_brk: "DeallocateConfig q g = Inr g' \<Longrightarrow> brk (cg_mem g') = brk (cg_mem g)"
  by (auto simp: DeallocateConfig_def and_then_eq_Inr split: if_splits
      dest!: free_str_brk free_struct_brk fold_free_brk on_config_mem)

lemma rehash_brk: "rehash f st g = Inr (st', g') \<Longrightarrow> brk (cg_mem g) \<le> brk (cg_mem g')"
  by (auto simp: rehash_def Let_def and_then_eq_Inr split: if_splits
      dest!: ParseConfig_brk DeallocateConfig_brk)

section \<open>The running process\<close>

lemma SignalHandler_idle:
  assumes "SignalHandler sig p = Inr p'"
  shows "idle (p_world p) (p_world p')"
  using assms
  by (cases sig)
    (auto simp: SignalHandler_def and_then_eq_Inr put_config_def idle_def get_config_def
      split: option.splits if_splits dest!: rehash_brk)

lemma pstep_inv: "pstep p p' \<Longrightarrow> srv_inv (p_world p) \<Longrightarrow> srv_inv (p_world p')"
proof (induction rule: pstep.induct)
  case (round p evs w')
  with server_round_inv [of "p_world p" evs] show ?case by (simp add: set_world_def)
next
  case (environment p t q sf)
  then show ?case by (auto simp: set_world_def intro: srv_inv_same)
next
  case (signal p sig p')
  then show ?case by (blast intro: idle_inv SignalHandler_idle)
qed

lemma preach_inv: "preach p0 p \<Longrightarrow> srv_inv (p_world p0) \<Longrightarrow> srv_inv (p_world p)"
  by (induction rule: preach.induct) (auto intro: pstep_inv)

lemma SignalHandler_running: "SignalHandler sig p = Inr p' \<Longrightarrow> p_running p' \<Longrightarrow> p_running p"
  by (cases sig) (auto simp: SignalHandler_def and_then_eq_Inr put_config_def split: option.splits if_splits)

lemma preach_stopped: "preach p0 p \<Longrightarrow> \<not> p_running p0 \<Longrightarrow> \<not> p_running p"
  by (induction rule: preach.induct)
    (auto simp: set_world_def elim!: pstepE dest: SignalHandler_running)

section \<open>Start-up\<close>

lemma LoadModule_brk: "LoadModule dl s (h, ms) = Inr (x, h', ms') \<Longrightarrow> brk h \<le> brk h'"
  by (auto simp: LoadModule_def Let_def and_then_eq_Inr split: option.splits prod.splits
      dest!: strdup_brk list_push_extends)

lemma load_blocks_brk: "load_blocks dl bs (h, ms) = Inr (h', ms') \<Longrightarrow> brk h \<le> brk h'"
proof (induction bs arbitrary: h ms)
  case (Cons b bs)
  obtain n pa where b: "b = (n, pa)" by force
  with Cons.prems obtain s x h1 ms1 where "LoadModule dl s (h, ms) = Inr (x, h1, ms1)"
      "load_blocks dl bs (h1, ms1) = Inr (h', ms')"
    by (auto simp: and_then_eq_Inr split: option.splits if_splits)
  with Cons.IH LoadModule_brk show ?case by fastforce
qed simp

lemma InitializeMultiplexer_brk:
  "InitializeMultiplexer cr t m (e, h) = Inr (r, m', e', h') \<Longrightarrow> brk h \<le> brk h'"
  by (auto simp: InitializeMultiplexer_def epoll_InitializeMultiplexer_def Let_def and_then_eq_Inr
      split: mux.splits prod.splits if_splits)

lemma AddToMultiplexer_brk:
  "AddToMultiplexer fd (m, h) = Inr (r, fl, m', h') \<Longrightarrow> brk h \<le> brk h'"
  by (auto simp: AddToMultiplexer_def and_then_eq_Inr poll_AddToMultiplexer_def
      split: mux.splits dest!: list_push_extends)


text \<open>The sockets do not touch the file system either.\<close>

definition still :: "world \<Rightarrow> world \<Rightarrow> bool" where
  "still w w' \<longleftrightarrow> idle w w' \<and> w_fs w' = w_fs w"

lemma still_refl [simp]: "still w w"
  by (simp add: still_def)

lemma still_trans: "still w w1 \<Longrightarrow> still w1 w2 \<Longrightarrow> still w w2"
  by (auto simp: still_def intro: idle_trans)

lemma AddSocket_bind_still:
  assumes "AddSocket fd addr a True w = Inr ((r, sock), w')"
  shows "still w w'"
proof -
  obtain x where x: "(case addr of Some a \<Rightarrow> Some a | None \<Rightarrow> ntop (w_net w) a) = Some x"
    using assms by (auto simp: AddSocket_def split: option.splits)
  obtain ba h1 where sd: "strdup x (w_mem w) = (ba, h1)" by force
  define e1 where "e1 = (if ba = NULL then ENOMEM else w_errno w)"
  obtain pk h2 r1 fl m h3 where nm: "nmalloc SOCK_PKTLEN h1 = Inr (pk, h2)"
    and am: "AddToMultiplexer fd (w_mux w, h2) = Inr (r1, fl, m, h3)"
    using assms x sd by (auto simp: AddSocket_def and_then_eq_Inr Let_def)
  note brk = strdup_brk [OF sd] nmalloc_brk [OF nm] AddToMultiplexer_brk [OF am]
  show ?thesis
    using assms x sd nm am brk
    by (auto simp: AddSocket_def and_then_eq_Inr Let_def still_def idle_def same_outside_def split: if_splits
        dest!: list_push_extends DestroySocket_frame)
qed

lemma BindToSocket_still:
  assumes "BindToSocket sys a port p = Inr (r, p')"
  shows "still (p_world p) (p_world p')"
  using assms
  by (auto simp: BindToSocket_def Let_def and_then_eq_Inr set_world_def split: option.splits if_splits
      dest!: AddSocket_bind_still) (auto simp: still_def idle_def)

lemma listen_defaults_brk: "listen_defaults l g = (l', g') \<Longrightarrow> brk (cg_mem g) \<le> brk (cg_mem g')"
  by (auto simp: listen_defaults_def Let_def split: if_splits prod.splits dest!: dup_brk)

lemma bind_block_still:
  assumes "bind_block sys b (bd, p) = Inr (bd', p')"
  shows "still (p_world p) (p_world p')"
proof -
  let ?g = "get_config p"
  obtain l where l: "at (listens ?g) NULL b = Inr l"
    using assms by (auto simp: bind_block_def Let_def and_then_eq_Inr)
  obtain l1 g1 where d: "listen_defaults l ?g = (l1, g1)" by force
  with assms l show ?thesis
    using listen_defaults_brk [OF d]
    by (auto simp: bind_block_def Let_def and_then_eq_Inr get_config_def split: option.splits
        dest!: BindToSocket_still) (auto simp: still_def idle_def)
qed

lemma bind_blocks_still:
  "fold_res (bind_block sys) bs (bd, p) = Inr (bd', p') \<Longrightarrow> still (p_world p) (p_world p')"
proof (induction bs arbitrary: bd p)
  case (Cons b bs)
  then obtain bd1 p1 where "bind_block sys b (bd, p) = Inr (bd1, p1)"
      "fold_res (bind_block sys) bs (bd1, p1) = Inr (bd', p')"
    by (auto simp: and_then_eq_Inr)
  with Cons.IH bind_block_still show ?case by (blast intro: still_trans)
qed simp

lemma InitializeSockets_still:
  assumes "InitializeSockets sys p = Inr (r, p')"
  shows "still (p_world p) (p_world p')"
proof -
  let ?w = "p_world p"
  obtain r1 m e h where im: "InitializeMultiplexer (epoll_created sys) (cf_readtimeout (w_conf ?w)) (w_mux ?w) (w_errno ?w, w_mem ?w)
      = Inr (r1, m, e, h)"
    using assms by (auto simp: InitializeSockets_def Let_def and_then_eq_Inr split: if_split_asm)
  note brk = InitializeMultiplexer_brk [OF im]
  then have step: "still ?w (?w\<lparr>w_mux := m, w_errno := e, w_mem := h\<rparr>)"
      "still ?w (?w\<lparr>w_mux := m, w_errno := e, w_mem := h, w_socks := []\<rparr>)"
    by (simp_all add: still_def idle_def)
  show ?thesis
    using assms im step
    by (auto simp: InitializeSockets_def Let_def and_then_eq_Inr set_world_def split: if_splits
        dest!: bind_blocks_still intro: still_trans)
qed


lemma write_pid_file_frame:
  assumes "write_pid_file sys file c p = Inr p'"
  shows "idle (p_world p) (p_world p') \<and> p_cfgs p' = p_cfgs p \<and> p_opts p' = p_opts p
    \<and> p_running p' = p_running p \<and> p_handled p' = p_handled p \<and> p_pid p' = p_pid p"
  using assms
  by (auto simp: write_pid_file_def and_then_eq_Inr idle_def split: prod.splits if_splits)

lemma die_Inr [simp]: "die msg p = Inr x \<longleftrightarrow> False"
  by (auto simp: die_def and_then_eq_Inr split: prod.splits if_splits)

lemma WritePID_frame:
  assumes "WritePID sys p = Inr p'"
  shows "idle (p_world p) (p_world p') \<and> p_cfgs p' = p_cfgs p \<and> p_opts p' = p_opts p
    \<and> p_running p' = p_running p \<and> p_handled p' = p_handled p \<and> p_pid p' = p_pid p"
proof -
  obtain c f ex e1 fs1 where s1: "config_at (gconfig (get_config p)) (get_config p) = Inr c"
      "pid_val (pidfile c) = Some f"
      "FileExists f (w_errno (p_world p), w_fs (p_world p)) = Inr (ex, e1, fs1)"
    using assms by (auto simp: WritePID_def Let_def and_then_eq_Inr split: option.split_asm)
  obtain h e2 fs2 where s2: "fopen_read f (e1, fs1) = (h, e2, fs2)"
    by (cases "fopen_read f (e1, fs1)") auto
  from assms s1 s2 obtain e fs where "write_pid_file sys f c (p\<lparr>p_world := (p_world p)\<lparr>w_errno := e, w_fs := fs\<rparr>\<rparr>) = Inr p'"
    by (auto simp: WritePID_def Let_def and_then_eq_Inr split: if_split_asm)
  from write_pid_file_frame [OF this] show ?thesis by (simp add: idle_def)
qed

lemma load_modules_frame:
  assumes "load_modules sys p = Inr p'"
  shows "idle (p_world p) (p_world p') \<and> p_cfgs p' = p_cfgs p \<and> p_opts p' = p_opts p
    \<and> p_running p' = p_running p \<and> p_handled p' = p_handled p \<and> p_pid p' = p_pid p"
  using assms
  by (auto simp: load_modules_def Let_def and_then_eq_Inr InitializeModules_def set_world_def idle_def
      dest!: load_blocks_brk)

lemma load_config_frame:
  assumes "load_config p = Inr (r, p')"
  shows "idle (p_world p) (p_world p') \<and> p_opts p' = p_opts p
    \<and> p_running p' = p_running p \<and> p_handled p' = p_handled p \<and> p_pid p' = p_pid p"
  using assms
  by (auto simp: load_config_def and_then_eq_Inr put_config_def get_config_def idle_def dest!: ParseConfig_brk)

lemma set_creds_frame [simp]:
  "idle (p_world p) (p_world (set_creds sys c p))" "p_cfgs (set_creds sys c p) = p_cfgs p"
  "p_opts (set_creds sys c p) = p_opts p" "p_running (set_creds sys c p) = p_running p"
  "p_handled (set_creds sys c p) = p_handled p" "p_pid (set_creds sys c p) = p_pid p"
  "p_creds (set_creds sys c p) = c"
  by (simp_all add: set_creds_def idle_def split: prod.split)

lemma check_directory_same: "check_directory p = Inr (r, p') \<Longrightarrow> p' = p"
  by (auto simp: check_directory_def Let_def and_then_eq_Inr split: option.splits)

lemma SwitchUserAndGroup_cases:
  assumes "SwitchUserAndGroup sys usr grp p = Inr (r, p')"
  shows "p' = p \<or> (\<exists>c. p' = set_creds sys c p) \<or> (\<exists>c d. p' = set_creds sys d (set_creds sys c p))"
  using assms
  by (auto simp: SwitchUserAndGroup_def Let_def split: option.splits prod.splits if_splits
      dest!: check_directory_same)

lemma SwitchUserAndGroup_frame:
  assumes "SwitchUserAndGroup sys usr grp p = Inr (r, p')"
  shows "idle (p_world p) (p_world p') \<and> p_cfgs p' = p_cfgs p \<and> p_opts p' = p_opts p
    \<and> p_running p' = p_running p \<and> p_handled p' = p_handled p \<and> p_pid p' = p_pid p"
  using SwitchUserAndGroup_cases [OF assms] by (auto intro: idle_trans [OF set_creds_frame(1) set_creds_frame(1)])

lemma Daemonize_frame:
  assumes "Daemonize sys p = Inr (Some p')"
  shows "p_world p' = p_world p \<and> p_cfgs p' = p_cfgs p \<and> p_running p' = p_running p \<and> p_handled p' = p_handled p"
  using assms by (auto simp: Daemonize_def Let_def die_def and_then_eq_Inr split: if_splits prod.splits)


lemma BindToSocket_frame:
  assumes "BindToSocket sys a port p = Inr (r, p')"
  shows "p_cfgs p' = p_cfgs p \<and> p_opts p' = p_opts p \<and> p_running p' = p_running p
    \<and> p_handled p' = p_handled p \<and> p_pid p' = p_pid p"
  using assms
  by (auto simp: BindToSocket_def Let_def and_then_eq_Inr set_world_def split: option.splits if_splits)

lemma dup_config: "dup s g = (x, g') \<Longrightarrow> \<exists>h. g' = g\<lparr>cg_mem := h\<rparr>"
  by (auto simp: dup_def split: prod.splits)

lemma bind_block_frame:
  assumes "bind_block sys b (bd, p) = Inr (bd', p')"
  shows "confs (p_cfgs p') = confs (p_cfgs p) \<and> gconfig (p_cfgs p') = gconfig (p_cfgs p)
    \<and> p_opts p' = p_opts p \<and> p_running p' = p_running p \<and> p_handled p' = p_handled p \<and> p_pid p' = p_pid p"
proof -
  let ?g = "get_config p"
  obtain l where l: "at (listens ?g) NULL b = Inr l"
    using assms by (auto simp: bind_block_def Let_def and_then_eq_Inr)
  obtain l1 g1 where d: "listen_defaults l ?g = (l1, g1)" by force
  then have "confs g1 = confs ?g \<and> gconfig g1 = gconfig ?g"
    by (auto simp: listen_defaults_def Let_def split: if_splits prod.splits dest!: dup_config)
  with assms l d show ?thesis
    by (auto simp: bind_block_def Let_def and_then_eq_Inr get_config_def split: option.splits
        dest!: BindToSocket_frame)
qed

lemma bind_blocks_frame:
  "fold_res (bind_block sys) bs (bd, p) = Inr (bd', p') \<Longrightarrow>
     confs (p_cfgs p') = confs (p_cfgs p) \<and> gconfig (p_cfgs p') = gconfig (p_cfgs p)
    \<and> p_opts p' = p_opts p \<and> p_running p' = p_running p \<and> p_handled p' = p_handled p \<and> p_pid p' = p_pid p"
proof (induction bs arbitrary: bd p)
  case (Cons b bs)
  then obtain bd1 p1 where "bind_block sys b (bd, p) = Inr (bd1, p1)"
      "fold_res (bind_block sys) bs (bd1, p1) = Inr (bd', p')"
    by (auto simp: and_then_eq_Inr)
  with Cons.IH [of bd1 p1] bind_block_frame [of sys b bd p bd1 p1] show ?case by simp
qed simp

lemma InitializeSockets_frame:
  assumes "InitializeSockets sys p = Inr (r, p')"
  shows "confs (p_cfgs p') = confs (p_cfgs p) \<and> gconfig (p_cfgs p') = gconfig (p_cfgs p)
    \<and> p_opts p' = p_opts p \<and> p_running p' = p_running p \<and> p_handled p' = p_handled p \<and> p_pid p' = p_pid p"
  using assms
  by (auto simp: InitializeSockets_def Let_def and_then_eq_Inr set_world_def split: if_splits prod.splits
      dest!: bind_blocks_frame)

text \<open>
  The stages of a start-up that reaches the loop.
\<close>

lemma main_start_Loop:
  assumes "main_start sys argv p0 = Inr (Loop p)"
  obtains opts p2 p3 p4 p5 p6 c p7 nf where
    "HandleArguments (LICENSE sys) (w_mem (p_world p0)) argv (p_opts p0) = Inr opts"
    "p2 = RegisterSignalHandlers (p0\<lparr>p_opts := (if configfile opts = None
       then opts\<lparr>configfile := Some (default_conf sys)\<rparr> else opts)\<rparr>)"
    "load_config p2 = Inr (0, p3)" "WritePID sys p3 = Inr p4"
    "load_modules sys (p4\<lparr>p_world := (p_world p4)\<lparr>w_pool := []\<rparr>\<rparr>) = Inr p5"
    "InitializeSockets sys p5 = Inr (0, p6)" "config_at (gconfig (p_cfgs p6)) (p_cfgs p6) = Inr c"
    "SwitchUserAndGroup sys (str_val (user c)) (str_val (group c)) p6 = Inr (0, p7)"
    "Daemonize sys (p7\<lparr>p_opts := (p_opts p7)\<lparr>nofork := nf\<rparr>\<rparr>) = Inr (Some p)"
    "nf = (if nofork (p_opts p7) = - 1 then (if daemonize c = 0 then 1 else 0) else nofork (p_opts p7))"
proof -
  have s01: "r = 0" if "InitializeSockets sys q = Inr (r, q')" "r \<noteq> - 1" for q r q'
    using that by (auto simp: InitializeSockets_def Let_def and_then_eq_Inr split: prod.splits if_splits)
  have u01: "r = 0" if "SwitchUserAndGroup sys x y q = Inr (r, q')" "r \<noteq> 1" for x y q r q'
    using that by (auto simp: SwitchUserAndGroup_def check_directory_def Let_def and_then_eq_Inr
        split: option.splits prod.splits if_splits)
  obtain opts where o: "HandleArguments (LICENSE sys) (w_mem (p_world p0)) argv (p_opts p0) = Inr opts"
    using assms by (auto simp: main_start_def and_then_eq_Inr)
  define p2 where "p2 = RegisterSignalHandlers (p0\<lparr>p_opts := (if configfile opts = None
       then opts\<lparr>configfile := Some (default_conf sys)\<rparr> else opts)\<rparr>)"
  have p2: "(if configfile opts = None then RegisterSignalHandlers (p0\<lparr>p_opts := opts\<rparr>)
      \<lparr>p_opts := opts\<lparr>configfile := Some (default_conf sys)\<rparr>\<rparr>
      else RegisterSignalHandlers (p0\<lparr>p_opts := opts\<rparr>)) = p2"
    by (simp add: p2_def RegisterSignalHandlers_def)
  obtain r p3 where p3: "load_config p2 = Inr (r, p3)" "r = 0"
    using assms o p2 by (auto simp: main_start_def and_then_eq_Inr Let_def split: if_splits)
  obtain p4 p5 s p6 where p6: "WritePID sys p3 = Inr p4"
    "load_modules sys (p4\<lparr>p_world := (p_world p4)\<lparr>w_pool := []\<rparr>\<rparr>) = Inr p5"
    "InitializeSockets sys p5 = Inr (s, p6)" "s \<noteq> - 1"
    using assms o p2 p3 by (auto simp: main_start_def and_then_eq_Inr Let_def split: if_splits)
  obtain c u p7 where p7: "config_at (gconfig (p_cfgs p6)) (p_cfgs p6) = Inr c"
    "SwitchUserAndGroup sys (str_val (user c)) (str_val (group c)) p6 = Inr (u, p7)" "u \<noteq> 1"
    using assms o p2 p3 p6 by (auto simp: main_start_def and_then_eq_Inr Let_def split: if_split_asm)
  obtain d where "Daemonize sys (p7\<lparr>p_opts := (p_opts p7)\<lparr>nofork :=
      (if nofork (p_opts p7) = - 1 then (if daemonize c = 0 then 1 else 0) else nofork (p_opts p7))\<rparr>\<rparr>) = Inr (Some d)"
    "p = d"
    using assms o p2 p3 p6 p7
    by (auto simp: main_start_def and_then_eq_Inr Let_def split: option.splits)
  with o p2_def p3 p6 p7 s01 u01 show thesis
    by (intro that [of opts p2 p3 p4 p5 p6 c p7]) auto
qed


lemma main_start_initial:
  assumes run: "main_start sys argv p0 = Inr (Loop p)"
    and fresh: "w_clients (p_world p0) = Map.empty" "0 < brk (w_mem (p_world p0))"
  shows "initial (p_world p) \<and> config_live p \<and> p_running p = p_running p0
    \<and> (\<forall>sig \<in> {SIGSEGV, SIGINT, SIGTERM, SIGHUP, SIGPIPE}. p_handled p sig)"
  using run
proof (rule main_start_Loop)
  fix opts p2 p3 p4 p5 p6 c p7 nf
  assume p2: "p2 = RegisterSignalHandlers (p0\<lparr>p_opts := (if configfile opts = None
       then opts\<lparr>configfile := Some (default_conf sys)\<rparr> else opts)\<rparr>)"
    and p3: "load_config p2 = Inr (0, p3)" and p4: "WritePID sys p3 = Inr p4"
    and p5: "load_modules sys (p4\<lparr>p_world := (p_world p4)\<lparr>w_pool := []\<rparr>\<rparr>) = Inr p5"
    and p6: "InitializeSockets sys p5 = Inr (0, p6)"
    and c: "config_at (gconfig (p_cfgs p6)) (p_cfgs p6) = Inr c"
    and p7: "SwitchUserAndGroup sys (str_val (user c)) (str_val (group c)) p6 = Inr (0, p7)"
    and p: "Daemonize sys (p7\<lparr>p_opts := (p_opts p7)\<lparr>nofork := nf\<rparr>\<rparr>) = Inr (Some p)"
  have f2: "p_world p2 = p_world p0" "p_running p2 = p_running p0"
      "\<forall>sig \<in> {SIGSEGV, SIGINT, SIGTERM, SIGHUP, SIGPIPE}. p_handled p2 sig"
    by (simp_all add: p2 RegisterSignalHandlers_def)
  note fr = load_config_frame [OF p3] WritePID_frame [OF p4] load_modules_frame [OF p5]
    InitializeSockets_frame [OF p6] SwitchUserAndGroup_frame [OF p7] Daemonize_frame [OF p]
  have "idle (p_world p0) (p_world p4)"
    using fr f2(1) by (auto intro: idle_trans)
  moreover have "idle ((p_world p4)\<lparr>w_pool := []\<rparr>) (p_world p)"
    using fr InitializeSockets_still [OF p6] by (auto simp: still_def intro: idle_trans)
  ultimately have "initial (p_world p)"
    using fresh by (auto simp: initial_def idle_def)
  moreover have "config_live p"
    using c fr by (auto simp: config_live_def at_def split: if_splits option.splits)
  ultimately show ?thesis
    using fr f2 by simp
qed

section \<open>The listening sockets\<close>

text \<open>The address and the port a listen block stands for, and a socket that serves it.\<close>

definition listen_addr :: "listen_t \<Rightarrow> string \<times> 16 word" where
  "listen_addr l = (case str_val (l_bindaddr l) of None \<Rightarrow> ''::'' | Some a \<Rightarrow> a,
     if l_port l = - 1 then 69 else l_port l)"

definition bound_to :: "system \<Rightarrow> socket \<Rightarrow> string \<times> 16 word \<Rightarrow> bool" where
  "bound_to sys s l \<longleftrightarrow> bind_sockaddr sys (fst l) (snd l) = Some (sk_addr s) \<and> 0 \<le> sk_fd s
     \<and> nonblock_ok sys (sk_fd s) \<and> bind_ok sys (sk_fd s) (sk_addr s)"

lemma listen_defaults_addr:
  assumes "listen_defaults l g = (l', g')"
  shows "listens g' = listens g" "str_val (l_bindaddr l') = Some a \<Longrightarrow> listen_addr l = (a, l_port l')"
    "str_val (l_bindaddr l') \<noteq> None \<Longrightarrow> l_port l' = - 1 \<Longrightarrow> False"
    "str_val (l_bindaddr l') \<noteq> None \<Longrightarrow> listen_addr l' = listen_addr l"
  using assms
  by (auto simp: listen_defaults_def listen_addr_def Let_def dup_def split: if_splits prod.splits)

lemma DestroySocket_one:
  assumes "DestroySocket s False w = Inr w'"
  shows "length (w_socks w) \<le> Suc (length (w_socks w')) \<and> set (w_socks w') \<subseteq> set (w_socks w)"
proof -
  obtain r socks h where "(case r of None \<Rightarrow> Inr (w_socks w) | Some i \<Rightarrow> list_delete_at i (w_socks w)) = Inr socks"
      "w' = w\<lparr>w_socks := socks, w_mem := h\<rparr>"
    using assms by (auto simp: DestroySocket_def and_then_eq_Inr Let_def)
  then show ?thesis
    by (auto simp: list_delete_at_def split: option.splits if_splits dest!: in_set_takeD in_set_dropD)
qed

lemma AddSocket_bind_socks:
  assumes "AddSocket fd addr a True w = Inr ((r, sock), w')"
  shows "(\<forall>s \<in> set (w_socks w'). s \<in> set (w_socks w) \<or> sk_fd s = fd \<and> sk_addr s = a)
    \<and> length (w_socks w) \<le> length (w_socks w') \<and> (r \<noteq> - 1 \<longrightarrow> w_socks w' \<noteq> [])"
proof -
  obtain x where x: "(case addr of Some a \<Rightarrow> Some a | None \<Rightarrow> ntop (w_net w) a) = Some x"
    using assms by (auto simp: AddSocket_def split: option.splits)
  obtain ba h1 where sd: "strdup x (w_mem w) = (ba, h1)" by force
  obtain pk h2 r1 fl m h3 where "nmalloc SOCK_PKTLEN h1 = Inr (pk, h2)"
    and "AddToMultiplexer fd (w_mux w, h2) = Inr (r1, fl, m, h3)"
    using assms x sd by (auto simp: AddSocket_def and_then_eq_Inr Let_def)
  with assms x sd show ?thesis
    by (auto simp: AddSocket_def and_then_eq_Inr Let_def split: if_split_asm
        dest!: list_push_extends DestroySocket_one)
qed

lemma BindToSocket_socks:
  assumes "BindToSocket sys a port p = Inr (r, p')"
  shows "(\<forall>s \<in> set (w_socks (p_world p')). s \<in> set (w_socks (p_world p)) \<or> bound_to sys s (a, port))
    \<and> length (w_socks (p_world p)) \<le> length (w_socks (p_world p'))
    \<and> (r \<noteq> - 1 \<longrightarrow> w_socks (p_world p') \<noteq> [])"
  using assms
  by (auto simp: BindToSocket_def Let_def and_then_eq_Inr set_world_def bound_to_def split: option.split_asm if_split_asm
      dest!: AddSocket_bind_socks)

text \<open>Every round of the loop keeps this, whatever the order of the blocks.\<close>

definition bound_inv :: "system \<Rightarrow> (string \<times> 16 word) set \<Rightarrow> bool \<times> proc \<Rightarrow> bool" where
  "bound_inv sys L st \<longleftrightarrow>
     (\<forall>s \<in> set (w_socks (p_world (snd st))). \<exists>l \<in> L. bound_to sys s l)
     \<and> (fst st \<longrightarrow> w_socks (p_world (snd st)) \<noteq> [])"

lemma bind_block_socks:
  assumes run: "bind_block sys b (bd, p) = Inr (bd', p')" and inv: "bound_inv sys L (bd, p)"
    and ls: "\<forall>b \<in> B. \<forall>l. listens (p_cfgs p) b = Some l \<longrightarrow> listen_addr l \<in> L" and b: "b \<in> B"
  shows "bound_inv sys L (bd', p') \<and> (\<forall>b \<in> B. \<forall>l. listens (p_cfgs p') b = Some l \<longrightarrow> listen_addr l \<in> L)"
proof -
  let ?g = "get_config p"
  obtain l where l: "at (listens ?g) NULL b = Inr l"
    using run by (auto simp: bind_block_def Let_def and_then_eq_Inr)
  obtain l1 g1 where d: "listen_defaults l ?g = (l1, g1)" by force
  obtain a where a: "str_val (l_bindaddr l1) = Some a"
    using run l d by (auto simp: bind_block_def Let_def split: option.split_asm)
  define p1 where "p1 = p\<lparr>p_cfgs := g1\<lparr>listens := (listens g1)(b \<mapsto> l1)\<rparr>,
    p_world := (p_world p)\<lparr>w_mem := cg_mem g1\<rparr>\<rparr>"
  obtain r where r: "BindToSocket sys a (l_port l1) p1 = Inr (r, p')" "bd' = (bd \<or> r \<noteq> - 1)"
    using run l d a by (auto simp: bind_block_def Let_def and_then_eq_Inr p1_def)
  have lg: "listens (p_cfgs p) b = Some l"
    using l by (auto simp: at_def get_config_def split: if_splits option.splits)
  have inL: "(a, l_port l1) \<in> L" "listen_addr l1 \<in> L"
    using listen_defaults_addr(2,4) [OF d] a ls b lg by auto
  have "listens (p_cfgs p') = (listens (p_cfgs p))(b \<mapsto> l1)"
    using BindToSocket_frame [OF r(1)] listen_defaults_addr(1) [OF d] by (simp add: p1_def get_config_def)
  moreover have "w_socks (p_world p1) = w_socks (p_world p)"
    by (simp add: p1_def)
  ultimately show ?thesis
    using BindToSocket_socks [OF r(1)] inv inL ls r(2) by (auto simp: bound_inv_def)
qed

lemma bind_blocks_socks:
  assumes "fold_res (bind_block sys) bs (bd, p) = Inr (bd', p')" "bound_inv sys L (bd, p)"
    and "\<forall>b \<in> B. \<forall>l. listens (p_cfgs p) b = Some l \<longrightarrow> listen_addr l \<in> L" "set bs \<subseteq> B"
  shows "bound_inv sys L (bd', p')"
  using assms
proof (induction bs arbitrary: bd p)
  case (Cons b bs)
  obtain bd1 p1 where step: "bind_block sys b (bd, p) = Inr (bd1, p1)"
      "fold_res (bind_block sys) bs (bd1, p1) = Inr (bd', p')"
    using Cons.prems(1) by (auto simp: and_then_eq_Inr)
  have "b \<in> B" "set bs \<subseteq> B" using Cons.prems(4) by auto
  with bind_block_socks [OF step(1) Cons.prems(2,3)] show ?case
    by (auto intro: Cons.IH [OF step(2)])
qed simp

lemma InitializeSockets_socks:
  assumes run: "InitializeSockets sys p = Inr (0, p')"
    and c: "confs (p_cfgs p) (gconfig (p_cfgs p)) = Some c"
  shows "w_socks (p_world p') \<noteq> []"
    "s \<in> set (w_socks (p_world p')) \<Longrightarrow>
       \<exists>b \<in> set (listenblocks c). \<exists>l. listens (p_cfgs p) b = Some l \<and> bound_to sys s (listen_addr l)"
proof -
  let ?w = "p_world p"
  obtain r1 m e h where im: "InitializeMultiplexer (epoll_created sys) (cf_readtimeout (w_conf ?w)) (w_mux ?w) (w_errno ?w, w_mem ?w)
      = Inr (r1, m, e, h)"
    using run by (auto simp: InitializeSockets_def Let_def and_then_eq_Inr split: if_split_asm)
  define q where "q = set_world (?w\<lparr>w_mux := m, w_errno := e, w_mem := h, w_socks := []\<rparr>) p"
  obtain bd where "fold_res (bind_block sys) (listenblocks c) (False, q) = Inr (bd, p')"
      "(0 :: int) = (if bd then 0 else - 1)"
    using run c im by (auto simp: InitializeSockets_def Let_def get_config_def at_def and_then_eq_Inr q_def
        split: if_split_asm)
  then have fold: "fold_res (bind_block sys) (listenblocks c) (False, q) = Inr (True, p')"
    by (cases bd) simp_all
  have q: "w_socks (p_world q) = []" "p_cfgs q = p_cfgs p"
    by (simp_all add: q_def set_world_def)
  define L where "L = {listen_addr l |b l. b \<in> set (listenblocks c) \<and> listens (p_cfgs p) b = Some l}"
  have "bound_inv sys L (False, q)"
    by (simp add: bound_inv_def q(1))
  moreover have "\<forall>b \<in> set (listenblocks c). \<forall>l. listens (p_cfgs q) b = Some l \<longrightarrow> listen_addr l \<in> L"
    unfolding q(2) L_def by blast
  ultimately have "bound_inv sys L (True, p')"
    by (rule bind_blocks_socks [OF fold _ _ order_refl])
  then have inv: "w_socks (p_world p') \<noteq> []" "\<forall>s \<in> set (w_socks (p_world p')). \<exists>l \<in> L. bound_to sys s l"
    unfolding bound_inv_def fst_conv snd_conv by blast+
  then show "w_socks (p_world p') \<noteq> []" by simp
  assume "s \<in> set (w_socks (p_world p'))"
  with inv(2) obtain x where x: "x \<in> L" "bound_to sys s x" by blast
  from x(1) obtain l b where "x = listen_addr l" "b \<in> set (listenblocks c)" "listens (p_cfgs p) b = Some l"
    unfolding L_def by blast
  with x(2) show "\<exists>b \<in> set (listenblocks c). \<exists>l. listens (p_cfgs p) b = Some l \<and> bound_to sys s (listen_addr l)"
    by blast
qed


section \<open>Identity, terminal, pid file\<close>

text \<open>
  A process that has given up the user 0 can set its group only to one it has, so that the
  order of the two calls decides.
\<close>

lemma switch_user_then_group:
  assumes "euid (p_creds p) = 0" "getpwnam sys u = Some (uid, pgid)" "uid \<noteq> 0"
    and "getgrnam sys g = Some gid" "u \<noteq> g" "gid \<noteq> rgid (p_creds p)" "gid \<noteq> sgid (p_creds p)"
  shows "\<exists>p'. SwitchUserAndGroup sys (Some u) (Some g) p = Inr (1, p')
    \<and> euid (p_creds p') = uid \<and> egid (p_creds p') = egid (p_creds p)"
  using assms by (simp add: SwitchUserAndGroup_def setuid_def setgid_def Let_def)

lemma InTerm_iff: "InTerm sys \<longleftrightarrow> isatty sys 0 \<and> (isatty sys 2 \<longrightarrow> isatty sys 1)"
  by (auto simp: InTerm_def)

lemma write_pid_file_text:
  assumes fs: "fs_wf (w_fs (p_world p))" and run: "write_pid_file sys f c p = Inr p'"
    and ok: "c_perm (w_fs (p_world p)) f = 0" "nodes (w_fs (p_world p)) f = None"
  shows "nodes (w_fs (p_world p')) f = Some (Reg (dec_int (p_pid p)))"
  using assms
  by (auto simp: write_pid_file_def fopen_write_def open_handle_def Let_def fwrite_def fclose_def stream_def
      and_then_eq_Inr overwrite_def file_bytes_def fs_wf_def split: if_splits)

lemma WritePID_text:
  assumes fs: "fs_wf (w_fs (p_world p))" and run: "WritePID sys p = Inr p'"
    and c: "confs (p_cfgs p) (gconfig (p_cfgs p)) = Some c" "pid_val (pidfile c) = Some f"
    and ok: "c_perm (w_fs (p_world p)) f = 0" "nodes (w_fs (p_world p)) f = None"
  shows "nodes (w_fs (p_world p')) f = Some (Reg (dec_int (p_pid p)))"
proof -
  have "write_pid_file sys f c (p\<lparr>p_world := (p_world p)\<lparr>w_errno := ENOENT, w_fs := w_fs (p_world p)\<rparr>\<rparr>) = Inr p'"
    using run c ok(2)
    by (auto simp: WritePID_def Let_def get_config_def and_then_eq_Inr at_def FileExists_def
        split: if_split_asm option.split_asm)
  from write_pid_file_text [OF _ this] fs ok show ?thesis by simp
qed

text \<open>
  A pid file that holds no number stands for process 0, and the signal 0 to process 0 always
  succeeds: it goes to the caller's own group.
\<close>

lemma WritePID_no_number:
  assumes fs: "fs_wf (w_fs (p_world p))"
    and c: "confs (p_cfgs p) (gconfig (p_cfgs p)) = Some c" "gconfig (p_cfgs p) \<noteq> NULL" "pid_val (pidfile c) = Some f"
    and fl: "nodes (w_fs (p_world p)) f = Some (Reg bs)" "r_perm (w_fs (p_world p)) f = 0"
    and tx: "length bs < 1024" "atoi (takeWhile (\<lambda>c. c \<noteq> NUL) bs) = 0"
    and kill: "kill_0 sys 0" and mem: "heap_wf (w_mem (p_world p))"
  shows "WritePID sys p = Inl Exit_failure"
proof -
  have die: "die m q = Inl Exit_failure" if "w_mem (p_world q) = w_mem (p_world p)" for m and q :: proc
    using mem that by (auto simp: die_def malloc_def free_def heap_wf_brk)
  show ?thesis
    using fs c fl tx kill
    by (simp add: WritePID_def Let_def get_config_def at_def FileExists_def fopen_read_def open_handle_def
        fclose_def stream_def access_read_def fs_wf_def fread_def file_bytes_def atoi_buffer_def die)
qed


lemma ParseConfig_nodes:
  "ParseConfig f (e, fs) g = Inr (r, (e', fs'), g') \<Longrightarrow> fs_wf fs \<Longrightarrow>
     fs_wf fs' \<and> nodes fs' = nodes fs \<and> c_perm fs' = c_perm fs"
  by (auto simp: ParseConfig_def fopen_read_def open_handle_def fread_def fclose_def stream_def and_then_eq_Inr
      fs_wf_def Let_def less_SucI split: option.split_asm if_split_asm)

lemma set_creds_nodes [simp]: "nodes (w_fs (p_world (set_creds sys c p))) = nodes (w_fs (p_world p))"
  by (simp add: set_creds_def split: prod.split)

lemma main_start_pid:
  assumes run: "main_start sys argv p0 = Inr (Loop p)"
    and fs: "fs_wf (w_fs (p_world p0))" "c_perm (w_fs (p_world p0)) f = 0" "nodes (w_fs (p_world p0)) f = None"
    and f: "\<And>c. confs (p_cfgs p) (gconfig (p_cfgs p)) = Some c \<Longrightarrow> pid_val (pidfile c) = Some f"
  shows "nodes (w_fs (p_world p)) f = Some (Reg (dec_int (p_pid p0)))"
  using run
proof (rule main_start_Loop)
  fix opts p2 p3 p4 p5 p6 c p7 nf
  assume p2: "p2 = RegisterSignalHandlers (p0\<lparr>p_opts := (if configfile opts = None
       then opts\<lparr>configfile := Some (default_conf sys)\<rparr> else opts)\<rparr>)"
    and p3: "load_config p2 = Inr (0, p3)" and p4: "WritePID sys p3 = Inr p4"
    and p5: "load_modules sys (p4\<lparr>p_world := (p_world p4)\<lparr>w_pool := []\<rparr>\<rparr>) = Inr p5"
    and p6: "InitializeSockets sys p5 = Inr (0, p6)"
    and c: "config_at (gconfig (p_cfgs p6)) (p_cfgs p6) = Inr c"
    and p7: "SwitchUserAndGroup sys (str_val (user c)) (str_val (group c)) p6 = Inr (0, p7)"
    and p: "Daemonize sys (p7\<lparr>p_opts := (p_opts p7)\<lparr>nofork := nf\<rparr>\<rparr>) = Inr (Some p)"
  note fr = load_config_frame [OF p3] WritePID_frame [OF p4] load_modules_frame [OF p5]
    InitializeSockets_frame [OF p6] SwitchUserAndGroup_frame [OF p7] Daemonize_frame [OF p]
  have p3fs: "fs_wf (w_fs (p_world p3))" "nodes (w_fs (p_world p3)) = nodes (w_fs (p_world p0))"
      "c_perm (w_fs (p_world p3)) = c_perm (w_fs (p_world p0))"
    using p3 fs(1) by (auto simp: load_config_def and_then_eq_Inr put_config_def p2 RegisterSignalHandlers_def
        dest!: ParseConfig_nodes)
  have c6: "confs (p_cfgs p6) (gconfig (p_cfgs p6)) = Some c"
    using c by (auto simp: at_def split: if_splits option.splits)
  with fr have c3: "confs (p_cfgs p3) (gconfig (p_cfgs p3)) = Some c" and cp: "confs (p_cfgs p) (gconfig (p_cfgs p)) = Some c"
    by simp_all
  have "nodes (w_fs (p_world p4)) f = Some (Reg (dec_int (p_pid p3)))"
    using WritePID_text [OF p3fs(1) p4 c3 f [OF cp]] p3fs fs by simp
  moreover have "w_fs (p_world p5) = w_fs (p_world p4)"
    using p5 by (auto simp: load_modules_def Let_def and_then_eq_Inr set_world_def)
  moreover have "w_fs (p_world p6) = w_fs (p_world p5)"
    using InitializeSockets_still [OF p6] by (simp add: still_def)
  moreover have "nodes (w_fs (p_world p7)) = nodes (w_fs (p_world p6))"
    using SwitchUserAndGroup_cases [OF p7] by auto
  moreover have "p_pid p3 = p_pid p0"
    using fr by (simp add: p2 RegisterSignalHandlers_def)
  ultimately show ?thesis using fr by simp
qed

text \<open>A process that is not running sends nothing any more.\<close>

lemma SignalHandler_net: "SignalHandler sig p = Inr p' \<Longrightarrow> w_net (p_world p') = w_net (p_world p)"
  by (cases sig) (auto simp: SignalHandler_def and_then_eq_Inr put_config_def split: option.splits if_splits)

lemma preach_silent:
  assumes "preach p0 p" "\<not> p_running p0"
  shows "sent (w_net (p_world p)) = sent (w_net (p_world p0))"
  using assms
proof (induction rule: preach.induct)
  case (more p p')
  then have "\<not> p_running p" using preach_stopped by blast
  with more.hyps(2) more.IH more.prems show ?case
    by (auto simp: set_world_def elim!: pstepE dest!: SignalHandler_net)
qed simp

end
