(* ===== verification/Exchange.thy ===== *)
theory Exchange
  imports File_Transfer Rounds
begin

text \<open>
  From datagram to datagram: what happens to a read request that waits on a socket when the
  socket is read and the queues are then sent, in a server without clients.
\<close>

section \<open>A new client\<close>

text \<open>The socket of a new client: its address and its buffer are fresh blocks.\<close>

definition fresh_socket :: "string \<Rightarrow> socket \<Rightarrow> heap \<Rightarrow> heap \<Rightarrow> bool" where
  "fresh_socket t sock h h' \<longleftrightarrow> brk h \<le> sk_bindaddr sock \<and> sk_bindaddr sock < sk_packet sock
     \<and> blocks h' (sk_bindaddr sock) = Some (t @ [NUL]) \<and> blocks h' (sk_packet sock) \<noteq> None"

lemma FindOrAllocateClient_fresh:
  assumes pool: "w_pool w = []" "w_clients w = Map.empty" and wf: "heap_wf (w_mem w)" and mem: "mem_ok (w_mem w)"
    and nt: "ntop (w_net w) a = Some t" and err: "w_errno w \<noteq> ENOMEM"
  shows "\<exists>c w' sock. FindOrAllocateClient fd a w = Inr (c, w') \<and> c \<noteq> NULL \<and> w_pool w' = [c]
    \<and> w_clients w' = [c \<mapsto> fresh_client fd a sock] \<and> sk_fd sock = fd \<and> sk_addr sock = a
    \<and> w_socks w' = w_socks w @ [sock] \<and> same_outside w w' \<and> w_mux w' = w_mux w \<and> heap_wf (w_mem w') \<and> extends (w_mem w) (w_mem w')
    \<and> fresh_socket t sock (w_mem w) (w_mem w')"
proof -
  let ?h = "w_mem w"
  have b: "0 < brk ?h" and o: "\<And>k. \<not> oom ?h k"
    using wf mem by (simp_all add: heap_wf_brk mem_ok_def)
  let ?c = "brk ?h"
  let ?sock = "\<lparr>sk_fd = fd, sk_flags = 0, sk_addr = a, sk_bindaddr = Suc ?c, sk_packet = Suc (Suc ?c),
    sk_pktlen = SOCK_PKTLEN\<rparr>"
  let ?h' = "?h\<lparr>blocks := (blocks ?h)(Suc ?c \<mapsto> t @ [NUL], Suc (Suc ?c) \<mapsto> replicate SOCK_PKTLEN NUL),
    brk := Suc (Suc (Suc (Suc (Suc ?c))))\<rparr>"
  have sz: "SOCK_PKTLEN \<noteq> 0" by (simp add: SOCK_PKTLEN_def)
  let ?w = "w\<lparr>w_socks := w_socks w @ [?sock], w_pool := [?c], w_mem := ?h', w_clients := [?c \<mapsto> fresh_client fd a ?sock]\<rparr>"
  have "FindOrAllocateClient fd a w = Inr (?c, ?w)"
    using b o pool nt err sz
    by (simp add: FindOrAllocateClient_def FindClient_def new_client_def AddSocket_def AddClient_def
        strdup_eq nmalloc_eq list_push_def set_client_def client_at_def Let_def fresh_client_def zero_client_def)
  moreover have "heap_wf ?h'" "extends ?h ?h'"
    using wf by (auto simp: heap_wf_def extends_def less_Suc_eq)
  ultimately show ?thesis
    using b by (intro exI [of _ ?c] exI [of _ ?w] exI [of _ ?sock]) (simp add: same_outside_def fresh_socket_def)
qed


section \<open>Request and answer\<close>

text \<open>A socket that can receive: its buffer is alive and has its size.\<close>

definition can_receive :: "socket \<Rightarrow> world \<Rightarrow> bool" where
  "can_receive s w \<longleftrightarrow> (\<exists>b. blocks (w_mem w) (sk_packet s) = Some b \<and> length b = sk_pktlen s)
     \<and> mux_ok (sk_fd s) (w_mux w)"

definition no_clients :: "world \<Rightarrow> bool" where
  "no_clients w \<longleftrightarrow> w_pool w = [] \<and> w_clients w = Map.empty \<and> heap_wf (w_mem w) \<and> mem_ok (w_mem w)"

text \<open>What the buffer holds for a datagram.\<close>

definition buffer_of :: "socket \<Rightarrow> byte list \<Rightarrow> byte list" where
  "buffer_of s data = data @ replicate (sk_pktlen s - length data) NUL"

lemma ReceivePackets_first:
  assumes idle: "no_clients w" and s: "can_receive s w" and q: "inq (w_net w) (sk_fd s) = Recv_packet data a # rest"
    and len: "length data \<le> sk_pktlen s" and nt: "ntop (w_net w) a = Some t"
  shows "\<exists>c cl w3. c \<noteq> NULL \<and> ReceivePackets s w =
      and_then (ProcessPacket cl (buffer_of s data) (length data) w3) (\<lambda>(cl2, w4). Inr (0, set_client c cl2 w4))
    \<and> c_queue cl = [] \<and> c_sendingfile cl = 0 \<and> c_blk cl = NULL \<and> c_blksize cl = 512 \<and> c_destroy cl = 0
    \<and> pq_allocated (c_lastpacket cl) = 0 \<and> sk_fd (c_s cl) = sk_fd s \<and> sk_addr (c_s cl) = a
    \<and> c_tid cl = - GetPort a \<and> w_pool w3 = [c] \<and> heap_wf (w_mem w3) \<and> mem_ok (w_mem w3) \<and> w_mux w3 = w_mux w
    \<and> w_fs w3 = w_fs w \<and> w_conf w3 = w_conf w \<and> sent (w_net w3) = sent (w_net w)
    \<and> send_fail (w_net w3) = send_fail (w_net w) \<and> w_clients w3 = [c \<mapsto> cl]
    \<and> w_socks w3 = w_socks w @ [c_s cl] \<and> fresh_socket t (c_s cl) (w_mem w) (w_mem w3)
    \<and> (\<forall>p < brk (w_mem w). blocks (w_mem w3) p = (if p = sk_packet s then Some (buffer_of s data) else blocks (w_mem w) p))
    \<and> inq (w_net w3) = (inq (w_net w))(sk_fd s := rest)"
proof -
  let ?p = "sk_packet s" and ?h = "w_mem w"
  obtain b where b: "blocks ?h ?p = Some b" "length b = sk_pktlen s"
    using s by (auto simp: can_receive_def)
  have wf: "heap_wf ?h" and mem: "mem_ok ?h" using idle by (simp_all add: no_clients_def)
  have p: "0 < ?p" "?p < brk ?h" using heap_wf_live [OF wf b(1)] by simp_all
  let ?h1 = "?h\<lparr>blocks := (blocks ?h)(?p \<mapsto> replicate (sk_pktlen s) NUL)\<rparr>"
  let ?h2 = "?h\<lparr>blocks := (blocks ?h)(?p \<mapsto> buffer_of s data)\<rparr>"
  let ?net = "(w_net w)\<lparr>inq := (inq (w_net w))(sk_fd s := rest)\<rparr>"
  let ?w1 = "w\<lparr>w_net := ?net, w_errno := 0, w_mem := ?h2\<rparr>"
  have ms: "memset ?p NUL (sk_pktlen s) ?h = Inr ?h1"
    using b p by (simp add: memset_def store_def)
  have st: "store ?p 0 data ?h1 = Inr ?h2"
    using b p len by (simp add: store_def buffer_of_def)
  have rc: "recvfrom (sk_fd s) (w_net w) = (Recv_packet data a, ?net)"
    by (simp add: recvfrom_def q)
  have wf2: "heap_wf ?h2" "mem_ok ?h2"
    using wf mem p by (auto simp: heap_wf_def mem_ok_def)
  obtain c w2 sock where f: "FindOrAllocateClient (sk_fd s) a ?w1 = Inr (c, w2)" "c \<noteq> NULL" "w_pool w2 = [c]"
    "w_clients w2 = [c \<mapsto> fresh_client (sk_fd s) a sock]" "sk_fd sock = sk_fd s" "sk_addr sock = a"
    "w_socks w2 = w_socks w @ [sock]" "same_outside ?w1 w2" "w_mux w2 = w_mux w" "heap_wf (w_mem w2)" "extends ?h2 (w_mem w2)"
    "fresh_socket t sock ?h2 (w_mem w2)"
    using FindOrAllocateClient_fresh [of ?w1 a t "sk_fd s"] idle wf2 nt by (auto simp: no_clients_def ENOMEM_def)
  define cl where "cl = (fresh_client (sk_fd s) a sock)\<lparr>c_bytestransferred :=
    c_bytestransferred (fresh_client (sk_fd s) a sock) + int (length data)\<rparr>"
  define w3 where "w3 = call_event EV_RECEIVING_PACKETS (set_client c cl w2)"
  have ld: "load ?p 0 (sk_pktlen s) (w_mem (set_client c cl w2)) = Inr (buffer_of s data)"
    using f(11) p len by (auto simp: set_client_def load_def extends_def buffer_of_def)
  have run: "ReceivePackets s w =
      and_then (ProcessPacket cl (buffer_of s data) (length data) w3) (\<lambda>(cl2, w4). Inr (0, set_client c cl2 w4))"
    using ms st rc f(1,2,4) len ld
    by (simp add: ReceivePackets_def Let_def client_at_def cl_def [symmetric] w3_def [symmetric])
  have live: "blocks (w_mem w3) p = (if p = ?p then Some (buffer_of s data) else blocks ?h p)" if "p < brk ?h" for p
    using f(11) that by (simp add: w3_def set_client_def extends_def)
  have fs: "fresh_socket t (c_s cl) ?h (w_mem w3)"
    using f(12) by (simp add: cl_def w3_def set_client_def fresh_client_def fresh_socket_def)
  show ?thesis
    using f run live fs wf2(2) extends_mem_ok [OF f(11)]
    by (intro exI [of _ c] exI [of _ cl] exI [of _ w3])
      (auto simp: cl_def w3_def set_client_def fresh_client_def zero_client_def same_outside_def)
qed




text \<open>
  The answer: in a server without clients, a plain read request that waits on a socket is
  answered by the first block of the file, to the address it came from.
\<close>

definition rrq_for :: "byte list \<Rightarrow> world \<Rightarrow> string \<Rightarrow> bool" where
  "rrq_for buf w path \<longleftrightarrow> field16 0 buf = Inr PACKET_RRQ
     \<and> (case parse_request buf of
          Inr (fn, mode, opt, param) \<Rightarrow> strcasecmp mode ''mail'' \<noteq> 0 \<and> strcasecmp opt ''blksize'' \<noteq> 0
            \<and> strcasecmp opt ''tsize'' \<noteq> 0 \<and> request_path fn (w_conf w) = Inr path
        | Inl _ \<Rightarrow> False)"

definition answer_ready :: "world \<Rightarrow> int \<Rightarrow> sockaddr \<Rightarrow> byte list \<Rightarrow> bool" where
  "answer_ready w fd a bytes \<longleftrightarrow> (\<exists>c cl. c \<noteq> NULL \<and> w_pool w = [c] \<and> w_clients w c = Some cl
     \<and> queue_owned cl (w_mem w) \<and> queued cl w = [bytes] \<and> sk_fd (c_s cl) = fd \<and> sk_addr (c_s cl) = a
     \<and> c_destroy cl = 0 \<and> mux_ok (sk_fd (c_s cl)) (w_mux w) \<and> (\<forall>n. \<not> send_fail (w_net w) n))"

lemma request_is_received:
  assumes idle: "no_clients w" and s: "can_receive s w" and q: "inq (w_net w) (sk_fd s) = Recv_packet data a # rest"
    and len: "length data \<le> sk_pktlen s" "length data \<le> MAX_PACKET_SIZE" and nt: "ntop (w_net w) a = Some t"
    and rrq: "rrq_for (buffer_of s data) w path" and fs: "fs_wf (w_fs w)"
    and fl: "nodes (w_fs w) path = Some (Reg bs)" "r_perm (w_fs w) path = 0"
    and net: "\<And>n. \<not> send_fail (w_net w) n"
  shows "\<exists>w1 sock. ReceivePackets s w = Inr (0, w1) \<and> answer_ready w1 (sk_fd s) a (data_packet 1 (take 512 bs))
    \<and> sent (w_net w1) = sent (w_net w) \<and> w_socks w1 = w_socks w @ [sock]"
proof -
  from ReceivePackets_first [OF idle s q len(1) nt] obtain c cl w3 where
    c: "c \<noteq> NULL" "ReceivePackets s w =
      and_then (ProcessPacket cl (buffer_of s data) (length data) w3) (\<lambda>(cl2, w4). Inr (0, set_client c cl2 w4))"
    and cl: "c_queue cl = []" "c_sendingfile cl = 0" "c_blk cl = NULL" "c_blksize cl = 512" "c_destroy cl = 0"
      "pq_allocated (c_lastpacket cl) = 0" "sk_fd (c_s cl) = sk_fd s" "sk_addr (c_s cl) = a"
    and w3: "w_pool w3 = [c]" "heap_wf (w_mem w3)" "mem_ok (w_mem w3)" "w_mux w3 = w_mux w"
      "w_fs w3 = w_fs w" "w_conf w3 = w_conf w" "sent (w_net w3) = sent (w_net w)"
      "send_fail (w_net w3) = send_fail (w_net w)" "w_clients w3 = [c \<mapsto> cl]"
      "w_socks w3 = w_socks w @ [c_s cl]"
    by (elim exE conjE) blast
  obtain fn mode opt param where pr: "parse_request (buffer_of s data) = Inr (fn, mode, opt, param)"
    "strcasecmp mode ''mail'' \<noteq> 0" "strcasecmp opt ''blksize'' \<noteq> 0" "strcasecmp opt ''tsize'' \<noteq> 0"
    "request_path fn (w_conf w) = Inr path" "field16 0 (buffer_of s data) = Inr PACKET_RRQ"
    using rrq by (auto simp: rrq_for_def split: sum.splits)
  have "client_ok cl w3"
    using cl w3 s by (simp add: client_ok_def queue_ok_def plain_marks_def blk_ok_def can_receive_def)
  then have srv: "serves cl w3 (buffer_of s data) path bs"
    using cl w3 pr fs fl by (simp add: serves_def)
  have opt: "request_option (buffer_of s data) = (opt, param)"
    using pr by (simp add: request_option_def)
  have "is_packet PACKET_RRQ (buffer_of s data, length data)"
    using pr len(2) by (simp add: is_packet_def)
  from rrq_sending [OF srv opt pr(3,4) this] obtain cl2 w4 where
    run: "ProcessPacket cl (buffer_of s data) (length data) w3 = Inr (cl2, w4)"
    and snd: "sending 512 bs 1 cl2 w4" "queued cl2 w4 = queued cl w3 @ [data_of 512 bs 0]" "c_destroy cl2 = 0"
    using cl(5) by (auto simp: total_ex)
  note k = ProcessPacket_keeps [OF run]
  have ok2: "client_ok cl2 w4" using snd(1) by (simp add: sending_def)
  have q2: "queued cl2 w4 = [data_packet 1 (take 512 bs)]"
    using snd(2) cl(1) by (simp add: queued_def data_of_def block_of_def)
  then obtain pq where pq: "c_queue cl2 = [pq]"
    by (auto simp: queued_def length_Suc_conv map_eq_Cons_conv)
  let ?w = "set_client c cl2 w4"
  have own: "queue_owned cl2 (w_mem ?w)"
    using ok2 pq heap_wf_live [of "w_mem w4" "pq_p pq"]
    by (auto simp: queue_owned_def client_ok_def queue_ok_def plain_marks_def set_client_def pq_live_def)
  have "mux_ok (sk_fd (c_s cl2)) (w_mux ?w)"
    using ok2 by (simp add: client_ok_def queue_ok_def set_client_def)
  moreover have "\<not> send_fail (w_net ?w) n" for n
    using net k w3 by (simp add: keeps_def set_client_def)
  moreover have "w_clients ?w c = Some cl2" by (simp add: set_client_def)
  moreover have "w_pool ?w = [c]" using k w3 by (simp add: keeps_def set_client_def)
  moreover have "queued cl2 ?w = [data_packet 1 (take 512 bs)]"
    using q2 by (simp add: queued_def set_client_def)
  ultimately have "answer_ready ?w (sk_fd s) a (data_packet 1 (take 512 bs))"
    unfolding answer_ready_def
    using c(1) own snd(3) k cl(7,8) by (intro exI [of _ c] exI [of _ cl2]) (simp add: keeps_def)
  moreover have "ReceivePackets s w = Inr (0, ?w)"
    using c(2) run by simp
  moreover have "sent (w_net ?w) = sent (w_net w)" "w_socks ?w = w_socks w3"
    using k w3 by (simp_all add: keeps_def set_client_def)
  ultimately show ?thesis
    using w3(10) by metis
qed

lemma answer_is_sent:
  assumes "answer_ready w fd a bytes"
  shows "\<exists>w'. SendPackets w = Inr (0, w') \<and> sent (w_net w') = sent (w_net w) @ [(fd, a, bytes)]"
proof -
  from assms obtain c cl where c: "c \<noteq> NULL" "w_pool w = [c]" "w_clients w c = Some cl"
    "queue_owned cl (w_mem w)" "queued cl w = [bytes]" "sk_fd (c_s cl) = fd" "sk_addr (c_s cl) = a"
    "c_destroy cl = 0" "mux_ok (sk_fd (c_s cl)) (w_mux w)" "\<And>n. \<not> send_fail (w_net w) n"
    unfolding answer_ready_def by blast
  from send_client_sends [OF c(1,3,4,10,8,9)] c(5-7) obtain w' where
    "send_client c w = Inr (0, w')" "sent (w_net w') = sent (w_net w) @ [(fd, a, bytes)]"
    by auto
  with c(2) show ?thesis by (simp add: SendPackets_def)
qed

lemma find_append: "find P xs = Some x \<Longrightarrow> find P (xs @ ys) = Some x"
  by (induction xs) (auto split: if_splits)

text \<open>
  A round with one event: the vector of events may have been enlarged, or that may have failed; then the event
  is handled.
\<close>

definition polled :: "nat \<Rightarrow> epoll \<Rightarrow> world \<Rightarrow> world" where
  "polled e k w = w\<lparr>w_errno := e, w_mux := Epoll k\<rparr>"

lemma polled_simps [simp]:
  "w_mem (polled e k w) = w_mem w" "w_clients (polled e k w) = w_clients w" "w_pool (polled e k w) = w_pool w"
  "w_socks (polled e k w) = w_socks w" "w_now (polled e k w) = w_now w" "w_mux (polled e k w) = Epoll k"
  "w_net (polled e k w) = w_net w" "w_fs (polled e k w) = w_fs w" "w_conf (polled e k w) = w_conf w"
  by (simp_all add: polled_def)

lemma epoll_round:
  assumes inv: "srv_inv w" and room: "epoll_room (w_mux w)" and n: "w_socks w \<noteq> []" "length (w_socks w) < 2 ^ 30"
  shows "\<exists>e k. ep_room k
    \<and> server_round (Some [ev]) w = and_then (process_event ev (polled e k w)) (\<lambda>w2. Inr (call_event EV_TICK w2))"
proof -
  obtain k0 where k0: "w_mux w = Epoll k0" "ep_room k0" using room by (rule epoll_roomE)
  obtain e v where r: "epoll_reserve (length (w_socks w)) (w_errno w) k0 = Inr (e, k0\<lparr>ep_events := v\<rparr>)"
      "ep_room (k0\<lparr>ep_events := v\<rparr>)"
    using epoll_reserve_total [OF k0(2) _ n(2), of "w_errno w"] n(1) by auto
  obtain v' where v': "epoll_wait [ev] (k0\<lparr>ep_events := v\<rparr>) = Inr ([ev], k0\<lparr>ep_events := v'\<rparr>)"
      "ep_room (k0\<lparr>ep_events := v'\<rparr>)"
    using epoll_wait_one [OF r(2), of ev] by auto
  have "server_round (Some [ev]) w = and_then (process_event ev (polled e (k0\<lparr>ep_events := v'\<rparr>) w))
      (\<lambda>w2. Inr (call_event EV_TICK w2))"
    by (simp add: server_round_def srv_inv_quiet [OF inv] ProcessSockets_def k0 epoll_ProcessSockets_def r v'
        polled_def)
  with v'(2) show ?thesis by blast
qed

lemma flags_apart: "\<not> has_flag EPOLLIN (EPOLLHUP OR EPOLLERR)" "\<not> has_flag EPOLLOUT (EPOLLHUP OR EPOLLERR)"
  by (simp_all add: has_flag_def EPOLLIN_def EPOLLOUT_def EPOLLHUP_def EPOLLERR_def)

text \<open>What an event for reading and one for writing lead to.\<close>

lemma event_in:
  "FindSocket fd w = (0, Some s) \<Longrightarrow> ReceivePackets s (call_event EV_SOCKETACTIVITY w) = Inr (0, w') \<Longrightarrow>
     process_event (fd, EPOLLIN) w = Inr w'"
  using flags_apart by (simp add: process_event_def serve_socket_def)

lemma event_out:
  "FindSocket fd w = (0, Some s) \<Longrightarrow> SendPackets (call_event EV_SOCKETACTIVITY w) = Inr (0, w') \<Longrightarrow>
     process_event (fd, EPOLLOUT) w = Inr w'"
  using flags_apart by (simp add: process_event_def serve_socket_def)

lemma FindSocket_polled [simp]: "FindSocket fd (polled e k w) = FindSocket fd w"
  by (simp add: FindSocket_def)

text \<open>Two rounds of the loop: the socket is readable in the first and writable in the second.\<close>

lemma request_is_answered:
  assumes idle: "no_clients w" and s: "can_receive s w" and q: "inq (w_net w) (sk_fd s) = Recv_packet data a # rest"
    and len: "length data \<le> sk_pktlen s" "length data \<le> MAX_PACKET_SIZE" and nt: "ntop (w_net w) a = Some t"
    and rrq: "rrq_for (buffer_of s data) w path" and fs: "fs_wf (w_fs w)"
    and fl: "nodes (w_fs w) path = Some (Reg bs)" "r_perm (w_fs w) path = 0"
    and net: "\<And>n. \<not> send_fail (w_net w) n"
    and mux: "epoll_room (w_mux w)" "Suc (length (w_socks w)) < 2 ^ 30" and sock: "FindSocket (sk_fd s) w = (0, Some s)"
  shows "\<exists>w1 w2. server_round (Some [(sk_fd s, EPOLLIN)]) w = Inr w1
    \<and> server_round (Some [(sk_fd s, EPOLLOUT)]) w1 = Inr w2
    \<and> sent (w_net w2) = sent (w_net w) @ [(sk_fd s, a, data_packet 1 (take 512 bs))]"
proof -
  have inv: "srv_inv w"
    using idle by (intro reachable_inv [OF reachable.start]) (simp add: no_clients_def initial_def heap_wf_brk)
  have ne: "w_socks w \<noteq> []" using sock by (auto simp: FindSocket_def)
  obtain e k where k: "ep_room k" "server_round (Some [(sk_fd s, EPOLLIN)]) w
      = and_then (process_event (sk_fd s, EPOLLIN) (polled e k w)) (\<lambda>w2. Inr (call_event EV_TICK w2))"
    using epoll_round [OF inv mux(1) ne Suc_lessD [OF mux(2)]] by blast
  let ?w = "call_event EV_SOCKETACTIVITY (polled e k w)"
  have "no_clients ?w" "can_receive s ?w" "rrq_for (buffer_of s data) ?w path"
    using idle s rrq by (simp_all add: no_clients_def can_receive_def rrq_for_def mux_ok_def split: sum.splits prod.splits)
  from request_is_received [OF this(1,2) _ len _ this(3)] q nt fs fl net obtain w1 sk where
    r: "ReceivePackets s ?w = Inr (0, w1)" "answer_ready w1 (sk_fd s) a (data_packet 1 (take 512 bs))"
      "sent (w_net w1) = sent (w_net w)" "w_socks w1 = w_socks w @ [sk]"
    by force
  let ?w1 = "call_event EV_TICK w1"
  have round1: "server_round (Some [(sk_fd s, EPOLLIN)]) w = Inr ?w1"
    using k(2) event_in [OF _ r(1)] sock by simp
  have inv1: "srv_inv ?w1"
    using server_round_inv [OF inv, of "Some [(sk_fd s, EPOLLIN)]"] round1 by simp
  have "mux_le (w_mux ?w) (w_mux w1)"
    using r(1) ReceivePackets_traffic [of "{sk_fd s}" s ?w] by (auto simp: traffic_def)
  then have room1: "epoll_room (w_mux ?w1)"
    using k(1) mux_le_room [of "Epoll k"] by (simp add: epoll_room_def)
  have n1: "w_socks ?w1 \<noteq> []" "length (w_socks ?w1) < 2 ^ 30" using mux(2) r(4) by simp_all
  obtain e1 k1 where k1: "ep_room k1" "server_round (Some [(sk_fd s, EPOLLOUT)]) ?w1
      = and_then (process_event (sk_fd s, EPOLLOUT) (polled e1 k1 ?w1)) (\<lambda>w2. Inr (call_event EV_TICK w2))"
    using epoll_round [OF inv1 room1 n1] by blast
  have "answer_ready (call_event EV_SOCKETACTIVITY (polled e1 k1 ?w1)) (sk_fd s) a (data_packet 1 (take 512 bs))"
    using r(2) by (auto simp: answer_ready_def queued_def mux_ok_def)
  from answer_is_sent [OF this] obtain w2 where
    w2: "SendPackets (call_event EV_SOCKETACTIVITY (polled e1 k1 ?w1)) = Inr (0, w2)"
      "sent (w_net w2) = sent (w_net w) @ [(sk_fd s, a, data_packet 1 (take 512 bs))]"
    using r(3) by auto
  have "find (\<lambda>x. sk_fd x = sk_fd s) (w_socks w) = Some s"
    using sock by (simp add: FindSocket_def split: option.splits)
  then have "find (\<lambda>x. sk_fd x = sk_fd s) (w_socks w @ [sk]) = Some s"
    by (rule find_append)
  then have sock1: "FindSocket (sk_fd s) (polled e1 k1 ?w1) = (0, Some s)"
    by (simp add: FindSocket_def r(4))
  have "server_round (Some [(sk_fd s, EPOLLOUT)]) ?w1 = Inr (call_event EV_TICK w2)"
    using k1(2) event_out [OF sock1 w2(1)] by simp
  with round1 w2(2) show ?thesis by auto
qed

end
