(* ===== verification/Ownership.thy ===== *)
theory Ownership
  imports Exchange
begin

text \<open>
  Which blocks of memory belong to a listening socket and to the one client it serves, and that the
  packets of a read transfer keep them apart: what \<open>RemoveClient\<close> will free is alive, is freed once,
  and is none of the blocks of the listening socket.
\<close>

section \<open>A DATA packet in memory\<close>

lemma nmalloc_write_all:
  assumes "heap_wf h" "mem_ok h" "concat xs = bs" "0 < length bs"
  shows "\<exists>h1. nmalloc (length bs) h = Inr (brk h, h1) \<and> write_parts store (brk h) 0 xs h1
    = Inr (h\<lparr>blocks := (blocks h)(brk h \<mapsto> bs), brk := Suc (brk h)\<rparr>)"
proof -
  let ?h1 = "h\<lparr>blocks := (blocks h)(brk h \<mapsto> replicate (length bs) NUL), brk := Suc (brk h)\<rparr>"
  have n: "nmalloc (length bs) h = Inr (brk h, ?h1)"
    using assms by (simp add: nmalloc_eq heap_wf_brk mem_ok_def)
  obtain h' where h': "write_parts store (brk h) 0 xs ?h1 = Inr h'" "blocks h' (brk h) = Some bs"
    "\<forall>q. q \<noteq> brk h \<longrightarrow> blocks h' q = blocks h q"
    using cheap.alloc_write_parts [OF assms(1,4) n, of xs] assms(3) by auto
  have "h' = h\<lparr>blocks := (blocks h)(brk h \<mapsto> bs), brk := Suc (brk h)\<rparr>"
    using write_parts_frame [OF h'(1)] h'(2,3) by (auto simp: fun_eq_iff)
  with n h'(1) show ?thesis by blast
qed

text \<open>\<open>SendData\<close> allocates the packet, room for the queue, and the copy for \<open>lastpacket\<close>.\<close>

definition packed :: "addr \<Rightarrow> byte list \<Rightarrow> packetqueue" where
  "packed p bytes = \<lparr>pq_p = p, pq_len = length bytes, pq_allocated = 1\<rparr>"

definition with_packet :: "byte list \<Rightarrow> heap \<Rightarrow> heap" where
  "with_packet bytes h = h\<lparr>brk := Suc (Suc (Suc (brk h))),
     blocks := (blocks h)(brk h \<mapsto> bytes, Suc (Suc (brk h)) \<mapsto> bytes)\<rparr>"

definition with_queued :: "byte list \<Rightarrow> flags \<Rightarrow> world \<Rightarrow> client \<Rightarrow> client" where
  "with_queued bytes fl w c = c\<lparr>c_queue := c_queue c @ [packed (brk (w_mem w)) bytes],
     c_lastpacket := packed (Suc (Suc (brk (w_mem w)))) bytes,
     c_nextresend := w_now w + 5, c_s := (c_s c)\<lparr>sk_flags := fl\<rparr>\<rparr>"

lemma QueuePacket_run:
  assumes "heap_wf (w_mem w)" "mem_ok (w_mem w)" "mux_ok (sk_fd (c_s c)) (w_mux w)" "0 < length b"
  shows "\<exists>fl m. QueuePacket c (brk (w_mem w)) (length b) 1
      (w\<lparr>w_mem := (w_mem w)\<lparr>blocks := (blocks (w_mem w))(brk (w_mem w) \<mapsto> b), brk := Suc (brk (w_mem w))\<rparr>\<rparr>)
    = Inr (with_queued b fl w c, w\<lparr>w_mem := with_packet b (w_mem w), w_mux := m\<rparr>)"
proof -
  obtain r fl m where ss: "SetSocketStatus (sk_fd (c_s c)) (SF_WRITABLE OR SF_READABLE) (sk_flags (c_s c)) (w_mux w)
      = Inr (r, fl, m)"
    by (rule SetSocketStatus_total [OF assms(3)])
  with assms heap_wf_brk [OF assms(1)] show ?thesis
    by (intro exI [of _ fl] exI [of _ m]) (simp add: QueuePacket_def list_push_def nmalloc_eq mem_ok_def
        load_def store_def Let_def with_packet_def packed_def with_queued_def)
qed

lemma SendData_run:
  assumes "heap_wf (w_mem w)" "mem_ok (w_mem w)" "mux_ok (sk_fd (c_s c)) (w_mux w)"
    and b_def: "b = data_packet (c_currentblockno c) d"
  shows "\<exists>fl m. SendData c d w = Inr (with_queued b fl w c, w\<lparr>w_mem := with_packet b (w_mem w), w_mux := m\<rparr>)"
proof -
  let ?xs = "[be16 PACKET_DATA, be16 (c_currentblockno c), d]"
  have b: "concat ?xs = b" "length d + sizeof_packet = length b" "0 < length b"
    by (simp_all add: b_def data_packet_def be16_def sizeof_packet_def)
  show ?thesis
    using nmalloc_write_all [OF assms(1,2) b(1,3)] QueuePacket_run [OF assms(1-3) b(3)]
    by (auto simp: SendData_def b(2) simp del: write_parts.simps)
qed

lemma Acknowledge_run:
  assumes "heap_wf (w_mem w)" "mem_ok (w_mem w)" "mux_ok (sk_fd (c_s c)) (w_mux w)"
  shows "\<exists>fl m. Acknowledge c n w
    = Inr (with_queued (ack_packet n) fl w c, w\<lparr>w_mem := with_packet (ack_packet n) (w_mem w), w_mux := m\<rparr>)"
proof -
  let ?xs = "[be16 PACKET_ACK, be16 n]"
  have b: "concat ?xs = ack_packet n" "sizeof_packet = length (ack_packet n)" "0 < length (ack_packet n)"
    by (simp_all add: ack_packet_def be16_def sizeof_packet_def)
  show ?thesis
    using nmalloc_write_all [OF assms(1,2) b(1,3)] QueuePacket_run [OF assms(1-3) b(3)]
    by (auto simp: Acknowledge_def b(2) simp del: write_parts.simps)
qed

lemma OptionAcknowledge_run:
  assumes "heap_wf (w_mem w)" "mem_ok (w_mem w)" "mux_ok (sk_fd (c_s c)) (w_mux w)"
  shows "\<exists>fl m. OptionAcknowledge c opt v w = Inr (with_queued (oack_packet opt v) fl w c,
    w\<lparr>w_mem := with_packet (oack_packet opt v) (w_mem w), w_mux := m\<rparr>)"
proof -
  let ?n = "sizeof_packet + length opt + length v + 2" and ?h = "w_mem w"
  let ?h1 = "?h\<lparr>blocks := (blocks ?h)(brk ?h \<mapsto> replicate ?n NUL), brk := Suc (brk ?h)\<rparr>"
  have n: "?n = length (oack_packet opt v)" "0 < length (oack_packet opt v)"
    by (simp_all add: oack_packet_def be16_def sizeof_packet_def)
  have b: "brk ?h \<noteq> NULL" "blocks ?h1 (brk ?h) = Some (replicate ?n NUL)"
    using heap_wf_brk [OF assms(1)] by simp_all
  have nm: "nmalloc ?n ?h = Inr (brk ?h, ?h1)"
    using assms(1,2) by (simp add: nmalloc_eq heap_wf_brk mem_ok_def sizeof_packet_def)
  have sw: "?h1\<lparr>blocks := (blocks ?h1)(brk ?h \<mapsto> oack_packet opt v)\<rparr>
      = ?h\<lparr>blocks := (blocks ?h)(brk ?h \<mapsto> oack_packet opt v), brk := Suc (brk ?h)\<rparr>"
    by simp
  show ?thesis
    unfolding OptionAcknowledge_eq Let_def nm
    unfolding and_then.simps prod.case oack_build [OF b]
    unfolding n(1) sw [unfolded n(1)]
    by (rule QueuePacket_run [OF assms n(2)])
qed

section \<open>What listener and client hold\<close>

definition owned :: "addr list \<Rightarrow> heap \<Rightarrow> bool" where
  "owned ps h \<longleftrightarrow> distinct ps \<and> (\<forall>p \<in> set ps. p \<noteq> NULL \<and> blocks h p \<noteq> None)"

lemma ownedD: "owned ps h \<Longrightarrow> distinct ps" "owned ps h \<Longrightarrow> p \<in> set ps \<Longrightarrow> p \<noteq> NULL"
  "owned ps h \<Longrightarrow> p \<in> set ps \<Longrightarrow> \<exists>b. blocks h p = Some b"
  unfolding owned_def by blast+

lemma owned_old: "owned ps h \<Longrightarrow> heap_wf h \<Longrightarrow> p \<in> set ps \<Longrightarrow> p < brk h"
  using ownedD(3) heap_wf_live by blast

lemma owned_sub:
  assumes "owned ps h" "distinct qs" "\<And>q. q \<in> set qs \<Longrightarrow> q \<in> set ps \<and> blocks h' q = blocks h q \<or> q \<noteq> NULL \<and> blocks h' q \<noteq> None"
  shows "owned qs h'"
  using assms unfolding owned_def by metis

lemma free_owned:
  assumes "owned ps h" "p \<in> set ps"
  shows "free p h = Inr (h\<lparr>blocks := (blocks h)(p := None)\<rparr>)"
  using assms by (auto simp: free_def dest: ownedD)

text \<open>The fixed blocks: the two addresses and the receive buffer of the listening socket.\<close>

definition fixed :: "socket \<Rightarrow> client \<Rightarrow> addr list" where
  "fixed s cl = [sk_bindaddr s, sk_packet s, sk_bindaddr (c_s cl), sk_packet (c_s cl)]"

definition holds :: "socket \<Rightarrow> client \<Rightarrow> addr list" where
  "holds s cl = fixed s cl @ (if pq_allocated (c_lastpacket cl) = 0 then [] else [pq_p (c_lastpacket cl)])
     @ (if c_blk cl = NULL then [] else [c_blk cl]) @ map pq_p (c_queue cl)"

definition kept :: "socket \<Rightarrow> client \<Rightarrow> heap \<Rightarrow> heap \<Rightarrow> bool" where
  "kept s cl h h' \<longleftrightarrow> (\<forall>p \<in> set (fixed s cl). blocks h' p = blocks h p)"

lemma kept_refl [simp]: "kept s cl h h"
  by (simp add: kept_def)

lemma kept_trans: "kept s cl h h1 \<Longrightarrow> kept s cl h1 h2 \<Longrightarrow> kept s cl h h2"
  by (simp add: kept_def)

lemma fixed_cong: "sk_bindaddr (c_s c') = sk_bindaddr (c_s cl) \<Longrightarrow> sk_packet (c_s c') = sk_packet (c_s cl) \<Longrightarrow> fixed s c' = fixed s cl"
  by (simp add: fixed_def)

lemma kept_cong: "fixed s c' = fixed s cl \<Longrightarrow> kept s c' h h' = kept s cl h h'"
  by (simp add: kept_def)

lemma fixed_holds: "set (fixed s cl) \<subseteq> set (holds s cl)"
  by (simp add: holds_def)

definition holding :: "socket \<Rightarrow> client \<Rightarrow> heap \<Rightarrow> bool" where
  "holding s cl h \<longleftrightarrow> heap_wf h \<and> mem_ok h \<and> owned (holds s cl) h"

lemma holding_cong:
  "fixed s c' = fixed s cl \<Longrightarrow> c_lastpacket c' = c_lastpacket cl \<Longrightarrow> c_blk c' = c_blk cl \<Longrightarrow> c_queue c' = c_queue cl \<Longrightarrow>
     holding s c' h = holding s cl h"
  by (simp add: holding_def holds_def)

text \<open>
  \<open>tidy s c w c' w'\<close>: from \<open>c\<close> and \<open>w\<close> to \<open>c'\<close> and \<open>w'\<close> the blocks stay apart and the fixed ones are kept.
\<close>

definition tidy :: "socket \<Rightarrow> client \<Rightarrow> world \<Rightarrow> client \<Rightarrow> world \<Rightarrow> bool" where
  "tidy s c w c' w' \<longleftrightarrow> holding s c' (w_mem w') \<and> kept s c (w_mem w) (w_mem w') \<and> fixed s c' = fixed s c"

lemma tidy_trans: "tidy s c w c1 w1 \<Longrightarrow> tidy s c1 w1 c2 w2 \<Longrightarrow> tidy s c w c2 w2"
  by (auto simp: tidy_def kept_def)

lemma tidy_cong:
  assumes "tidy s c w c' w'" "fixed s c'' = fixed s c'" "c_lastpacket c'' = c_lastpacket c'" "c_blk c'' = c_blk c'"
    "c_queue c'' = c_queue c'" "w_mem w'' = w_mem w'"
  shows "tidy s c w c'' w''"
  using assms holding_cong [OF assms(2-5)] by (simp add: tidy_def)

lemma tidy_queued:
  assumes h: "holding s c (w_mem w)" and c': "c' = with_queued b fl w c" and w': "w_mem w' = with_packet b (w_mem w)"
  shows "tidy s c w c' w' \<and> set (holds s c') \<subseteq> set (holds s c) \<union> {brk (w_mem w)..}"
proof -
  let ?h = "w_mem w"
  have wf: "heap_wf ?h" and own: "owned (holds s c) ?h" using h by (simp_all add: holding_def)
  note old = owned_old [OF own wf]
  have new: "brk ?h \<notin> set (holds s c)" "Suc (Suc (brk ?h)) \<notin> set (holds s c)"
    using old by fastforce+
  have fx: "fixed s c' = fixed s c" by (simp add: fixed_def c' with_queued_def)
  have sub: "set (holds s c') \<subseteq> insert (brk ?h) (insert (Suc (Suc (brk ?h))) (set (holds s c)))"
    by (auto simp: holds_def fx) (auto simp: c' with_queued_def packed_def split: if_splits)
  have "distinct (holds s c')"
    using ownedD(1) [OF own] new unfolding holds_def fx
    by (auto simp: c' with_queued_def packed_def split: if_splits)
  then have "owned (holds s c') (with_packet b ?h)"
  proof (rule owned_sub [OF own])
    show "p \<in> set (holds s c) \<and> blocks (with_packet b ?h) p = blocks ?h p \<or> p \<noteq> NULL \<and> blocks (with_packet b ?h) p \<noteq> None"
      if "p \<in> set (holds s c')" for p
      using subsetD [OF sub that] heap_wf_brk [OF wf] new by (auto simp: with_packet_def)
  qed
  moreover have "heap_wf (with_packet b ?h)" "mem_ok (with_packet b ?h)"
    using h by (auto simp: holding_def heap_wf_def with_packet_def mem_ok_def less_Suc_eq)
  moreover have "kept s c ?h (with_packet b ?h)"
    using new fixed_holds [of s c] by (auto simp: kept_def with_packet_def)
  moreover have "set (holds s c') \<subseteq> set (holds s c) \<union> {brk ?h..}"
    using sub by auto
  ultimately show ?thesis using fx w' by (simp add: holding_def tidy_def)
qed

lemma holding_block:
  assumes hold: "holding s cl h" and n: "0 < n"
    and run: "(if c_blk cl = NULL then nmalloc n h else Inr (c_blk cl, h)) = Inr (blk, h1)"
      "memset blk NUL n h1 = Inr h2" "store blk 0 bs h2 = Inr h3"
  shows "holding s (cl\<lparr>c_blk := blk\<rparr>) h3 \<and> kept s cl h h3"
proof -
  have wf: "heap_wf h" and own: "owned (holds s cl) h" and mem: "mem_ok h" using hold by (simp_all add: holding_def)
  have ms: "brk h2 = brk h1" "oom h2 = oom h1" "\<forall>q. q \<noteq> blk \<longrightarrow> blocks h2 q = blocks h1 q"
    using run(2) by (auto simp: memset_def dest!: store_frame)
  have st: "blk \<noteq> NULL" "blocks h3 blk \<noteq> None"
    using run(3) by (auto simp: store_def split: if_splits option.splits)
  have h3: "brk h3 = brk h1" "oom h3 = oom h1" "\<And>q. q \<noteq> blk \<Longrightarrow> blocks h3 q = blocks h1 q"
    using store_frame [OF run(3)] ms by simp_all
  have "heap_wf h1"
    using run(1) wf by (auto split: if_splits dest: heap_wf_nmalloc)
  then have wf3: "heap_wf h3"
    using heap_wf_store [OF _ run(3)] heap_wf_store [of h1 blk 0 "replicate n NUL" h2] run(2) by (simp add: memset_def)
  consider (old) "h1 = h" "blk = c_blk cl" "c_blk cl \<noteq> NULL"
    | (new) "blk = brk h" "c_blk cl = NULL" "oom h1 = oom h" "\<And>q. q \<noteq> brk h \<Longrightarrow> blocks h1 q = blocks h q"
    using run(1) wf n by (auto simp: nmalloc_eq heap_wf_brk split: if_splits)
  then have "mem_ok h3 \<and> (\<forall>q. q \<noteq> blk \<longrightarrow> blocks h3 q = blocks h q)
      \<and> distinct (holds s (cl\<lparr>c_blk := blk\<rparr>)) \<and> set (holds s (cl\<lparr>c_blk := blk\<rparr>)) \<subseteq> insert blk (set (holds s cl))
      \<and> blk \<notin> set (fixed s cl)"
  proof cases
    case old
    have "blk \<notin> set (fixed s cl)"
      using ownedD(1) [OF own] old by (auto simp: holds_def)
    moreover have "cl\<lparr>c_blk := blk\<rparr> = cl"
      using old by simp
    ultimately show ?thesis
      using old mem h3 ownedD(1) [OF own] by (auto simp: mem_ok_def)
  next
    case new
    have "blk \<notin> set (holds s cl)"
      using owned_old [OF own wf, of blk] new(1) by auto
    then show ?thesis
      using new mem h3 ownedD(1) [OF own] heap_wf_brk [OF wf] by (auto simp: mem_ok_def holds_def fixed_def)
  qed
  then have *: "mem_ok h3" "\<And>q. q \<noteq> blk \<Longrightarrow> blocks h3 q = blocks h q" "distinct (holds s (cl\<lparr>c_blk := blk\<rparr>))"
      "set (holds s (cl\<lparr>c_blk := blk\<rparr>)) \<subseteq> insert blk (set (holds s cl))" "blk \<notin> set (fixed s cl)"
    by simp_all
  have "owned (holds s (cl\<lparr>c_blk := blk\<rparr>)) h3"
  proof (rule owned_sub [OF own *(3)])
    show "q \<in> set (holds s cl) \<and> blocks h3 q = blocks h q \<or> q \<noteq> NULL \<and> blocks h3 q \<noteq> None"
      if "q \<in> set (holds s (cl\<lparr>c_blk := blk\<rparr>))" for q
      using subsetD [OF *(4) that] *(2) [of q] st by (cases "q = blk") auto
  qed
  moreover have "kept s cl h h3"
    unfolding kept_def using *(2,5) by metis
  ultimately show ?thesis
    using wf3 *(1) by (simp add: holding_def)
qed


section \<open>What the packets of a transfer do to memory\<close>

lemma holding_wf: "holding s c h \<Longrightarrow> heap_wf h" "holding s c h \<Longrightarrow> mem_ok h"
  by (simp_all add: holding_def)

lemma SendData_tidy:
  assumes h: "holding s c (w_mem w)" and mux: "mux_ok (sk_fd (c_s c)) (w_mux w)" and run: "SendData c d w = Inr (c', w')"
  shows "tidy s c w c' w' \<and> set (holds s c') \<subseteq> set (holds s c) \<union> {brk (w_mem w)..}"
proof -
  obtain b fl where "c' = with_queued b fl w c" "w_mem w' = with_packet b (w_mem w)"
    using SendData_run [OF holding_wf [OF h] mux refl, of d] run by auto
  then show ?thesis by (rule tidy_queued [OF h])
qed

lemma Acknowledge_tidy:
  assumes h: "holding s c (w_mem w)" and mux: "mux_ok (sk_fd (c_s c)) (w_mux w)" and run: "Acknowledge c n w = Inr (c', w')"
  shows "tidy s c w c' w' \<and> set (holds s c') \<subseteq> set (holds s c) \<union> {brk (w_mem w)..}"
proof -
  obtain b fl where "c' = with_queued b fl w c" "w_mem w' = with_packet b (w_mem w)"
    using Acknowledge_run [OF holding_wf [OF h] mux, of n] run by auto
  then show ?thesis by (rule tidy_queued [OF h])
qed

lemma OptionAcknowledge_tidy:
  assumes h: "holding s c (w_mem w)" and mux: "mux_ok (sk_fd (c_s c)) (w_mux w)" and run: "OptionAcknowledge c opt v w = Inr (c', w')"
  shows "tidy s c w c' w' \<and> set (holds s c') \<subseteq> set (holds s c) \<union> {brk (w_mem w)..}"
proof -
  obtain b fl where "c' = with_queued b fl w c" "w_mem w' = with_packet b (w_mem w)"
    using OptionAcknowledge_run [OF holding_wf [OF h] mux, of opt v] run by auto
  then show ?thesis by (rule tidy_queued [OF h])
qed

lemma tidy_refl: "holding s c (w_mem w) \<Longrightarrow> tidy s c w c w"
  by (simp add: tidy_def)

lemma client_ok_mux: "client_ok c w \<Longrightarrow> mux_ok (sk_fd (c_s c)) (w_mux w)"
  by (simp add: client_ok_def queue_ok_def)

lemma ack_tidy:
  assumes ok: "client_ok c w" "c_sendingfile c \<noteq> 0" "0 < unat (c_blksize c)" and h: "holding s c (w_mem w)"
    and run: "process_ack c buf len w = Inr (c', w')"
  shows "tidy s c w c' w'"
proof -
  let ?n = "unat (c_blksize c)"
  obtain blk h1 h2 h3 bytes fs data c3 where
    p: "(if c_blk c = NULL then nmalloc ?n (w_mem w) else Inr (c_blk c, w_mem w)) = Inr (blk, h1)"
      "memset blk NUL ?n h1 = Inr h2" "store blk 0 bytes h2 = Inr h3"
    and sd: "SendData (c\<lparr>c_waiting := 0, c_blk := blk, c_currentblockno := c_currentblockno c + 1,
        c_actualblockno := c_actualblockno c + 1\<rparr>) data ((call_event EV_ACK_PACKET w)\<lparr>w_mem := h3, w_fs := fs\<rparr>) = Inr (c3, w')"
    and c': "c' = c3\<lparr>c_destroy := 1\<rparr> \<or> c' = c3"
    using run ok(2) by (auto simp: process_ack_def end_resend_plain [OF ok(1)] Let_def and_then_eq_Inr split: if_splits)
  let ?c = "c\<lparr>c_waiting := 0, c_blk := blk, c_currentblockno := c_currentblockno c + 1,
        c_actualblockno := c_actualblockno c + 1\<rparr>"
  let ?w = "(call_event EV_ACK_PACKET w)\<lparr>w_mem := h3, w_fs := fs\<rparr>"
  have "tidy s c w (c\<lparr>c_blk := blk\<rparr>) ?w"
    using holding_block [OF h ok(3) p] by (simp add: tidy_def fixed_def)
  then have t: "tidy s c w ?c ?w"
    by (rule tidy_cong) (simp_all add: fixed_def)
  have "tidy s ?c ?w c3 w'"
    using SendData_tidy [OF _ _ sd, of s] t client_ok_mux [OF ok(1)] by (simp add: tidy_def)
  with t have "tidy s c w c3 w'" by (rule tidy_trans)
  then show ?thesis by (rule tidy_cong) (use c' in \<open>auto simp: fixed_def\<close>)
qed

lemma data_tidy:
  assumes ok: "client_ok c w" "c_sendingfile c \<noteq> 0" and h: "holding s c (w_mem w)"
    and run: "process_data c buf len w = Inr (c', w')"
  shows "tidy s c w c' w'"
proof -
  obtain fs n c3 where
    ack: "Acknowledge (c\<lparr>c_waiting := 0, c_currentblockno := c_currentblockno c + 1,
        c_actualblockno := c_actualblockno c + 1\<rparr>) n ((call_event EV_DATA_PACKET w)\<lparr>w_fs := fs\<rparr>) = Inr (c3, w')"
    and c': "c' = c3\<lparr>c_destroy := 1\<rparr> \<or> c' = c3"
    using run ok(2) by (auto simp: process_data_def end_resend_plain [OF ok(1)] Let_def and_then_eq_Inr split: if_splits)
  let ?c = "c\<lparr>c_waiting := 0, c_currentblockno := c_currentblockno c + 1, c_actualblockno := c_actualblockno c + 1\<rparr>"
  let ?w = "(call_event EV_DATA_PACKET w)\<lparr>w_fs := fs\<rparr>"
  have t: "tidy s c w ?c ?w"
    by (rule tidy_cong [OF tidy_refl [OF h]]) (simp_all add: fixed_def)
  have "tidy s ?c ?w c3 w'"
    using Acknowledge_tidy [OF _ _ ack, of s] t client_ok_mux [OF ok(1)] by (simp add: tidy_def)
  with t have "tidy s c w c3 w'" by (rule tidy_trans)
  then show ?thesis by (rule tidy_cong) (use c' in \<open>auto simp: fixed_def\<close>)
qed

lemma holding_str:
  assumes "holding s c h"
  shows "holding s c (with_str t h) \<and> kept s c h (with_str t h) \<and> brk h \<notin> set (holds s c)"
proof -
  have wf: "heap_wf h" and own: "owned (holds s c) h" using assms by (simp_all add: holding_def)
  have new: "brk h \<notin> set (holds s c)" using owned_old [OF own wf] by auto
  have "owned (holds s c) (with_str t h)"
    by (rule owned_sub [OF own ownedD(1) [OF own]]) (use new in \<open>auto simp: with_str_def\<close>)
  moreover have "kept s c h (with_str t h)"
    using new fixed_holds [of s c] by (auto simp: kept_def with_str_def)
  ultimately show ?thesis
    using assms new by (simp add: holding_def with_str_wf)
qed

lemma holding_free:
  assumes "holding s c h" "p \<notin> set (holds s c)" "free p h = Inr h'"
  shows "holding s c h' \<and> kept s c h h'"
proof -
  have own: "owned (holds s c) h" using assms by (simp add: holding_def)
  have same: "blocks h' q = blocks h q" if "q \<noteq> p" for q
    using assms(3) that by (auto simp: free_def split: if_splits)
  have "owned (holds s c) h'"
    by (rule owned_sub [OF own ownedD(1) [OF own]]) (metis same assms(2))
  moreover have "heap_wf h'" "mem_ok h'"
    using assms heap_wf_free free_frame [OF assms(3)] by (auto simp: holding_def mem_ok_def)
  moreover have "kept s c h h'"
    using same assms(2) fixed_holds [of s c] by (fastforce simp: kept_def)
  ultimately show ?thesis by (simp add: holding_def)
qed


text \<open>
  The requests: a temporary string is allocated, a packet queued and the string freed again.
\<close>

lemma with_tmp_tidy:
  assumes h: "holding s c (w_mem w)"
    and c1: "fixed s c1 = fixed s c" "c_lastpacket c1 = c_lastpacket c" "c_blk c1 = c_blk c" "c_queue c1 = c_queue c"
    and w1: "w_mem w1 = with_str path (w_mem w)"
    and send: "holding s c1 (w_mem w1) \<Longrightarrow> tidy s c1 w1 c' w2 \<and> set (holds s c') \<subseteq> set (holds s c1) \<union> {brk (w_mem w1)..}"
    and fr: "free (brk (w_mem w)) (w_mem w2) = Inr h'" and w': "w_mem w' = h'"
  shows "tidy s c w c' w'"
proof -
  note str = holding_str [OF h, of path]
  have same: "holds s c1 = holds s c" using c1 by (simp add: holds_def)
  have h1: "holding s c1 (w_mem w1)"
    using str same w1 by (simp add: holding_def)
  note r = send [OF h1]
  then have "brk (w_mem w) \<notin> set (holds s c')"
    using str same w1 by (auto simp: with_str_wf)
  from holding_free [OF _ this fr] r have f: "holding s c' h'" "kept s c' (w_mem w2) h'"
    by (simp_all add: tidy_def)
  have "kept s c (w_mem w1) (w_mem w2)" "kept s c (w_mem w2) h'" "kept s c (w_mem w) (w_mem w1)" "fixed s c' = fixed s c"
    using r f(2) str w1 c1(1) by (simp_all add: tidy_def kept_def)
  then show ?thesis
    using f(1) w' kept_trans by (auto simp: tidy_def)
qed

lemma rrq_tidy:
  assumes ok: "client_ok c w" and parsed: "parse_request buf = Inr (fn, mode, opt, param)"
    and mode: "strcasecmp mode ''mail'' \<noteq> 0"
    and opt: "strcasecmp opt ''blksize'' \<noteq> 0" "strcasecmp opt ''tsize'' \<noteq> 0"
    and path: "request_path fn (w_conf w) = Inr path" and wf: "fs_wf (w_fs w)"
    and reg: "nodes (w_fs w) path = Some (Reg bs)" "r_perm (w_fs w) path = 0"
    and idle: "c_sendingfile c = 0" and h: "holding s c (w_mem w)"
    and run: "process_rrq c buf len w = Inr (c', w')"
  shows "tidy s c w c' w'"
proof -
  let ?cw = "c\<lparr>c_waiting := 0\<rparr>" and ?h = "w_mem w"
  obtain f e fs where open_run:
    "rrq_open ?cw opt False path (brk ?h) (w\<lparr>w_mem := with_str path ?h\<rparr>)
      = and_then (rrq_send ?cw f (w\<lparr>w_mem := with_str path ?h, w_errno := e, w_fs := fs\<rparr>)) (free_tmp (brk ?h))"
    using rrq_open_file [of "w\<lparr>w_mem := with_str path ?h\<rparr>" path bs ?cw opt False "brk ?h"] wf reg by auto
  let ?c = "?cw\<lparr>c_f := f, c_sendingfile := 1, c_currentblockno := 1, c_actualblockno := 1\<rparr>"
  have "process_rrq c buf len w = rrq_open ?cw opt False path (brk ?h) (w\<lparr>w_mem := with_str path ?h\<rparr>)"
    using process_rrq_path [OF ok parsed mode no_option [OF opt] client_ok_waiting [OF ok] path] by simp
  with run open_run obtain data fs1 w2 h' where
    sd: "SendData ?c data (call_event EV_NEWWRITEREQUEST
        (w\<lparr>w_mem := with_str path ?h, w_errno := e, w_fs := fs1\<rparr>)) = Inr (c', w2)"
    and fr: "free (brk ?h) (w_mem w2) = Inr h'" and w': "w' = w2\<lparr>w_mem := h'\<rparr>"
    using idle by (auto simp: rrq_send_def Let_def and_then_eq_Inr free_tmp_def)
  show ?thesis
    by (rule with_tmp_tidy [OF h _ _ _ _ _ SendData_tidy [OF _ _ sd] fr])
      (simp_all add: w' fixed_def client_ok_mux [OF ok])
qed

lemma rrq_blksize_tidy:
  assumes ok: "client_ok c w" and parsed: "parse_request buf = Inr (fn, mode, opt, Some param)"
    and mode: "strcasecmp mode ''mail'' \<noteq> 0"
    and opt: "strcasecmp opt ''blksize'' = 0" "strtol param = (b, False)" "8 \<le> b" "b \<le> 65464"
    and path: "request_path fn (w_conf w) = Inr path" and wf: "fs_wf (w_fs w)"
    and reg: "nodes (w_fs w) path = Some (Reg bs)" "r_perm (w_fs w) path = 0"
    and blk: "c_blk c = NULL" and h: "holding s c (w_mem w)"
    and run: "process_rrq c buf len w = Inr (c', w')"
  shows "tidy s c w c' w'"
proof -
  let ?cw = "c\<lparr>c_waiting := 0\<rparr>" and ?we = "w\<lparr>w_errno := 0\<rparr>"
  have okw: "client_ok ?cw ?we" using ok by (subst client_ok_cong) simp_all
  obtain ca wa where oa: "OptionAcknowledge ?cw opt param ?we = Inr (ca, wa)" "handled c w [oack_packet opt param] ?cw ?we (ca, wa)"
    using total_handled [OF OptionAcknowledge_total [OF okw] okw, of c w opt param]
    by (auto simp: total_ex queued_def)
  note ha = handledD [OF oa(2)]
  let ?cb = "ca\<lparr>c_sendingfile := 1, c_currentblockno := 0, c_actualblockno := 0, c_blksize := word_of_int b\<rparr>"
  have oopt: "rrq_option ?cw opt (Some param) w = Inr (Some False, ?cb, wa)"
    using opt oa(1) by (simp add: rrq_option_def Let_def ERANGE_def)
  have fsa: "w_fs wa = w_fs w" "w_conf wa = w_conf w" "c_blk ca = NULL"
    using ha blk by (simp_all add: same_defs)
  have okb: "client_ok ?cb wa"
    by (rule client_ok_blksize [of ca wa]) (use ha fsa in simp_all)
  let ?h = "w_mem wa"
  obtain f e fs where open_run: "rrq_open ?cb opt False path (brk ?h) (wa\<lparr>w_mem := with_str path ?h\<rparr>)
      = and_then (rrq_send ?cb f (wa\<lparr>w_mem := with_str path ?h, w_errno := e, w_fs := fs\<rparr>)) (free_tmp (brk ?h))"
    using rrq_open_file [of "wa\<lparr>w_mem := with_str path ?h\<rparr>" path bs ?cb opt False "brk ?h"] wf reg fsa by auto
  have "process_rrq c buf len w = rrq_open ?cb opt False path (brk ?h) (wa\<lparr>w_mem := with_str path ?h\<rparr>)"
    using process_rrq_path [OF ok parsed mode oopt okb] path fsa by simp
  with run open_run obtain h' where fr: "free (brk ?h) (with_str path ?h) = Inr h'"
    and c': "c' = ?cb\<lparr>c_f := f\<rparr>" and w': "w_mem w' = h'"
    by (auto simp: rrq_send_def Let_def free_tmp_def and_then_eq_Inr)
  have cw: "holding s ?cw (w_mem ?we)"
    using h holding_cong [of s ?cw c] by (simp add: fixed_def)
  have "tidy s ?cw ?we ca wa"
    using OptionAcknowledge_tidy [OF cw _ oa(1)] client_ok_mux [OF ok] by simp
  then have t: "tidy s c w ca wa"
    by (simp add: tidy_def kept_def fixed_def)
  then have hb: "holding s ca ?h" by (simp add: tidy_def)
  let ?w2 = "wa\<lparr>w_mem := with_str path ?h\<rparr>"
  have "tidy s ca wa c' w'"
  proof (rule with_tmp_tidy [OF hb, where ?c1.0 = c' and ?w1.0 = ?w2 and ?w2.0 = ?w2])
    show "tidy s c' ?w2 c' ?w2 \<and> set (holds s c') \<subseteq> set (holds s c') \<union> {brk (w_mem ?w2)..}"
      if "holding s c' (w_mem ?w2)"
      using tidy_refl [OF that] by simp
    show "free (brk ?h) (w_mem ?w2) = Inr h'" using fr by simp
  qed (simp_all add: c' w' fixed_def)
  with t show ?thesis by (rule tidy_trans)
qed

lemma wrq_tidy:
  assumes ok: "client_ok c w" and parsed: "parse_request buf = Inr (fn, mode, opt, param)"
    and mode: "strcasecmp mode ''mail'' \<noteq> 0" and dir: "cf_directory (w_conf w) = Some dir"
    and path: "request_path fn (w_conf w) = Inr path" and access: "access_errno path dir (w_fs w) \<noteq> EACCES"
    and wr: "fs_wf (w_fs w)" "writable path (w_fs w)" and h: "holding s c (w_mem w)"
    and run: "process_wrq c buf len w = Inr (c', w')"
  shows "tidy s c w c' w'"
proof -
  let ?h = "w_mem w" and ?e = "access_errno path dir (w_fs w)"
  let ?e1 = "if ?e \<noteq> 0 then ?e else w_errno w"
  obtain f fs where op: "fopen_write path (?e1, w_fs w) = (f, ?e1, fs)" "f \<noteq> 0"
    using fopen_writable [OF wr, of ?e1] by blast
  let ?c = "c\<lparr>c_waiting := 0, c_f := f, c_currentblockno := 1, c_actualblockno := 1, c_sendingfile := 1\<rparr>"
  let ?w = "call_event EV_NEWWRITEREQUEST (w\<lparr>w_mem := with_str path ?h, w_errno := ?e1, w_fs := fs\<rparr>)"
  have "wrq_open (c\<lparr>c_waiting := 0\<rparr>) dir path (w\<lparr>w_mem := with_str path ?h\<rparr>) = Acknowledge ?c 0 ?w"
    using access op by (cases "?e = 0") (simp_all add: wrq_open_def Let_def call_event_def mem_last)
  with run process_wrq_path [OF ok parsed mode dir path] obtain w2 h' where
    sd: "Acknowledge ?c 0 ?w = Inr (c', w2)"
    and fr: "free (brk ?h) (w_mem w2) = Inr h'" and w': "w' = w2\<lparr>w_mem := h'\<rparr>"
    by (auto simp: and_then_eq_Inr free_tmp_def)
  show ?thesis
    by (rule with_tmp_tidy [OF h _ _ _ _ _ Acknowledge_tidy [OF _ _ sd] fr])
      (simp_all add: w' fixed_def client_ok_mux [OF ok])
qed

end
