(* ===== verification/Session.thy ===== *)
theory Session
  imports Ownership
begin

text \<open>
  A server with one listening socket and at most one client, round by round. The locale
  \<open>transfer\<close> is what the rounds rely on about the state of a transfer: it is stable under what
  receiving and sending do to the client, and there is a stream to close at the end. In it, a packet is
  received, answered and the answer sent, and a client that is done is removed. The locale
  \<open>packet_step\<close> joins the states before and after a packet. Both are interpreted in theory
  Conversation on sending and receiving a file.
\<close>

section \<open>The listening socket and the client\<close>

text \<open>The blocks of a listening socket: its address, a C string, and its receive buffer.\<close>

definition listening :: "socket \<Rightarrow> string \<Rightarrow> heap \<Rightarrow> bool" where
  "listening s u h \<longleftrightarrow> blocks h (sk_bindaddr s) = Some (u @ [NUL]) \<and> NUL \<notin> set u \<and> sk_bindaddr s \<noteq> sk_packet s
     \<and> (\<exists>b. blocks h (sk_packet s) = Some b \<and> length b = sk_pktlen s)"

text \<open>A server that waits on one socket and has no clients.\<close>

definition ready :: "socket \<Rightarrow> string \<Rightarrow> world \<Rightarrow> bool" where
  "ready s u w \<longleftrightarrow> no_clients w \<and> w_socks w = [s] \<and> listening s u (w_mem w) \<and> epoll_room (w_mux w)"

text \<open>
  The client \<open>cl\<close> at \<open>c\<close>, of the address \<open>a\<close> with the text \<open>t\<close>, is the only one, and its socket is
  the second of the pool.
\<close>

definition serving :: "socket \<Rightarrow> string \<Rightarrow> sockaddr \<Rightarrow> string \<Rightarrow> addr \<Rightarrow> client \<Rightarrow> world \<Rightarrow> bool" where
  "serving s u a t c cl w \<longleftrightarrow> c \<noteq> NULL \<and> w_pool w = [c] \<and> w_clients w = [c \<mapsto> cl]
     \<and> (\<exists>sock. w_socks w = [s, sock] \<and> sk_fd sock = sk_fd s \<and> sk_bindaddr sock = sk_bindaddr (c_s cl))
     \<and> sk_fd (c_s cl) = sk_fd s \<and> sk_addr (c_s cl) = a \<and> c_tid cl = - GetPort a
     \<and> blocks (w_mem w) (sk_bindaddr (c_s cl)) = Some (t @ [NUL]) \<and> listening s u (w_mem w)
     \<and> holding s cl (w_mem w) \<and> epoll_room (w_mux w)"

text \<open>
  \<open>P\<close> is the state of the transfer, \<open>ps\<close> is queued, and \<open>fin\<close> tells whether the client is removed once
  that is sent.
\<close>

definition session ::
  "socket \<Rightarrow> string \<Rightarrow> sockaddr \<Rightarrow> string \<Rightarrow> (client \<Rightarrow> world \<Rightarrow> bool) \<Rightarrow> byte list list \<Rightarrow> bool \<Rightarrow> world \<Rightarrow> bool" where
  "session s u a t P ps fin w \<longleftrightarrow> (\<exists>c cl. serving s u a t c cl w \<and> P cl w
     \<and> queued cl w = ps \<and> (c_destroy cl \<noteq> 0) = fin)"

lemma serving_call_event [simp]: "serving s u a t c cl (call_event e w) = serving s u a t c cl w"
  by (simp add: serving_def)

lemma ready_call_event [simp]: "ready s u (call_event e w) = ready s u w"
  by (simp add: ready_def no_clients_def)

lemma serving_polled: "serving s u a t c cl w \<Longrightarrow> ep_room k \<Longrightarrow> serving s u a t c cl (polled e k w)"
  by (simp add: serving_def epoll_room_def)

lemma ready_polled: "ready s u w \<Longrightarrow> ep_room k \<Longrightarrow> ready s u (polled e k w)"
  by (simp add: ready_def no_clients_def epoll_room_def)

lemma epoll_room_ok: "epoll_room m \<Longrightarrow> mux_ok fd m"
  by (auto simp: mux_ok_def elim: epoll_roomE)

lemma listening_kept:
  "listening s u h \<Longrightarrow> kept s cl h h' \<Longrightarrow> listening s u h'"
  by (simp add: listening_def kept_def fixed_def)

lemma listening_buffer:
  assumes "listening s u h" "length data \<le> sk_pktlen s"
  shows "listening s u (h\<lparr>blocks := (blocks h)(sk_packet s \<mapsto> buffer_of s data)\<rparr>)"
  using assms by (simp add: listening_def buffer_of_def)

text \<open>Receiving writes the buffer of the listening socket only.\<close>

lemma receive_buffer:
  assumes l: "listening s u h" and wf: "heap_wf h" and len: "length data \<le> sk_pktlen s"
  defines "h2 \<equiv> h\<lparr>blocks := (blocks h)(sk_packet s \<mapsto> buffer_of s data)\<rparr>"
  shows "\<exists>h1. memset (sk_packet s) NUL (sk_pktlen s) h = Inr h1 \<and> store (sk_packet s) 0 data h1 = Inr h2"
    "load (sk_packet s) 0 (sk_pktlen s) h2 = Inr (buffer_of s data)"
proof -
  obtain b where b: "blocks h (sk_packet s) = Some b" "length b = sk_pktlen s"
    using l by (auto simp: listening_def)
  have "0 < sk_packet s" using heap_wf_live [OF wf b(1)] by simp
  with b len show "\<exists>h1. memset (sk_packet s) NUL (sk_pktlen s) h = Inr h1 \<and> store (sk_packet s) 0 data h1 = Inr h2"
    "load (sk_packet s) 0 (sk_pktlen s) h2 = Inr (buffer_of s data)"
    by (simp_all add: memset_def store_def load_def buffer_of_def h2_def)
qed

section \<open>A packet of the client arrives\<close>

lemma ReceivePackets_known:
  assumes sv: "serving s u a t c cl w" and port: "GetPort a \<noteq> 0x8000" and len: "length data \<le> sk_pktlen s"
    and q: "inq (w_net w) (sk_fd s) = Recv_packet data a # rest"
  shows "\<exists>n mods. ReceivePackets s w =
      (let h2 = (w_mem w)\<lparr>blocks := (blocks (w_mem w))(sk_packet s \<mapsto> buffer_of s data)\<rparr>;
           cl1 = cl\<lparr>c_bytestransferred := n\<rparr>;
           w3 = w\<lparr>w_mem := h2, w_net := (w_net w)\<lparr>inq := (inq (w_net w))(sk_fd s := rest)\<rparr>, w_errno := 0,
                  w_clients := [c \<mapsto> cl1], w_mods := mods\<rparr>
       in and_then (ProcessPacket cl1 (buffer_of s data) (length data) w3) (\<lambda>(cl2, w4). Inr (0, set_client c cl2 w4)))"
proof -
  let ?net = "(w_net w)\<lparr>inq := (inq (w_net w))(sk_fd s := rest)\<rparr>"
  let ?h2 = "(w_mem w)\<lparr>blocks := (blocks (w_mem w))(sk_packet s \<mapsto> buffer_of s data)\<rparr>"
  from sv have l: "listening s u (w_mem w)" "heap_wf (w_mem w)" "c \<noteq> NULL" "w_clients w = [c \<mapsto> cl]" "w_pool w = [c]"
    and tid: "tid_matches cl (sk_fd s) a"
    using port by (simp_all add: serving_def holding_def tid_matches_created)
  obtain h1 where h1: "memset (sk_packet s) NUL (sk_pktlen s) (w_mem w) = Inr h1"
    "store (sk_packet s) 0 data h1 = Inr ?h2" "load (sk_packet s) 0 (sk_pktlen s) ?h2 = Inr (buffer_of s data)"
    using receive_buffer [OF l(1,2) len] by blast
  have rc: "recvfrom (sk_fd s) (w_net w) = (Recv_packet data a, ?net)"
    by (simp add: recvfrom_def q)
  let ?w = "w\<lparr>w_mem := ?h2, w_net := ?net, w_errno := 0\<rparr>"
  have "FindOrAllocateClient (sk_fd s) a (w\<lparr>w_mem := h1, w_net := ?net, w_errno := 0, w_mem := ?h2\<rparr>) = Inr (c, ?w)"
    using l(3-5) tid by (simp add: FindOrAllocateClient_def FindClient_def client_at_def)
  then show ?thesis
    using h1 rc len l(3,4)
    by (intro exI [of _ "c_bytestransferred cl + int (length data)"] exI [of _ "CallEvent EV_RECEIVING_PACKETS (w_mods w)"])
      (simp add: ReceivePackets_def Let_def client_at_def set_client_def call_event_def)
qed


text \<open>Processing a packet keeps the client served, if it keeps the blocks apart.\<close>

lemma serving_processed:
  assumes sv: "serving s u a t c cl w" and k: "keeps cl w cl2 w4" and m: "tidy s cl w cl2 w4"
  shows "serving s u a t c cl2 (set_client c cl2 w4)"
proof -
  have kp: "kept s cl (w_mem w) (w_mem w4)" and ba: "sk_bindaddr (c_s cl2) = sk_bindaddr (c_s cl)"
    using m by (simp_all add: tidy_def fixed_def)
  have "epoll_room (w_mux w4)"
    using sv k mux_le_room [of "w_mux w"] by (simp add: serving_def keeps_def)
  moreover have "listening s u (w_mem w4)"
    by (rule listening_kept [OF _ kp]) (use sv in \<open>simp add: serving_def\<close>)
  moreover have "blocks (w_mem w4) (sk_bindaddr (c_s cl)) = Some (t @ [NUL])"
    using sv kp by (simp add: serving_def kept_def fixed_def)
  ultimately show ?thesis
    using sv k m ba by (auto simp: serving_def keeps_def set_client_def tidy_def)
qed

lemma holding_buffer:
  assumes h: "holding s cl h" and b: "blocks h (sk_packet s) = Some b"
  shows "holding s cl (h\<lparr>blocks := (blocks h)(sk_packet s \<mapsto> b')\<rparr>)"
proof -
  have own: "owned (holds s cl) h" and wf: "heap_wf h" "mem_ok h" using h by (simp_all add: holding_def)
  have "owned (holds s cl) (h\<lparr>blocks := (blocks h)(sk_packet s \<mapsto> b')\<rparr>)"
    by (rule owned_sub [OF own ownedD(1) [OF own]]) (use ownedD(2) [OF own] in auto)
  moreover have "heap_wf (h\<lparr>blocks := (blocks h)(sk_packet s \<mapsto> b')\<rparr>)"
    using wf b by (auto simp: heap_wf_def)
  ultimately show ?thesis
    using wf by (simp add: holding_def mem_ok_def)
qed

text \<open>The contract of one packet: what it makes of the transfer, and that it leaves memory tidy.\<close>

definition answers ::
  "socket \<Rightarrow> byte list \<Rightarrow> client \<Rightarrow> world \<Rightarrow> (client \<Rightarrow> world \<Rightarrow> bool) \<Rightarrow> string set \<Rightarrow> byte list \<Rightarrow> bool \<Rightarrow> bool" where
  "answers s data cl w P Q p fin \<longleftrightarrow> (\<exists>cl' w'. ProcessPacket cl (buffer_of s data) (length data) w = Inr (cl', w')
     \<and> P cl' w' \<and> queued cl' w' = queued cl w @ [p] \<and> c_destroy cl' = (if fin then 1 else c_destroy cl)
     \<and> (\<forall>q. q \<notin> Q \<longrightarrow> nodes (w_fs w') q = nodes (w_fs w) q)
     \<and> (holding s cl (w_mem w) \<longrightarrow> tidy s cl w cl' w'))"

text \<open>
  A transfer, as the server sees it: the client is in order, the state depends on the transfer's
  part of the client and the file system only, and there is a stream to close. \<open>N\<close> is what is known
  of the files.
\<close>

definition same_transfer :: "client \<Rightarrow> client \<Rightarrow> bool" where
  "same_transfer cl cl' \<longleftrightarrow> c_f cl' = c_f cl \<and> c_sendingfile cl' = c_sendingfile cl \<and> c_blksize cl' = c_blksize cl
     \<and> c_currentblockno cl' = c_currentblockno cl \<and> c_actualblockno cl' = c_actualblockno cl"

locale transfer =
  fixes P :: "client \<Rightarrow> world \<Rightarrow> bool" and N :: "(string \<rightharpoonup> fnode) \<Rightarrow> bool"
  assumes client: "P cl w \<Longrightarrow> client_ok cl w"
    and moved: "P cl w \<Longrightarrow> client_ok cl' w' \<Longrightarrow> same_transfer cl cl' \<Longrightarrow> w_fs w' = w_fs w \<Longrightarrow> P cl' w'"
    and stream: "P cl w \<Longrightarrow> c_f cl \<noteq> 0 \<and> handles (w_fs w) (c_f cl) \<noteq> None"
    and known: "P cl w \<Longrightarrow> N (nodes (w_fs w))"
begin

lemma event: "P cl w \<Longrightarrow> P cl (call_event e w)"
  by (rule moved [where cl = cl and w = w])
    (use client in \<open>simp_all add: same_transfer_def client_ok_def queue_ok_def\<close>)

lemma stable: "P cl w \<Longrightarrow> P cl (set_client c cl w)"
  by (rule moved [where cl = cl and w = w])
    (use client in \<open>simp_all add: same_transfer_def client_ok_def queue_ok_def set_client_def\<close>)

lemma session_event: "session s u a t P ps fin w \<Longrightarrow> session s u a t P ps fin (call_event e w)"
  unfolding session_def queued_def call_event_simps serving_call_event using event by blast

lemma session_polled:
  assumes ses: "session s u a t P ps fin w" and k: "ep_room k"
  shows "session s u a t P ps fin (polled e k w)"
proof -
  have "P cl (polled e k w)" if "P cl w" for cl
    by (rule moved [OF that])
      (use client [OF that] k in \<open>auto simp: same_transfer_def client_ok_def queue_ok_def mux_ok_def\<close>)
  with ses serving_polled [OF _ k] show ?thesis
    unfolding session_def queued_def polled_simps by blast
qed

lemma received:
  assumes "P cl w" "c_queue cl = []" "c_blk cl \<noteq> NULL \<longrightarrow> c_blk cl \<noteq> p"
    and w': "w_mem w' = (w_mem w)\<lparr>blocks := (blocks (w_mem w))(p \<mapsto> x)\<rparr>" "w_mux w' = w_mux w" "w_fs w' = w_fs w"
    and p: "blocks (w_mem w) p \<noteq> None" and cl': "cl' = cl\<lparr>c_bytestransferred := n\<rparr>"
  shows "P cl' w'"
proof -
  have "client_ok cl' w'"
    using client [OF assms(1)] assms(2-8)
    by (auto simp: client_ok_def queue_ok_def plain_marks_def blk_ok_def heap_wf_def mem_ok_def)
  with assms(1) show ?thesis by (rule moved) (simp_all add: w' cl' same_transfer_def)
qed

text \<open>A packet of the client that is served is answered.\<close>

lemma packet_received:
  assumes ses: "session s u a t P [] False w" and port: "GetPort a \<noteq> 0x8000" and len: "length data \<le> sk_pktlen s"
    and q: "inq (w_net w) (sk_fd s) = Recv_packet data a # rest"
    and answer: "\<And>cl w. P cl w \<Longrightarrow> c_queue cl = [] \<Longrightarrow> answers s data cl w P' Q p fin"
    and stable: "\<And>cl w c. P' cl w \<Longrightarrow> P' cl (set_client c cl w)"
  shows "\<exists>w'. ReceivePackets s w = Inr (0, w') \<and> session s u a t P' [p] fin w'
    \<and> sent (w_net w') = sent (w_net w) \<and> inq (w_net w') = (inq (w_net w))(sk_fd s := rest)
    \<and> send_fail (w_net w') = send_fail (w_net w) \<and> (\<forall>q. q \<notin> Q \<longrightarrow> nodes (w_fs w') q = nodes (w_fs w) q)"
proof -
  from ses obtain c cl where sv: "serving s u a t c cl w" and snd: "P cl w"
    and cl: "c_queue cl = []" "c_destroy cl = 0"
    unfolding session_def queued_def by auto
  let ?h2 = "(w_mem w)\<lparr>blocks := (blocks (w_mem w))(sk_packet s \<mapsto> buffer_of s data)\<rparr>"
  from ReceivePackets_known [OF sv port len q] obtain n mods where run: "ReceivePackets s w =
      (let cl1 = cl\<lparr>c_bytestransferred := n\<rparr>;
           w3 = w\<lparr>w_mem := ?h2, w_net := (w_net w)\<lparr>inq := (inq (w_net w))(sk_fd s := rest)\<rparr>, w_errno := 0,
                  w_clients := [c \<mapsto> cl1], w_mods := mods\<rparr>
       in and_then (ProcessPacket cl1 (buffer_of s data) (length data) w3) (\<lambda>(cl2, w4). Inr (0, set_client c cl2 w4)))"
    unfolding Let_def by blast
  define cl1 where "cl1 = cl\<lparr>c_bytestransferred := n\<rparr>"
  define w3 where "w3 = w\<lparr>w_mem := ?h2, w_net := (w_net w)\<lparr>inq := (inq (w_net w))(sk_fd s := rest)\<rparr>,
    w_errno := 0, w_clients := [c \<mapsto> cl1], w_mods := mods\<rparr>"
  have l: "listening s u (w_mem w)" and h: "holding s cl (w_mem w)" using sv by (simp_all add: serving_def)
  then obtain b where b: "blocks (w_mem w) (sk_packet s) = Some b" by (auto simp: listening_def)
  have "fixed s cl1 = fixed s cl" by (simp add: fixed_def cl1_def)
  then have h1: "holding s cl1 (w_mem w3)"
    using holding_buffer [OF h b] holding_cong [of s cl1 cl] by (simp add: cl1_def w3_def)
  have apart: "c_blk cl \<noteq> NULL \<longrightarrow> c_blk cl \<noteq> sk_packet s" "sk_bindaddr (c_s cl) \<noteq> sk_packet s"
    using h by (auto simp: holding_def owned_def holds_def fixed_def)
  have snd1: "P cl1 w3"
    by (rule received [OF snd cl(1) apart(1) _ _ _ _ cl1_def]) (simp_all add: w3_def b)
  have sv1: "serving s u a t c cl1 w3"
    using sv h1 listening_buffer [OF l len] apart(2) by (simp add: serving_def cl1_def w3_def)
  have "answers s data cl1 w3 P' Q p fin"
    using cl(1) by (intro answer [OF snd1]) (simp add: cl1_def)
  then obtain cl2 w4 where pp: "ProcessPacket cl1 (buffer_of s data) (length data) w3 = Inr (cl2, w4)"
    and r: "P' cl2 w4" "queued cl2 w4 = [p]" "(c_destroy cl2 \<noteq> 0) = fin"
      "\<forall>q. q \<notin> Q \<longrightarrow> nodes (w_fs w4) q = nodes (w_fs w3) q" and td: "tidy s cl1 w3 cl2 w4"
    using h1 cl by (auto simp: answers_def cl1_def queued_def split: if_splits)
  note k = ProcessPacket_keeps [OF pp]
  have "ReceivePackets s w = Inr (0, set_client c cl2 w4)"
    using run pp by (simp add: Let_def cl1_def w3_def)
  moreover have "session s u a t P' [p] fin (set_client c cl2 w4)"
    unfolding session_def using serving_processed [OF sv1 k td] stable [OF r(1)] r
    by (intro exI [of _ c] exI [of _ cl2]) (simp add: queued_def set_client_def)
  moreover have "w_net w4 = w_net w3" using k by (simp add: keeps_def)
  ultimately show ?thesis
    using r(4) by (simp add: w3_def set_client_def)
qed

end

section \<open>A request arrives\<close>

lemma fresh_holding:
  assumes fr: "fresh_socket t (c_s cl) h h3" and wf: "heap_wf h" "heap_wf h3" "mem_ok h3" and l: "listening s u h3"
    and live: "blocks h (sk_bindaddr s) \<noteq> None" "blocks h (sk_packet s) \<noteq> None"
    and cl: "c_queue cl = []" "c_blk cl = NULL" "pq_allocated (c_lastpacket cl) = 0"
  shows "holding s cl h3"
proof -
  have s: "0 < sk_bindaddr s" "sk_bindaddr s < brk h" "0 < sk_packet s" "sk_packet s < brk h"
    using live wf(1) by (auto simp: heap_wf_def)
  then have "distinct (fixed s cl)"
    using fr l by (auto simp: fixed_def fresh_socket_def listening_def)
  moreover have "p \<noteq> NULL \<and> blocks h3 p \<noteq> None" if "p \<in> set (fixed s cl)" for p
    using that fr l s by (auto simp: fixed_def fresh_socket_def listening_def)
  ultimately show ?thesis
    using wf cl by (simp add: holding_def holds_def owned_def)
qed

text \<open>The client that a first packet makes.\<close>

definition newcomer :: "world \<Rightarrow> client \<Rightarrow> world \<Rightarrow> bool" where
  "newcomer w cl w' \<longleftrightarrow> client_ok cl w' \<and> c_queue cl = [] \<and> c_sendingfile cl = 0 \<and> c_blk cl = NULL
     \<and> c_blksize cl = 512 \<and> c_destroy cl = 0 \<and> w_fs w' = w_fs w \<and> w_conf w' = w_conf w"

context transfer
begin

lemma request_received:
  assumes rd: "ready s u w" and q: "inq (w_net w) (sk_fd s) = Recv_packet data a # rest"
    and len: "length data \<le> sk_pktlen s" and nt: "ntop (w_net w) a = Some t"
    and answer: "\<And>cl w'. newcomer w cl w' \<Longrightarrow> answers s data cl w' P Q p fin"
  shows "\<exists>w'. ReceivePackets s w = Inr (0, w') \<and> session s u a t P [p] fin w'
    \<and> sent (w_net w') = sent (w_net w) \<and> inq (w_net w') = (inq (w_net w))(sk_fd s := rest)
    \<and> send_fail (w_net w') = send_fail (w_net w) \<and> (\<forall>q. q \<notin> Q \<longrightarrow> nodes (w_fs w') q = nodes (w_fs w) q)"
proof -
  from rd obtain b where idle: "no_clients w" and so: "w_socks w = [s]" and l: "listening s u (w_mem w)"
    and k: "epoll_room (w_mux w)" and b: "blocks (w_mem w) (sk_packet s) = Some b" "length b = sk_pktlen s"
    by (auto simp: ready_def listening_def)
  have rc: "can_receive s w" using b epoll_room_ok [OF k] by (simp add: can_receive_def)
  from ReceivePackets_first [OF idle rc q len nt] obtain c cl w3 where
    c: "c \<noteq> NULL" "ReceivePackets s w =
      and_then (ProcessPacket cl (buffer_of s data) (length data) w3) (\<lambda>(cl2, w4). Inr (0, set_client c cl2 w4))"
    and cl: "c_queue cl = []" "c_sendingfile cl = 0" "c_blk cl = NULL" "c_blksize cl = 512" "c_destroy cl = 0"
      "pq_allocated (c_lastpacket cl) = 0" "sk_fd (c_s cl) = sk_fd s" "sk_addr (c_s cl) = a"
    and w3: "w_pool w3 = [c]" "heap_wf (w_mem w3)" "mem_ok (w_mem w3)" "w_mux w3 = w_mux w"
      "w_fs w3 = w_fs w" "w_conf w3 = w_conf w" "sent (w_net w3) = sent (w_net w)"
      "send_fail (w_net w3) = send_fail (w_net w)" "w_clients w3 = [c \<mapsto> cl]"
      "w_socks w3 = w_socks w @ [c_s cl]" "fresh_socket t (c_s cl) (w_mem w) (w_mem w3)"
      "\<forall>p < brk (w_mem w). blocks (w_mem w3) p = (if p = sk_packet s then Some (buffer_of s data) else blocks (w_mem w) p)"
      "inq (w_net w3) = (inq (w_net w))(sk_fd s := rest)"
    and tid: "c_tid cl = - GetPort a"
    by (elim exE conjE) blast
  have wf: "heap_wf (w_mem w)" using idle by (simp add: no_clients_def)
  have l3: "listening s u (w_mem w3)"
    using listening_buffer [OF l len] l w3(12) heap_wf_live [OF wf b(1)] heap_wf_live [OF wf, of "sk_bindaddr s"]
    by (auto simp: listening_def buffer_of_def)
  have h3: "holding s cl (w_mem w3)"
    by (rule fresh_holding [OF w3(11) wf w3(2,3) l3]) (use l cl in \<open>auto simp: listening_def\<close>)
  have sv3: "serving s u a t c cl w3"
    using c(1) w3 so cl l3 h3 k tid by (simp add: serving_def fresh_socket_def)
  have "client_ok cl w3"
    using cl w3 epoll_room_ok [OF k] by (simp add: client_ok_def queue_ok_def plain_marks_def blk_ok_def)
  then have "newcomer w cl w3"
    using cl w3 by (simp add: newcomer_def)
  from answer [OF this] h3 obtain cl2 w4 where
    pp: "ProcessPacket cl (buffer_of s data) (length data) w3 = Inr (cl2, w4)"
    and r: "P cl2 w4" "queued cl2 w4 = [p]" "(c_destroy cl2 \<noteq> 0) = fin"
      "\<forall>q. q \<notin> Q \<longrightarrow> nodes (w_fs w4) q = nodes (w_fs w3) q" and td: "tidy s cl w3 cl2 w4"
    using cl by (auto simp: answers_def queued_def split: if_splits)
  note kp = ProcessPacket_keeps [OF pp]
  have "ReceivePackets s w = Inr (0, set_client c cl2 w4)"
    using c(2) pp by simp
  moreover have "session s u a t P [p] fin (set_client c cl2 w4)"
    unfolding session_def using serving_processed [OF sv3 kp td] stable [OF r(1)] r
    by (intro exI [of _ c] exI [of _ cl2]) (simp add: queued_def set_client_def)
  moreover have "w_net w4 = w_net w3" using kp by (simp add: keeps_def)
  ultimately show ?thesis
    using r(4) w3 by (simp add: set_client_def)
qed

end

section \<open>The queue is sent\<close>

lemma send_client_run:
  assumes sv: "serving s u a t c cl w" and ok: "client_ok cl w" and f: "c_f cl \<noteq> 0" and net: "\<And>n. \<not> send_fail (w_net w) n"
  shows "\<exists>w1 n fl k. ep_room k \<and> send_frame c w w1 \<and> w_mem w1 = freed (pq_p ` set (c_queue cl)) (w_mem w)
    \<and> sent (w_net w1) = sent (w_net w) @ map (\<lambda>bytes. (sk_fd s, a, bytes)) (queued cl w)
    \<and> w_clients w1 = [c \<mapsto> cl\<lparr>c_bytestransferred := n\<rparr>] \<and> inq (w_net w1) = inq (w_net w) \<and> send_fail (w_net w1) = send_fail (w_net w)
    \<and> SendPackets w =
      (let cl1 = drained (cl\<lparr>c_bytestransferred := n\<rparr>) fl; w2 = set_client c cl1 (w1\<lparr>w_mux := Epoll k\<rparr>) in
       if c_destroy cl = 0 then Inr (0, w2)
       else and_then (fclose (c_f cl) (w_fs w)) (\<lambda>fs. and_then (RemoveClient c (w2\<lparr>w_fs := fs\<rparr>)) (\<lambda>w3. Inr (0, w3))))"
proof -
  from sv obtain k where c: "c \<noteq> NULL" "w_clients w = [c \<mapsto> cl]" "w_pool w = [c]" "w_mux w = Epoll k"
      "sk_fd (c_s cl) = sk_fd s" "sk_addr (c_s cl) = a" and own: "owned (holds s cl) (w_mem w)" and k: "ep_room k"
    by (auto simp: serving_def holding_def elim: epoll_roomE)
  have d: "distinct (map pq_p (c_queue cl))" using ownedD(1) [OF own] by (simp add: holds_def)
  have live: "pq_allocated pq = 1 \<and> pq_p pq \<noteq> NULL \<and> pq_live (w_mem w) pq" if "pq \<in> set (c_queue cl)" for pq
    using that ok ownedD(2) [OF own, of "pq_p pq"]
    by (simp add: client_ok_def plain_marks_def queue_ok_def holds_def)
  from send_queue_all [OF d live net c(1), of cl] c(2) obtain w1 n where w1:
    "send_queue c (c_queue cl) w = Inr (0, w1)" "w_mem w1 = freed (pq_p ` set (c_queue cl)) (w_mem w)"
    "sent (w_net w1) = sent (w_net w) @ map (\<lambda>pq. (sk_fd (c_s cl), sk_addr (c_s cl), pq_bytes (w_mem w) pq)) (c_queue cl)"
    "w_clients w1 = (w_clients w)(c \<mapsto> cl\<lparr>c_bytestransferred := n\<rparr>)"
    "inq (w_net w1) = inq (w_net w)" "send_fail (w_net w1) = send_fail (w_net w)"
    by auto
  note fr = send_queue_frame [OF w1(1)]
  have "mux_ok (sk_fd (c_s cl)) (w_mux w1)"
    using fr c(4) by (simp add: send_frame_def mux_ok_def)
  then obtain r fl m where ss: "SetSocketStatus (sk_fd (c_s cl)) SF_READABLE (sk_flags (c_s cl)) (w_mux w1) = Inr (r, fl, m)"
    by (rule SetSocketStatus_total)
  have "epoll_room m"
    using mux_le_room [OF SetSocketStatus_le [OF ss]] fr c(4) k by (simp add: send_frame_def epoll_room_def)
  then obtain k1 where m: "m = Epoll k1" "ep_room k1" by (rule epoll_roomE)
  have fs: "w_fs w1 = w_fs w" using fr by (simp add: send_frame_def)
  have "SendPackets w =
      (let cl1 = drained (cl\<lparr>c_bytestransferred := n\<rparr>) fl; w2 = set_client c cl1 (w1\<lparr>w_mux := Epoll k1\<rparr>) in
       if c_destroy cl = 0 then Inr (0, w2)
       else and_then (fclose (c_f cl) (w_fs w)) (\<lambda>fs. and_then (RemoveClient c (w2\<lparr>w_fs := fs\<rparr>)) (\<lambda>w3. Inr (0, w3))))"
    using c w1(1,4) ss m(1) f fs
    by (simp add: SendPackets_def send_client_def client_at_def Let_def drained_def set_client_def and_then_assoc)
  with w1 fr c m(2) show ?thesis
    by (intro exI [of _ w1] exI [of _ n] exI [of _ fl] exI [of _ k1]) (simp add: queued_def comp_def)
qed


lemma freed_wf: "heap_wf h \<Longrightarrow> heap_wf (freed ps h)" "mem_ok (freed ps h) = mem_ok h"
  by (auto simp: heap_wf_def freed_def mem_ok_def)

lemma drained_simps [simp]:
  "c_queue (drained cl fl) = []" "c_blk (drained cl fl) = c_blk cl" "c_lastpacket (drained cl fl) = c_lastpacket cl"
  "sk_bindaddr (c_s (drained cl fl)) = sk_bindaddr (c_s cl)" "sk_packet (c_s (drained cl fl)) = sk_packet (c_s cl)"
  "sk_fd (c_s (drained cl fl)) = sk_fd (c_s cl)" "sk_addr (c_s (drained cl fl)) = sk_addr (c_s cl)"
  "c_tid (drained cl fl) = c_tid cl" "c_destroy (drained cl fl) = c_destroy cl" "c_f (drained cl fl) = c_f cl"
  "c_blksize (drained cl fl) = c_blksize cl" "c_sendingfile (drained cl fl) = c_sendingfile cl"
  "c_currentblockno (drained cl fl) = c_currentblockno cl" "c_actualblockno (drained cl fl) = c_actualblockno cl"
  by (simp_all add: drained_def)

lemma holding_drained:
  assumes h: "holding s cl h"
  shows "holding s (drained (cl\<lparr>c_bytestransferred := n\<rparr>) fl) (freed (pq_p ` set (c_queue cl)) h)"
    "kept s cl h (freed (pq_p ` set (c_queue cl)) h)"
proof -
  let ?cl = "drained (cl\<lparr>c_bytestransferred := n\<rparr>) fl" and ?P = "pq_p ` set (c_queue cl)"
  have own: "owned (holds s cl) h" using h by (simp add: holding_def)
  have eq: "holds s cl = holds s ?cl @ map pq_p (c_queue cl)"
    by (simp add: holds_def fixed_def)
  have d: "distinct (holds s ?cl)" "set (holds s ?cl) \<inter> ?P = {}"
    using ownedD(1) [OF own] unfolding eq by simp_all
  have "owned (holds s ?cl) (freed ?P h)"
  proof (rule owned_sub [OF own d(1)])
    show "q \<in> set (holds s cl) \<and> blocks (freed ?P h) q = blocks h q \<or> q \<noteq> NULL \<and> blocks (freed ?P h) q \<noteq> None"
      if "q \<in> set (holds s ?cl)" for q
      using that d(2) unfolding eq by (auto simp: freed_def)
  qed
  then show "holding s ?cl (freed ?P h)"
    using h by (simp add: holding_def freed_wf)
  have "fixed s ?cl = fixed s cl" by (simp add: fixed_def)
  then show "kept s cl h (freed ?P h)"
    using d(2) fixed_holds [of s ?cl] by (auto simp: kept_def freed_def)
qed

text \<open>A client whose queue was sent is served on, without packets.\<close>

lemma drained_serving:
  assumes sv: "serving s u a t c cl w" and fr: "send_frame c w w1" and k: "ep_room k"
    and w1: "w_mem w1 = freed (pq_p ` set (c_queue cl)) (w_mem w)" "w_clients w1 = [c \<mapsto> cl\<lparr>c_bytestransferred := n\<rparr>]"
  shows "serving s u a t c (drained (cl\<lparr>c_bytestransferred := n\<rparr>) fl)
    (set_client c (drained (cl\<lparr>c_bytestransferred := n\<rparr>) fl) (w1\<lparr>w_mux := Epoll k\<rparr>))"
proof -
  have h: "holding s cl (w_mem w)" and l: "listening s u (w_mem w)" using sv by (simp_all add: serving_def)
  note hd = holding_drained(1) [OF h, of n fl] holding_drained(2) [OF h]
  have "blocks (w_mem w1) (sk_bindaddr (c_s cl)) = Some (t @ [NUL])"
    using hd(2) sv w1(1) by (simp add: serving_def kept_def fixed_def)
  with hd(1) listening_kept [OF l hd(2)] sv fr w1 k show ?thesis
    by (auto simp: serving_def set_client_def send_frame_def epoll_room_def)
qed

section \<open>The client is removed\<close>

lemma free_first:
  assumes "owned (p # ps) h"
  shows "free p h = Inr (freed {p} h)" "owned ps (freed {p} h)"
proof -
  have "(\<lambda>q. if q \<in> {p} then None else blocks h q) = (blocks h)(p := None)"
    by auto
  then show "free p h = Inr (freed {p} h)"
    using assms by (simp add: free_def owned_def freed_def)
  show "owned ps (freed {p} h)"
    using assms by (auto simp: owned_def freed_def)
qed

lemma freed_freed: "freed A (freed B h) = freed (A \<union> B) h" "freed {} h = h"
  by (simp_all add: freed_def) (rule arg_cong [where f = "\<lambda>b. h\<lparr>blocks := b\<rparr>"], auto simp: fun_eq_iff)

lemma free_if:
  assumes "owned ((if b then [p] else []) @ ps) h"
  shows "(if b then free p h else Inr h) = Inr (freed (if b then {p} else {}) h)"
    "owned ps (freed (if b then {p} else {}) h)"
  using assms free_first by (auto simp: freed_freed)

lemma listening_freed:
  "listening s u h \<Longrightarrow> sk_bindaddr s \<notin> X \<Longrightarrow> sk_packet s \<notin> X \<Longrightarrow> listening s u (freed X h)"
  by (simp add: listening_def freed_def)

lemma RemoveClient_run:
  assumes sv: "serving s u a t c cl w" and q: "c_queue cl = []" and t: "NUL \<notin> set t" "t \<noteq> u"
  shows "\<exists>h. RemoveClient c w = Inr (w\<lparr>w_socks := [s], w_mem := h, w_pool := [], w_clients := Map.empty\<rparr>)
    \<and> heap_wf h \<and> mem_ok h \<and> listening s u h"
proof -
  let ?h = "w_mem w"
  from sv obtain sock where c: "c \<noteq> NULL" "w_pool w = [c]" "w_clients w = [c \<mapsto> cl]" "w_socks w = [s, sock]"
      "sk_fd sock = sk_fd s" "sk_bindaddr sock = sk_bindaddr (c_s cl)" "sk_fd (c_s cl) = sk_fd s"
      "blocks ?h (sk_bindaddr (c_s cl)) = Some (t @ [NUL])" "listening s u ?h"
    and h: "heap_wf ?h" "mem_ok ?h" and own: "owned (holds s cl) ?h"
    by (auto simp: serving_def holding_def)
  have tw: "takeWhile (\<lambda>c. c \<noteq> NUL) (v @ [NUL]) = v" if "NUL \<notin> set v" for v :: "byte list"
    using that by (induction v) auto
  have idx: "socket_index (c_s cl) [s, sock] ?h = Inr (Some 1)"
    using c t own tw by (simp add: load_cstr_def listening_def owned_def holds_def fixed_def)
  let ?lp = "pq_allocated (c_lastpacket cl) \<noteq> 0" and ?bl = "c_blk cl \<noteq> NULL"
  let ?p = "pq_p (c_lastpacket cl)" and ?b = "c_blk cl"
  have "owned (sk_bindaddr (c_s cl) # sk_packet (c_s cl) # (if ?lp then [?p] else []) @ (if ?bl then [?b] else []) @ []) ?h"
    by (rule owned_sub [OF own]) (use ownedD(1) [OF own] in \<open>auto simp: holds_def fixed_def\<close>)
  note f1 = free_first [OF this] note f2 = free_first [OF f1(2)]
  note f3 = free_if [OF f2(2)] note f4 = free_if [OF f3(2)]
  let ?X = "(if ?bl then {?b} else {}) \<union> ((if ?lp then {?p} else {}) \<union> ({sk_packet (c_s cl)} \<union> {sk_bindaddr (c_s cl)}))"
  obtain h1 h2 h3 h4 where fr: "free (sk_bindaddr (c_s cl)) ?h = Inr h1" "free (sk_packet (c_s cl)) h1 = Inr h2"
      "(if ?lp then free ?p h2 else Inr h2) = Inr h3" "(if ?bl then free ?b h3 else Inr h3) = Inr h4" and h4: "h4 = freed ?X ?h"
    using f1(1) f2(1) f3(1) f4(1) unfolding freed_freed by blast
  have "DestroySocket (c_s cl) False w = Inr (w\<lparr>w_socks := [s], w_mem := h2\<rparr>)"
    using c(4) idx fr(1,2) by (simp add: DestroySocket_def list_delete_at_def Let_def del: socket_index.simps)
  with c(1-3) q fr(3,4)
  have "RemoveClient c w = Inr (w\<lparr>w_socks := [s], w_mem := h4, w_pool := [], w_clients := Map.empty\<rparr>)"
    by (auto simp: RemoveClient_def client_at_def free_packets_def split: if_splits)
  moreover have "sk_bindaddr s \<notin> ?X \<and> sk_packet s \<notin> ?X"
    using ownedD(1) [OF own] by (auto simp: holds_def fixed_def split: if_splits)
  then have "listening s u h4"
    unfolding h4 by (elim conjE) (rule listening_freed [OF c(9)])
  ultimately show ?thesis
    using freed_wf [where h = ?h and ps = ?X] h unfolding h4 by blast
qed


section \<open>Rounds\<close>

text \<open>
  An exchange: in the first round the socket is readable, in the second it is writable.
\<close>

definition exchange :: "int \<Rightarrow> world \<Rightarrow> fault + world" where
  "exchange fd w = and_then (server_round (Some [(fd, EPOLLIN)]) w) (server_round (Some [(fd, EPOLLOUT)]))"

fun exchanges :: "nat \<Rightarrow> int \<Rightarrow> world \<Rightarrow> fault + world" where
  "exchanges 0 fd w = Inr w"
| "exchanges (Suc n) fd w = and_then (exchange fd w) (exchanges n fd)"

lemma exchange_run:
  assumes inv: "srv_inv w" and w: "epoll_room (w_mux w)" "w_socks w = s # ss" "length ss < 2"
    and r: "\<And>e k. ep_room k \<Longrightarrow> \<exists>w1. ReceivePackets s (call_event EV_SOCKETACTIVITY (polled e k w)) = Inr (0, w1) \<and> Q w1"
    and w1: "\<And>w1. Q w1 \<Longrightarrow> epoll_room (w_mux w1) \<and> (\<exists>ss. w_socks w1 = s # ss \<and> length ss < 2)"
    and sp: "\<And>w1 e k. Q w1 \<Longrightarrow> ep_room k \<Longrightarrow> \<exists>w2.
      SendPackets (call_event EV_SOCKETACTIVITY (polled e k (call_event EV_TICK w1))) = Inr (0, w2) \<and> R w2"
  shows "\<exists>w2. exchange (sk_fd s) w = Inr (call_event EV_TICK w2) \<and> srv_inv (call_event EV_TICK w2) \<and> R w2"
proof -
  have find: "FindSocket (sk_fd s) v = (0, Some s)" if "w_socks v = s # vs" for v vs
    using that by (simp add: FindSocket_def)
  have n: "v \<noteq> []" "length v < 2 ^ 30" if "v = s # vs" "length vs < 2" for v vs
    using that by simp_all
  obtain e k where k: "ep_room k" "server_round (Some [(sk_fd s, EPOLLIN)]) w
      = and_then (process_event (sk_fd s, EPOLLIN) (polled e k w)) (\<lambda>w2. Inr (call_event EV_TICK w2))"
    using epoll_round [OF inv w(1) n [OF w(2,3)]] by blast
  obtain w1 where w1': "ReceivePackets s (call_event EV_SOCKETACTIVITY (polled e k w)) = Inr (0, w1)" "Q w1"
    using r [OF k(1)] by blast
  have 1: "server_round (Some [(sk_fd s, EPOLLIN)]) w = Inr (call_event EV_TICK w1)"
    using k(2) event_in [OF find w1'(1)] w(2) by simp
  have inv1: "srv_inv (call_event EV_TICK w1)"
    using server_round_inv [OF inv, of "Some [(sk_fd s, EPOLLIN)]"] 1 by simp
  obtain ss1 where ss1: "epoll_room (w_mux w1)" "w_socks w1 = s # ss1" "length ss1 < 2" using w1 [OF w1'(2)] by blast
  obtain e1 k1 where k1: "ep_room k1" "server_round (Some [(sk_fd s, EPOLLOUT)]) (call_event EV_TICK w1)
      = and_then (process_event (sk_fd s, EPOLLOUT) (polled e1 k1 (call_event EV_TICK w1))) (\<lambda>w2. Inr (call_event EV_TICK w2))"
    using epoll_round [OF inv1 _ n [of "w_socks (call_event EV_TICK w1)" ss1], of "(sk_fd s, EPOLLOUT)"] ss1
    unfolding call_event_simps by blast
  obtain w2 where w2: "SendPackets (call_event EV_SOCKETACTIVITY (polled e1 k1 (call_event EV_TICK w1))) = Inr (0, w2)" "R w2"
    using sp [OF w1'(2) k1(1)] by blast
  have 2: "server_round (Some [(sk_fd s, EPOLLOUT)]) (call_event EV_TICK w1) = Inr (call_event EV_TICK w2)"
    using k1(2) event_out [OF find w2(1)] ss1(2) by simp
  with server_round_inv [OF inv1, of "Some [(sk_fd s, EPOLLOUT)]"] 1 w2(2) show ?thesis
    by (auto simp: exchange_def)
qed

text \<open>What an exchange does outside of the server; \<open>Q\<close> are the files it may change.\<close>

definition exchanged :: "socket \<Rightarrow> sockaddr \<Rightarrow> string set \<Rightarrow> byte list list \<Rightarrow> recv list \<Rightarrow> world \<Rightarrow> world \<Rightarrow> bool" where
  "exchanged s a Q ps rest w w' \<longleftrightarrow> sent (w_net w') = sent (w_net w) @ map (\<lambda>p. (sk_fd s, a, p)) ps
     \<and> inq (w_net w') (sk_fd s) = rest \<and> send_fail (w_net w') = send_fail (w_net w)
     \<and> (\<forall>q. q \<notin> Q \<longrightarrow> nodes (w_fs w') q = nodes (w_fs w) q)"

lemma exchanged_trans:
  "exchanged s a Q ps r w w1 \<Longrightarrow> exchanged s a Q qs rest w1 w2 \<Longrightarrow> exchanged s a Q (ps @ qs) rest w w2"
  by (simp add: exchanged_def)

lemma session_mux: "session s u a t P ps fin w \<Longrightarrow> epoll_room (w_mux w) \<and> (\<exists>ss. w_socks w = s # ss \<and> length ss < 2)"
  by (auto simp: session_def serving_def)

context transfer
begin

text \<open>Sending the queue: the client goes on, or its stream is closed and it is removed.\<close>

lemma drained_state:
  assumes sv: "serving s u a t c cl w" and P: "P cl w" and fr: "send_frame c w w1"
    and w1: "w_mem w1 = freed (pq_p ` set (c_queue cl)) (w_mem w)"
  shows "P (drained (cl\<lparr>c_bytestransferred := n\<rparr>) fl)
    (set_client c (drained (cl\<lparr>c_bytestransferred := n\<rparr>) fl) (w1\<lparr>w_mux := Epoll k\<rparr>))" (is "P ?cl ?w")
proof -
  have ok: "client_ok cl w" using client [OF P] .
  have "c_blk cl \<noteq> NULL \<Longrightarrow> c_blk cl \<notin> pq_p ` set (c_queue cl)"
    using sv by (simp add: serving_def holding_def owned_def holds_def)
  then have "blk_ok ?cl (w_mem w1)"
    using ok by (auto simp: client_ok_def blk_ok_def w1 freed_def)
  then have "client_ok ?cl ?w"
    using ok by (auto simp: client_ok_def queue_ok_def plain_marks_def w1 freed_wf set_client_def mux_ok_def)
  moreover have "w_fs w1 = w_fs w" using fr by (simp add: send_frame_def)
  ultimately show ?thesis
    by (intro moved [OF P]) (simp_all add: same_transfer_def set_client_def)
qed

lemma packets_sent:
  assumes ses: "session s u a t P ps fin w" and net: "\<And>n. \<not> send_fail (w_net w) n"
    and t: "NUL \<notin> set t" "t \<noteq> u"
  shows "\<exists>w'. SendPackets w = Inr (0, w') \<and> (if fin then ready s u w' else session s u a t P [] False w')
    \<and> N (nodes (w_fs w')) \<and> sent (w_net w') = sent (w_net w) @ map (\<lambda>bytes. (sk_fd s, a, bytes)) ps
    \<and> inq (w_net w') = inq (w_net w) \<and> send_fail (w_net w') = send_fail (w_net w) \<and> nodes (w_fs w') = nodes (w_fs w)"
proof -
  from ses obtain c cl where sv: "serving s u a t c cl w" and P: "P cl w"
    and cl: "queued cl w = ps" "(c_destroy cl \<noteq> 0) = fin"
    unfolding session_def by auto
  note str = stream [OF P]
  from send_client_run [OF sv client [OF P] _ net] str cl(1) obtain w1 n fl k where k: "ep_room k" and w1: "send_frame c w w1"
    "w_mem w1 = freed (pq_p ` set (c_queue cl)) (w_mem w)"
    "sent (w_net w1) = sent (w_net w) @ map (\<lambda>bytes. (sk_fd s, a, bytes)) ps"
    "w_clients w1 = [c \<mapsto> cl\<lparr>c_bytestransferred := n\<rparr>]" "inq (w_net w1) = inq (w_net w)"
    "send_fail (w_net w1) = send_fail (w_net w)"
    and run: "SendPackets w =
      (let cl1 = drained (cl\<lparr>c_bytestransferred := n\<rparr>) fl; w2 = set_client c cl1 (w1\<lparr>w_mux := Epoll k\<rparr>) in
       if c_destroy cl = 0 then Inr (0, w2)
       else and_then (fclose (c_f cl) (w_fs w)) (\<lambda>fs. and_then (RemoveClient c (w2\<lparr>w_fs := fs\<rparr>)) (\<lambda>w3. Inr (0, w3))))"
    by blast
  let ?cl = "drained (cl\<lparr>c_bytestransferred := n\<rparr>) fl"
  let ?w = "set_client c ?cl (w1\<lparr>w_mux := Epoll k\<rparr>)"
  have sv': "serving s u a t c ?cl ?w" by (rule drained_serving [OF sv w1(1) k w1(2,4)])
  have fs: "w_fs w1 = w_fs w" using w1(1) by (simp add: send_frame_def)
  note known' = known [OF P]
  show ?thesis
  proof (cases fin)
    case False
    have "session s u a t P [] False ?w"
      unfolding session_def using sv' cl(2) False drained_state [OF sv P w1(1,2)]
      by (intro exI [of _ c] exI [of _ ?cl]) (simp add: queued_def)
    with run False cl(2) w1 fs known' show ?thesis by (simp add: set_client_def Let_def)
  next
    case True
    obtain fs' where fs': "fclose (c_f cl) (w_fs w) = Inr fs'" "nodes fs' = nodes (w_fs w)"
      using str by (auto simp: fclose_def Files.stream_def split: option.splits)
    have "serving s u a t c ?cl (?w\<lparr>w_fs := fs'\<rparr>)" using sv' by (simp add: serving_def)
    from RemoveClient_run [OF this _ t] obtain h where rm: "RemoveClient c (?w\<lparr>w_fs := fs'\<rparr>)
        = Inr (?w\<lparr>w_fs := fs', w_socks := [s], w_mem := h, w_pool := [], w_clients := Map.empty\<rparr>)"
      "heap_wf h" "mem_ok h" "listening s u h"
      by auto
    let ?w' = "?w\<lparr>w_fs := fs', w_socks := [s], w_mem := h, w_pool := [], w_clients := Map.empty\<rparr>"
    have "SendPackets w = Inr (0, ?w')"
      using run True cl(2) fs'(1) rm(1) by (simp add: Let_def)
    moreover have "ready s u ?w'"
      using rm k by (simp add: ready_def no_clients_def set_client_def epoll_room_def)
    ultimately show ?thesis
      using w1 fs'(2) True known' by (intro exI [of _ ?w']) (simp add: set_client_def)
  qed
qed

text \<open>After the packet was received, the exchange ends with sending.\<close>

definition was_received ::
  "socket \<Rightarrow> string \<Rightarrow> sockaddr \<Rightarrow> string \<Rightarrow> string set \<Rightarrow> byte list \<Rightarrow> bool \<Rightarrow> recv list \<Rightarrow> world \<Rightarrow> world \<Rightarrow> bool" where
  "was_received s u a t Q p fin rest w w1 \<longleftrightarrow> session s u a t P [p] fin w1 \<and> sent (w_net w1) = sent (w_net w)
     \<and> inq (w_net w1) = (inq (w_net w))(sk_fd s := rest) \<and> send_fail (w_net w1) = send_fail (w_net w)
     \<and> (\<forall>q. q \<notin> Q \<longrightarrow> nodes (w_fs w1) q = nodes (w_fs w) q)"

definition was_answered ::
  "socket \<Rightarrow> string \<Rightarrow> sockaddr \<Rightarrow> string \<Rightarrow> string set \<Rightarrow> byte list \<Rightarrow> bool \<Rightarrow> recv list \<Rightarrow> world \<Rightarrow> world \<Rightarrow> bool" where
  "was_answered s u a t Q p fin rest w w2 \<longleftrightarrow> exchanged s a Q [p] rest w w2
     \<and> N (nodes (w_fs w2)) \<and> (if fin then ready s u w2 else session s u a t P [] False w2)"

lemma exchange_ends:
  assumes inv: "srv_inv w" and w: "epoll_room (w_mux w)" "w_socks w = s # ss" "length ss < 2"
    and r: "\<And>e k. ep_room k \<Longrightarrow> \<exists>w1. ReceivePackets s (call_event EV_SOCKETACTIVITY (polled e k w)) = Inr (0, w1)
      \<and> was_received s u a t Q p fin rest w w1"
    and net: "\<And>n. \<not> send_fail (w_net w) n" and t: "NUL \<notin> set t" "t \<noteq> u"
  shows "\<exists>w'. exchange (sk_fd s) w = Inr w' \<and> srv_inv w' \<and> exchanged s a Q [p] rest w w'
    \<and> N (nodes (w_fs w')) \<and> (if fin then ready s u w' else session s u a t P [] False w')"
proof -
  have sends: "\<exists>w2. SendPackets (call_event EV_SOCKETACTIVITY (polled e k (call_event EV_TICK w1))) = Inr (0, w2)
      \<and> was_answered s u a t Q p fin rest w w2"
    if rc: "was_received s u a t Q p fin rest w w1" and k: "ep_room k" for w1 e k
  proof -
    let ?w1 = "call_event EV_SOCKETACTIVITY (polled e k (call_event EV_TICK w1))"
    have "session s u a t P [p] fin ?w1"
      using rc k by (intro session_event session_polled) (simp_all add: was_received_def)
    from packets_sent [OF this _ t] net rc obtain w2 where "SendPackets ?w1 = Inr (0, w2)"
      "if fin then ready s u w2 else session s u a t P [] False w2" "N (nodes (w_fs w2))"
      "sent (w_net w2) = sent (w_net w) @ [(sk_fd s, a, p)]"
      "inq (w_net w2) = inq (w_net w1)" "send_fail (w_net w2) = send_fail (w_net w1)" "nodes (w_fs w2) = nodes (w_fs w1)"
      by (auto simp: was_received_def)
    with rc show ?thesis by (auto simp: was_answered_def was_received_def exchanged_def)
  qed
  have "\<exists>w2. exchange (sk_fd s) w = Inr (call_event EV_TICK w2) \<and> srv_inv (call_event EV_TICK w2)
      \<and> was_answered s u a t Q p fin rest w w2"
    by (rule exchange_run [OF inv w r _ sends]) (auto simp: was_received_def dest: session_mux)
  then obtain w2 where w2: "exchange (sk_fd s) w = Inr (call_event EV_TICK w2)" "srv_inv (call_event EV_TICK w2)"
      "was_answered s u a t Q p fin rest w w2" by blast
  have "if fin then ready s u (call_event EV_TICK w2) else session s u a t P [] False (call_event EV_TICK w2)"
    using w2(3) session_event by (auto simp: was_answered_def)
  with w2 show ?thesis
    by (intro exI [of _ "call_event EV_TICK w2"]) (simp add: was_answered_def exchanged_def)
qed

lemma request_exchange:
  assumes rd: "ready s u w" and q: "inq (w_net w) (sk_fd s) = Recv_packet data a # rest"
    and len: "length data \<le> sk_pktlen s" and nt: "ntop (w_net w) a = Some t"
    and answer: "\<And>cl w'. newcomer w cl w' \<Longrightarrow> answers s data cl w' P Q p fin"
    and net: "\<And>n. \<not> send_fail (w_net w) n" and t: "NUL \<notin> set t" "t \<noteq> u"
  shows "\<exists>w'. exchange (sk_fd s) w = Inr w' \<and> srv_inv w' \<and> exchanged s a Q [p] rest w w'
    \<and> N (nodes (w_fs w')) \<and> (if fin then ready s u w' else session s u a t P [] False w')"
proof (rule exchange_ends [OF _ _ _ _ _ net t])
  show "srv_inv w"
    using rd by (intro reachable_inv [OF reachable.start]) (simp add: ready_def no_clients_def initial_def heap_wf_brk)
  show "epoll_room (w_mux w)" "w_socks w = s # []" using rd by (simp_all add: ready_def)
  fix e k assume k: "ep_room k"
  let ?w = "call_event EV_SOCKETACTIVITY (polled e k w)"
  have "\<exists>w'. ReceivePackets s ?w = Inr (0, w') \<and> session s u a t P [p] fin w'
    \<and> sent (w_net w') = sent (w_net ?w) \<and> inq (w_net w') = (inq (w_net ?w))(sk_fd s := rest)
    \<and> send_fail (w_net w') = send_fail (w_net ?w) \<and> (\<forall>q. q \<notin> Q \<longrightarrow> nodes (w_fs w') q = nodes (w_fs ?w) q)"
    by (rule request_received [OF _ _ len]) (use ready_polled [OF rd k] q nt answer in \<open>simp_all add: newcomer_def\<close>)
  then show "\<exists>w1. ReceivePackets s ?w = Inr (0, w1) \<and> was_received s u a t Q p fin rest w w1"
    by (simp add: was_received_def)
qed simp

end

text \<open>A packet that takes a transfer from one state to the next.\<close>

locale packet_step = before: transfer P N + after: transfer P' N'
  for P :: "client \<Rightarrow> world \<Rightarrow> bool" and N and P' :: "client \<Rightarrow> world \<Rightarrow> bool" and N'
begin

lemma packet_exchange:
  assumes inv: "srv_inv w" and ses: "session s u a t P [] False w" and port: "GetPort a \<noteq> 0x8000"
    and len: "length data \<le> sk_pktlen s" and q: "inq (w_net w) (sk_fd s) = Recv_packet data a # rest"
    and answer: "\<And>cl w. P cl w \<Longrightarrow> c_queue cl = [] \<Longrightarrow> answers s data cl w P' Q p fin"
    and net: "\<And>n. \<not> send_fail (w_net w) n" and t: "NUL \<notin> set t" "t \<noteq> u"
  shows "\<exists>w'. exchange (sk_fd s) w = Inr w' \<and> srv_inv w' \<and> exchanged s a Q [p] rest w w'
    \<and> N' (nodes (w_fs w')) \<and> (if fin then ready s u w' else session s u a t P' [] False w')"
proof -
  obtain ss where ss: "epoll_room (w_mux w)" "w_socks w = s # ss" "length ss < 2" using session_mux [OF ses] by blast
  show ?thesis
  proof (rule after.exchange_ends [OF inv ss _ net t])
    fix e k assume k: "ep_room k"
    let ?w = "call_event EV_SOCKETACTIVITY (polled e k w)"
    have ses': "session s u a t P [] False ?w"
      by (intro before.session_event before.session_polled [OF ses k])
    from before.packet_received [OF ses' port len _ answer after.stable] q obtain w1 where
      "ReceivePackets s ?w = Inr (0, w1)" "session s u a t P' [p] fin w1"
        "sent (w_net w1) = sent (w_net w)" "inq (w_net w1) = (inq (w_net w))(sk_fd s := rest)"
        "send_fail (w_net w1) = send_fail (w_net w)" "\<forall>q. q \<notin> Q \<longrightarrow> nodes (w_fs w1) q = nodes (w_fs w) q"
      by auto
    then show "\<exists>w1. ReceivePackets s ?w = Inr (0, w1) \<and> after.was_received s u a t Q p fin rest w w1"
      by (auto simp: after.was_received_def)
  qed
qed

end

end
