(* ===== verification/Conversation.thy ===== *)
theory Conversation
  imports Session
begin

text \<open>
  Whole transfers from datagram to datagram: the rounds in which a client reads a file, or writes one,
  from its request to the removal of the client. The locales of theory Session are interpreted on the
  states \<open>sending\<close> and \<open>receiving\<close> of theory File_Transfer.
\<close>

section \<open>The transfers\<close>

text \<open>Both directions are transfers in the sense of the locale.\<close>

interpretation outgoing: transfer "sending b bs i" "\<lambda>_. True" for b bs i
  by unfold_locales (auto simp: sending_def same_transfer_def reading_def)

interpretation incoming: transfer "receiving path bs" "\<lambda>ns. ns path = Some (Reg bs)" for path bs
  by unfold_locales (auto simp: receiving_def same_transfer_def appending_def)

interpretation ack: packet_step "sending b bs i" "\<lambda>_. True" "sending b bs (Suc i)" "\<lambda>_. True" for b bs i
  by unfold_locales

interpretation block: packet_step "receiving path bs" "\<lambda>ns. ns path = Some (Reg bs)"
    "receiving path (bs @ d)" "\<lambda>ns. ns path = Some (Reg (bs @ d))" for path bs d
  by unfold_locales

lemma rrq_answers:
  assumes n: "newcomer w cl w'" and rrq: "rrq_for (buffer_of s data) w path" and len: "length data \<le> MAX_PACKET_SIZE"
    and fs: "fs_wf (w_fs w)" "nodes (w_fs w) path = Some (Reg bs)" "r_perm (w_fs w) path = 0"
  shows "answers s data cl w' (sending 512 bs 1) {} (data_of 512 bs 0) False"
proof -
  obtain fn mode opt param where pr: "parse_request (buffer_of s data) = Inr (fn, mode, opt, param)"
    "strcasecmp mode ''mail'' \<noteq> 0" "strcasecmp opt ''blksize'' \<noteq> 0" "strcasecmp opt ''tsize'' \<noteq> 0"
    "request_path fn (w_conf w) = Inr path" "field16 0 (buffer_of s data) = Inr PACKET_RRQ"
    using rrq by (auto simp: rrq_for_def split: sum.splits)
  have srv: "serves cl w' (buffer_of s data) path bs" and ok: "client_ok cl w'" and fs': "w_fs w' = w_fs w" "w_conf w' = w_conf w"
    using n pr fs by (simp_all add: serves_def newcomer_def)
  have opt: "request_option (buffer_of s data) = (opt, param)"
    using pr by (simp add: request_option_def)
  have isp: "is_packet PACKET_RRQ (buffer_of s data, length data)"
    using pr len by (simp add: is_packet_def)
  obtain cl2 w4 where run: "ProcessPacket cl (buffer_of s data) (length data) w' = Inr (cl2, w4)"
    and r: "sending 512 bs 1 cl2 w4" "queued cl2 w4 = queued cl w' @ [data_of 512 bs 0]" "c_destroy cl2 = c_destroy cl"
      "nodes (w_fs w4) = nodes (w_fs w')"
    using rrq_sending [OF srv opt pr(3,4) isp] by (auto simp: total_ex)
  have "process_rrq cl (buffer_of s data) (length data) w' = Inr (cl2, w4)"
    using run ProcessPacket_cases(5) [OF isp] by simp
  then have "holding s cl (w_mem w') \<Longrightarrow> tidy s cl w' cl2 w4"
    using rrq_tidy [OF ok pr(1-4)] n pr(5) fs fs' by (simp add: newcomer_def)
  with run r show ?thesis by (simp add: answers_def)
qed

lemma ack_answers:
  assumes snd: "sending b bs i cl w" and isp: "is_packet PACKET_ACK (buffer_of s data, length data)"
  shows "answers s data cl w (sending b bs (Suc i)) {} (data_of b bs i) (length (block_of b i bs) < b)"
proof -
  obtain cl2 w4 where run: "ProcessPacket cl (buffer_of s data) (length data) w = Inr (cl2, w4)"
    and r: "sending b bs (Suc i) cl2 w4" "queued cl2 w4 = queued cl w @ [data_of b bs i]"
      "c_destroy cl2 = (if length (block_of b i bs) < b then 1 else c_destroy cl)" "nodes (w_fs w4) = nodes (w_fs w)"
    using ack_step [OF snd isp] by (auto simp: total_ex)
  have "process_ack cl (buffer_of s data) (length data) w = Inr (cl2, w4)"
    using run ProcessPacket_cases(3) [OF isp] by simp
  then have "holding s cl (w_mem w) \<Longrightarrow> tidy s cl w cl2 w4"
    using ack_tidy snd by (simp add: sending_def)
  with run r show ?thesis by (simp add: answers_def)
qed

text \<open>What a write request needs of the files and the configuration.\<close>

definition wrq_for :: "byte list \<Rightarrow> world \<Rightarrow> string \<Rightarrow> bool" where
  "wrq_for buf w path \<longleftrightarrow> field16 0 buf = Inr PACKET_WRQ \<and> writable path (w_fs w)
     \<and> (case (cf_directory (w_conf w), parse_request buf) of
          (Some dir, Inr (fn, mode, opt, param)) \<Rightarrow> strcasecmp mode ''mail'' \<noteq> 0
            \<and> request_path fn (w_conf w) = Inr path \<and> access_errno path dir (w_fs w) \<noteq> EACCES
        | _ \<Rightarrow> False)"

lemma wrq_answers:
  assumes n: "newcomer w cl w'" and wrq: "wrq_for (buffer_of s data) w path" and len: "length data \<le> MAX_PACKET_SIZE"
    and fs: "fs_wf (w_fs w)"
  shows "answers s data cl w' (receiving path []) {path} (ack_packet 0) False"
proof -
  obtain fn mode opt param dir where pr: "parse_request (buffer_of s data) = Inr (fn, mode, opt, param)"
    "strcasecmp mode ''mail'' \<noteq> 0" "cf_directory (w_conf w) = Some dir" "request_path fn (w_conf w) = Inr path"
    "access_errno path dir (w_fs w) \<noteq> EACCES" "field16 0 (buffer_of s data) = Inr PACKET_WRQ" "writable path (w_fs w)"
    using wrq by (cases "parse_request (buffer_of s data)"; cases "cf_directory (w_conf w)") (auto simp: wrq_for_def)
  have acc: "accepts cl w' (buffer_of s data) path" and ok: "client_ok cl w'" and fs': "w_fs w' = w_fs w" "w_conf w' = w_conf w"
    using n pr fs by (simp_all add: accepts_def newcomer_def)
  have isp: "is_packet PACKET_WRQ (buffer_of s data, length data)"
    using pr len by (simp add: is_packet_def)
  obtain cl2 w4 where run: "ProcessPacket cl (buffer_of s data) (length data) w' = Inr (cl2, w4)"
    and r: "receiving path [] cl2 w4" "queued cl2 w4 = queued cl w' @ [ack_packet 0]" "c_destroy cl2 = c_destroy cl"
      "\<forall>q. q \<noteq> path \<longrightarrow> nodes (w_fs w4) q = nodes (w_fs w') q"
    using wrq_receiving [OF acc isp] by (auto simp: total_ex)
  have "process_wrq cl (buffer_of s data) (length data) w' = Inr (cl2, w4)"
    using run ProcessPacket_cases(4) [OF isp] by simp
  then have "holding s cl (w_mem w') \<Longrightarrow> tidy s cl w' cl2 w4"
    using wrq_tidy [OF ok pr(1,2)] pr fs fs' by simp
  with run r show ?thesis by (simp add: answers_def)
qed

lemma data_answers:
  assumes rcv: "receiving path bs cl w" and arr: "arrives b d (buffer_of s data, length data)"
  shows "answers s data cl w (receiving path (bs @ d)) {path} (ack_packet b) (length d < 512)"
proof -
  note isp = arrivesD(1) [OF arr]
  obtain cl2 w4 where run: "ProcessPacket cl (buffer_of s data) (length data) w = Inr (cl2, w4)"
    and r: "receiving path (bs @ d) cl2 w4" "queued cl2 w4 = queued cl w @ [ack_packet b]"
      "c_destroy cl2 = (if length d < 512 then 1 else c_destroy cl)"
      "\<forall>q. q \<noteq> path \<longrightarrow> nodes (w_fs w4) q = nodes (w_fs w) q"
    using data_step [OF rcv arr] by (auto simp: total_ex)
  have "process_data cl (buffer_of s data) (length data) w = Inr (cl2, w4)"
    using run ProcessPacket_cases(1) [OF isp] by simp
  then have "holding s cl (w_mem w) \<Longrightarrow> tidy s cl w cl2 w4"
    using data_tidy rcv by (simp add: receiving_def)
  with run r show ?thesis by (simp add: answers_def)
qed

section \<open>Packets on the wire\<close>

text \<open>An ACK and a DATA packet in the receive buffer.\<close>

lemma ack_in_buffer:
  assumes "4 \<le> sk_pktlen s"
  shows "length (ack_packet n) \<le> sk_pktlen s" "is_packet PACKET_ACK (buffer_of s (ack_packet n), length (ack_packet n))"
  using assms by (simp_all add: ack_packet_def buffer_of_def is_packet_def field16_def be16_def MAX_PACKET_SIZE_def)

lemma data_in_buffer:
  assumes "length d \<le> 512" "516 \<le> sk_pktlen s"
  shows "length (data_packet b d) \<le> sk_pktlen s" "arrives b d (buffer_of s (data_packet b d), length (data_packet b d))"
  using assms by (simp_all add: data_packet_def buffer_of_def arrives_def be16_def MAX_PACKET_SIZE_def)

section \<open>A file is read\<close>

lemma block_full: "0 < b \<Longrightarrow> Suc i \<le> length bs div b \<Longrightarrow> \<not> length (block_of b i bs) < b"
  by (simp add: block_of_def less_eq_div_iff_mult_less_eq)

lemma block_short:
  assumes "0 < b" "length bs div b \<le> i"
  shows "length (block_of b i bs) < b"
proof -
  have "length bs < b + (length bs div b) * b" by (rule dividend_less_div_times [OF assms(1)])
  also have "\<dots> \<le> b + i * b" using assms(2) by (simp add: mult_le_mono1)
  finally show ?thesis using assms(1) by (simp add: block_of_def)
qed

text \<open>
  One ACK after another: the last block \<open>k\<close> is the one that is not full, or the first that is sent
  when the file is already at its end.
\<close>

lemma acks_exchanged:
  assumes "srv_inv w" "session s u a t (sending b bs i) [] False w"
    and "i + length ns = Suc k" "i \<le> k" "k \<le> max i (length bs div b)"
    and "inq (w_net w) (sk_fd s) = map (\<lambda>n. Recv_packet (ack_packet n) a) ns @ rest"
    and "\<And>n. \<not> send_fail (w_net w) n" and b: "0 < b" "length bs div b \<le> k"
    and s: "4 \<le> sk_pktlen s" "GetPort a \<noteq> 0x8000" "NUL \<notin> set t" "t \<noteq> u"
  shows "\<exists>w'. exchanges (length ns) (sk_fd s) w = Inr w' \<and> ready s u w'
    \<and> exchanged s a {} (map (data_of b bs) [i ..< Suc k]) rest w w'"
  using assms(1-7)
proof (induction ns arbitrary: i w)
  case (Cons n ns)
  note ack = ack_in_buffer [OF s(1), of n]
  have q: "inq (w_net w) (sk_fd s) = Recv_packet (ack_packet n) a # map (\<lambda>n. Recv_packet (ack_packet n) a) ns @ rest"
    using Cons.prems(6) by simp
  from ack.packet_exchange [OF Cons.prems(1,2) s(2) ack(1) q ack_answers [OF _ ack(2)] Cons.prems(7) s(3,4)] obtain w1 where
    w1: "exchange (sk_fd s) w = Inr w1" "srv_inv w1"
      "exchanged s a {} [data_of b bs i] (map (\<lambda>n. Recv_packet (ack_packet n) a) ns @ rest) w w1"
      "if length (block_of b i bs) < b then ready s u w1 else session s u a t (sending b bs (Suc i)) [] False w1"
    by blast
  show ?case
  proof (cases ns)
    case Nil
    then have "i = k" using Cons.prems(3) by simp
    with b have "length (block_of b i bs) < b" by (intro block_short) simp_all
    with w1 Nil \<open>i = k\<close> show ?thesis by simp
  next
    case (Cons n' ns')
    then have "Suc i \<le> k" using Cons.prems(3) by simp
    with Cons.prems(5) have le: "k \<le> length bs div b" by simp
    with \<open>Suc i \<le> k\<close> block_full [OF b(1), of i bs] w1(4)
    have ses: "session s u a t (sending b bs (Suc i)) [] False w1" by simp
    have "\<exists>w'. exchanges (length ns) (sk_fd s) w1 = Inr w' \<and> ready s u w'
        \<and> exchanged s a {} (map (data_of b bs) [Suc i ..< Suc k]) rest w1 w'"
      using Cons.prems \<open>Suc i \<le> k\<close> le w1(3) by (intro Cons.IH [OF w1(2) ses]) (auto simp: exchanged_def)
    then obtain w' where "exchanges (length ns) (sk_fd s) w1 = Inr w'" "ready s u w'"
        "exchanged s a {} (map (data_of b bs) [Suc i ..< Suc k]) rest w1 w'" by blast
    moreover have "[i ..< Suc k] = i # [Suc i ..< Suc k]"
      using \<open>Suc i \<le> k\<close> by (intro upt_conv_Cons) simp
    ultimately show ?thesis
      using w1(1) exchanged_trans [OF w1(3)] by fastforce
  qed
qed simp

text \<open>The last block, from 0: of a file that fits in one block it is the second, which is empty.\<close>

definition last_block :: "byte list \<Rightarrow> nat" where
  "last_block bs = max 1 (length bs div 512)"

text \<open>
  A client asks for a file and acknowledges each packet: it is sent the whole file, and at the end
  the server waits for requests as it did before.
\<close>

lemma read_conversation:
  assumes rd: "ready s u w" and q: "inq (w_net w) (sk_fd s) = Recv_packet data a # map (\<lambda>n. Recv_packet (ack_packet n) a) ns @ rest"
    and len: "length data \<le> sk_pktlen s" "length data \<le> MAX_PACKET_SIZE" and nt: "ntop (w_net w) a = Some t"
    and rrq: "rrq_for (buffer_of s data) w path" and fs: "fs_wf (w_fs w)"
    and fl: "nodes (w_fs w) path = Some (Reg bs)" "r_perm (w_fs w) path = 0" and n: "length ns = last_block bs"
    and net: "\<And>n. \<not> send_fail (w_net w) n" and s: "4 \<le> sk_pktlen s" "GetPort a \<noteq> 0x8000" "NUL \<notin> set t" "t \<noteq> u"
  shows "\<exists>w'. exchanges (Suc (length ns)) (sk_fd s) w = Inr w' \<and> ready s u w'
    \<and> exchanged s a {} (map (data_of 512 bs) [0 ..< Suc (last_block bs)]) rest w w'"
proof -
  from outgoing.request_exchange [OF rd q len(1) nt rrq_answers [OF _ rrq len(2) fs fl] net s(3,4)] obtain w1 where
    w1: "exchange (sk_fd s) w = Inr w1" "srv_inv w1"
      "exchanged s a {} [data_of 512 bs 0] (map (\<lambda>n. Recv_packet (ack_packet n) a) ns @ rest) w w1"
      "session s u a t (sending 512 bs 1) [] False w1"
    by auto
  have "\<exists>w'. exchanges (length ns) (sk_fd s) w1 = Inr w' \<and> ready s u w'
        \<and> exchanged s a {} (map (data_of 512 bs) [1 ..< Suc (last_block bs)]) rest w1 w'"
    using w1(3) n net
    by (intro acks_exchanged [OF w1(2,4) _ _ _ _ _ _ _ s]) (auto simp: exchanged_def last_block_def)
  then obtain w' where "exchanges (length ns) (sk_fd s) w1 = Inr w'" "ready s u w'"
        "exchanged s a {} (map (data_of 512 bs) [1 ..< Suc (last_block bs)]) rest w1 w'" by blast
  moreover have "[0 ..< Suc (last_block bs)] = 0 # [1 ..< Suc (last_block bs)]"
    by (simp add: upt_conv_Cons del: upt_Suc)
  ultimately show ?thesis
    using w1(1) exchanged_trans [OF w1(3)] by fastforce
qed

lemma payloads_whole: "concat (map payload (map (data_of 512 bs) [0 ..< Suc (last_block bs)])) = bs"
proof -
  have "length bs \<le> Suc (last_block bs) * 512"
    using dividend_less_div_times [of 512 "length bs"] by (simp add: last_block_def)
  then show ?thesis
    unfolding payloads_data_of by simp
qed

section \<open>A file is read in blocks of a size the client chooses\<close>

definition rrq_blksize_for :: "byte list \<Rightarrow> world \<Rightarrow> string \<Rightarrow> nat \<Rightarrow> string \<Rightarrow> string \<Rightarrow> bool" where
  "rrq_blksize_for buf w path b opt param \<longleftrightarrow> field16 0 buf = Inr PACKET_RRQ
     \<and> strcasecmp opt ''blksize'' = 0 \<and> strtol param = (int b, False) \<and> 8 \<le> b \<and> b \<le> 65464
     \<and> (case parse_request buf of
          Inr (fn, mode, opt', param') \<Rightarrow> strcasecmp mode ''mail'' \<noteq> 0 \<and> opt' = opt \<and> param' = Some param
            \<and> request_path fn (w_conf w) = Inr path
        | Inl _ \<Rightarrow> False)"

lemma rrq_blksize_answers:
  assumes n: "newcomer w cl w'" and rrq: "rrq_blksize_for (buffer_of s data) w path b opt param"
    and len: "length data \<le> MAX_PACKET_SIZE"
    and fs: "fs_wf (w_fs w)" "nodes (w_fs w) path = Some (Reg bs)" "r_perm (w_fs w) path = 0"
  shows "answers s data cl w' (sending b bs 0) {} (oack_packet opt param) False"
proof -
  let ?buf = "buffer_of s data"
  obtain fn mode where pr: "parse_request ?buf = Inr (fn, mode, opt, Some param)"
    "strcasecmp mode ''mail'' \<noteq> 0" "request_path fn (w_conf w) = Inr path" "field16 0 ?buf = Inr PACKET_RRQ"
    and o: "strcasecmp opt ''blksize'' = 0" "strtol param = (int b, False)" "8 \<le> int b" "int b \<le> 65464"
    using rrq by (auto simp: rrq_blksize_for_def split: sum.splits)
  have srv: "serves cl w' ?buf path bs" and ok: "client_ok cl w'" and fs': "w_fs w' = w_fs w" "w_conf w' = w_conf w"
    using n pr fs by (simp_all add: serves_def newcomer_def)
  have opt: "request_option ?buf = (opt, Some param)"
    using pr by (simp add: request_option_def)
  have isp: "is_packet PACKET_RRQ (?buf, length data)"
    using pr len by (simp add: is_packet_def)
  obtain cl2 w4 where run: "ProcessPacket cl ?buf (length data) w' = Inr (cl2, w4)"
    and r: "sending (nat (int b)) bs 0 cl2 w4" "queued cl2 w4 = queued cl w' @ [oack_packet opt param]"
      "c_destroy cl2 = c_destroy cl" "nodes (w_fs w4) = nodes (w_fs w')"
    using rrq_blksize_sending [OF srv opt o isp] by (auto simp: total_ex)
  have "process_rrq cl ?buf (length data) w' = Inr (cl2, w4)"
    using run ProcessPacket_cases(5) [OF isp] by simp
  then have "holding s cl (w_mem w') \<Longrightarrow> tidy s cl w' cl2 w4"
    using rrq_blksize_tidy [OF ok pr(1,2) o] n pr(3) fs fs' by (simp add: newcomer_def)
  with run r show ?thesis by (simp add: answers_def)
qed

text \<open>
  The request is answered by \<open>OptionAcknowledge\<close>, whose packet has no readable value (\<open>oack_packet_bytes\<close>),
  and each ACK, of it and of the blocks, by the next block.
\<close>

lemma oack_packet_bytes:
  assumes "rrq_blksize_for buf w path b opt param"
  shows "oack_packet opt param = be16 6 @ opt @ [NUL] @ (NUL # tl param) @ [NUL] @ [NUL, NUL]"
proof -
  have "strtol param = (int b, False)" "8 \<le> b"
    using assms by (auto simp: rrq_blksize_for_def split: sum.splits)
  moreover have "strtol [] = (0, False)" by code_simp
  ultimately have "param \<noteq> []" by auto
  then show ?thesis by (rule oack_packet_nonempty)
qed

lemma blksize_conversation:
  assumes rd: "ready s u w" and q: "inq (w_net w) (sk_fd s) = Recv_packet data a # map (\<lambda>n. Recv_packet (ack_packet n) a) ns @ rest"
    and len: "length data \<le> sk_pktlen s" "length data \<le> MAX_PACKET_SIZE" and nt: "ntop (w_net w) a = Some t"
    and rrq: "rrq_blksize_for (buffer_of s data) w path b opt param" and fs: "fs_wf (w_fs w)"
    and fl: "nodes (w_fs w) path = Some (Reg bs)" "r_perm (w_fs w) path = 0" and n: "length ns = Suc (length bs div b)"
    and net: "\<And>n. \<not> send_fail (w_net w) n" and s: "4 \<le> sk_pktlen s" "GetPort a \<noteq> 0x8000" "NUL \<notin> set t" "t \<noteq> u"
  shows "\<exists>w'. exchanges (Suc (length ns)) (sk_fd s) w = Inr w' \<and> ready s u w'
    \<and> exchanged s a {} (oack_packet opt param # map (data_of b bs) [0 ..< length ns]) rest w w'"
proof -
  from outgoing.request_exchange [OF rd q len(1) nt rrq_blksize_answers [OF _ rrq len(2) fs fl] net s(3,4)] obtain w1 where
    w1: "exchange (sk_fd s) w = Inr w1" "srv_inv w1"
      "exchanged s a {} [oack_packet opt param] (map (\<lambda>n. Recv_packet (ack_packet n) a) ns @ rest) w w1"
      "session s u a t (sending b bs 0) [] False w1"
    by auto
  have "0 < b" using rrq by (simp add: rrq_blksize_for_def)
  then have "\<exists>w'. exchanges (length ns) (sk_fd s) w1 = Inr w' \<and> ready s u w'
        \<and> exchanged s a {} (map (data_of b bs) [0 ..< Suc (length bs div b)]) rest w1 w'"
    using w1(3) n net
    by (intro acks_exchanged [OF w1(2,4) _ _ _ _ _ _ _ s]) (auto simp: exchanged_def)
  then obtain w' where "exchanges (length ns) (sk_fd s) w1 = Inr w'" "ready s u w'"
        "exchanged s a {} (map (data_of b bs) [0 ..< Suc (length bs div b)]) rest w1 w'" by blast
  with w1(1) exchanged_trans [OF w1(3)] n show ?thesis by fastforce
qed

lemma blksize_payloads_whole:
  assumes "rrq_blksize_for buf w path b opt param"
  shows "concat (map payload (map (data_of b bs) [0 ..< Suc (length bs div b)])) = bs"
proof -
  have "0 < b" using assms by (simp add: rrq_blksize_for_def)
  then have "length bs \<le> Suc (length bs div b) * b"
    using dividend_less_div_times [of b "length bs"] by simp
  then show ?thesis
    unfolding payloads_data_of by simp
qed

section \<open>A file is written\<close>

text \<open>The blocks of a file: full ones, and a short one at the end.\<close>

fun whole_file :: "byte list list \<Rightarrow> bool" where
  "whole_file [] = False"
| "whole_file [d] = (length d < 512)"
| "whole_file (d # ds) = (length d = 512 \<and> whole_file ds)"

text \<open>The blocks as RFC 783 numbers them: from 1, each number one more than the last, in 16 bits.\<close>

definition numbered :: "byte list list \<Rightarrow> (16 word \<times> byte list) list" where
  "numbered ds = map (\<lambda>(i, d). (of_nat i, d)) (enumerate 1 ds)"

lemma whole_file_short:
  assumes "whole_file (map snd xs)"
  shows "\<exists>(b, d) \<in> set xs. length d < 512"
proof -
  have "\<exists>d \<in> set ds. length d < 512" if "whole_file ds" for ds
    using that by (induction ds rule: whole_file.induct) auto
  from this [OF assms] show ?thesis by (auto simp: case_prod_unfold)
qed

lemma numbered_snd [simp]: "map snd (numbered ds) = ds"
  by (simp add: numbered_def case_prod_unfold comp_def)

lemma length_numbered [simp]: "length (numbered ds) = length ds"
  by (simp add: numbered_def)

lemma numbered_acks: "map (\<lambda>(b, d). ack_packet b) (numbered ds) = map (\<lambda>i. ack_packet (of_nat i)) [1 ..< Suc (length ds)]"
proof -
  have "map (\<lambda>(b, d). ack_packet b) (numbered ds) = map (\<lambda>i. ack_packet (of_nat i)) (map fst (enumerate 1 ds))"
    by (simp add: numbered_def case_prod_unfold comp_def del: map_fst_enumerate)
  also have "map fst (enumerate 1 ds) = [1 ..< Suc (length ds)]"
    unfolding map_fst_enumerate by (simp del: upt_Suc)
  finally show ?thesis .
qed

lemma numbered_all_acks: "ack_packet 0 # map (\<lambda>(b, d). ack_packet b) (numbered ds)
    = map (\<lambda>i. ack_packet (of_nat i)) [0 ..< Suc (length ds)]"
  by (simp add: numbered_acks upt_conv_Cons del: upt_Suc)

lemma datas_exchanged:
  assumes "srv_inv w" "session s u a t (receiving path bs) [] False w" "whole_file (map snd xs)"
    and "inq (w_net w) (sk_fd s) = map (\<lambda>(b, d). Recv_packet (data_packet b d) a) xs @ rest"
    and "\<And>n. \<not> send_fail (w_net w) n" and s: "516 \<le> sk_pktlen s" "GetPort a \<noteq> 0x8000" "NUL \<notin> set t" "t \<noteq> u"
  shows "\<exists>w'. exchanges (length xs) (sk_fd s) w = Inr w' \<and> ready s u w'
    \<and> nodes (w_fs w') path = Some (Reg (bs @ concat (map snd xs)))
    \<and> exchanged s a {path} (map (\<lambda>(b, d). ack_packet b) xs) rest w w'"
  using assms(1-5)
proof (induction xs arbitrary: bs w)
  case (Cons x xs)
  obtain b d where x: "x = (b, d)" by force
  have d: "length d \<le> 512" using Cons.prems(3) by (cases xs) (simp_all add: x)
  note dat = data_in_buffer [OF d s(1), of b]
  have q: "inq (w_net w) (sk_fd s) = Recv_packet (data_packet b d) a # map (\<lambda>(b, d). Recv_packet (data_packet b d) a) xs @ rest"
    using Cons.prems(4) x by simp
  from block.packet_exchange [OF Cons.prems(1,2) s(2) dat(1) q data_answers [OF _ dat(2)] Cons.prems(5) s(3,4)] obtain w1 where
    w1: "exchange (sk_fd s) w = Inr w1" "srv_inv w1" "nodes (w_fs w1) path = Some (Reg (bs @ d))"
      "exchanged s a {path} [ack_packet b] (map (\<lambda>(b, d). Recv_packet (data_packet b d) a) xs @ rest) w w1"
      "if length d < 512 then ready s u w1 else session s u a t (receiving path (bs @ d)) [] False w1"
    by blast
  show ?case
  proof (cases xs)
    case Nil
    with Cons.prems(3) w1 x show ?thesis by simp
  next
    case (Cons x' xs')
    with Cons.prems(3) x have d512: "length d = 512" "whole_file (map snd xs)" by simp_all
    with w1(5) have ses: "session s u a t (receiving path (bs @ d)) [] False w1" by simp
    have "\<exists>w'. exchanges (length xs) (sk_fd s) w1 = Inr w' \<and> ready s u w'
        \<and> nodes (w_fs w') path = Some (Reg ((bs @ d) @ concat (map snd xs)))
        \<and> exchanged s a {path} (map (\<lambda>(b, d). ack_packet b) xs) rest w1 w'"
      using Cons.prems(5) w1(4) by (intro Cons.IH [OF w1(2) ses d512(2)]) (simp_all add: exchanged_def)
    then obtain w' where "exchanges (length xs) (sk_fd s) w1 = Inr w'" "ready s u w'"
        "nodes (w_fs w') path = Some (Reg ((bs @ d) @ concat (map snd xs)))"
        "exchanged s a {path} (map (\<lambda>(b, d). ack_packet b) xs) rest w1 w'" by blast
    with w1(1) exchanged_trans [OF w1(4)] x show ?thesis by fastforce
  qed
qed simp

lemma write_conversation:
  assumes rd: "ready s u w" and q: "inq (w_net w) (sk_fd s) = Recv_packet data a # map (\<lambda>(b, d). Recv_packet (data_packet b d) a) xs @ rest"
    and len: "length data \<le> sk_pktlen s" "length data \<le> MAX_PACKET_SIZE" and nt: "ntop (w_net w) a = Some t"
    and wrq: "wrq_for (buffer_of s data) w path" and fs: "fs_wf (w_fs w)" and xs: "whole_file (map snd xs)"
    and net: "\<And>n. \<not> send_fail (w_net w) n" and s: "516 \<le> sk_pktlen s" "GetPort a \<noteq> 0x8000" "NUL \<notin> set t" "t \<noteq> u"
  shows "\<exists>w'. exchanges (Suc (length xs)) (sk_fd s) w = Inr w' \<and> ready s u w'
    \<and> nodes (w_fs w') path = Some (Reg (concat (map snd xs)))
    \<and> exchanged s a {path} (ack_packet 0 # map (\<lambda>(b, d). ack_packet b) xs) rest w w'"
proof -
  from incoming.request_exchange [OF rd q len(1) nt wrq_answers [OF _ wrq len(2) fs] net s(3,4)] obtain w1 where
    w1: "exchange (sk_fd s) w = Inr w1" "srv_inv w1"
      "exchanged s a {path} [ack_packet 0] (map (\<lambda>(b, d). Recv_packet (data_packet b d) a) xs @ rest) w w1"
      "session s u a t (receiving path []) [] False w1"
    by auto
  have "\<exists>w'. exchanges (length xs) (sk_fd s) w1 = Inr w' \<and> ready s u w'
        \<and> nodes (w_fs w') path = Some (Reg ([] @ concat (map snd xs)))
        \<and> exchanged s a {path} (map (\<lambda>(b, d). ack_packet b) xs) rest w1 w'"
    using w1(3) net by (intro datas_exchanged [OF w1(2,4) xs _ _ s]) (simp_all add: exchanged_def)
  then obtain w' where "exchanges (length xs) (sk_fd s) w1 = Inr w'" "ready s u w'"
      "nodes (w_fs w') path = Some (Reg (concat (map snd xs)))"
      "exchanged s a {path} (map (\<lambda>(b, d). ack_packet b) xs) rest w1 w'" by auto
  with w1(1) exchanged_trans [OF w1(3)] show ?thesis by fastforce
qed

end
