(* ===== verification/Config_Properties.thy ===== *)
theory Config_Properties
  imports Config_Life Demo
begin

text \<open>
  The properties of the configuration, with the inputs of their witnesses: a configuration file,
  a file system that holds it, and a heap in which nothing is configured yet.
\<close>

section \<open>A concrete configuration\<close>

definition demo_blocks :: "(action \<times> action list) list" where
  "demo_blocks =
     [(Server_entry, [Server_directory ''/srv'', Server_user ''tftp'', Server_readtimeout 1, Server_daemonize False]),
      (Listen_entry, [Listen_bind ''1.2.3.4'', Listen_port 6969]),
      (Module_entry, [Module_name ''log'', Module_path ''log.so''])]"

definition demo_etc :: "string \<Rightarrow> filesys" where
  "demo_etc s = demo_fs\<lparr>nodes := (nodes demo_fs)(''/etc/nb'' \<mapsto> Reg s)\<rparr>"

definition demo_cfgs :: cfgs where
  "demo_cfgs = \<lparr>cg_mem = demo_heap, confs = Map.empty, listens = Map.empty, cmods = Map.empty,
     gconfig = NULL, curblock = NULL, curmod = NULL\<rparr>"

lemma demo_blocks_ok: "list_all block_ok demo_blocks"
  by (simp add: demo_blocks_def block_ok_def item_tokens_def conf_items_def item_defs value_ok_def is_quote_end_def)

lemma demo_etc_file:
  "fs_wf (demo_etc s)" "nodes (demo_etc s) ''/etc/nb'' = Some (Reg s)" "r_perm (demo_etc s) ''/etc/nb'' = 0"
  by (simp_all add: demo_etc_def demo_fs_def fs_wf_def)

lemma demo_cfgs_ok: "config_inv 0 demo_cfgs" "mem_ok (cg_mem demo_cfgs)"
  by (simp_all add: config_inv_def stores_wf_def heap_wf_def demo_cfgs_def demo_heap_def mem_ok_def)

definition demo_actions :: "action list" where
  "demo_actions = concat (map (\<lambda>(a, is). a # is) demo_blocks)"

lemma demo_parse: "yyparse (lex (print_config demo_blocks)) = (demo_actions, True)"
  unfolding demo_actions_def by (rule parse_printed [OF demo_blocks_ok])

definition demo_aconfig :: aconfig where
  "demo_aconfig = \<lparr>a_directory = Some ''/srv'', a_user = Some ''tftp'', a_group = None,
     a_pidfile = Some ''/var/run/nbstftp.pid'', a_modsearchpath = None, a_daemonize = 0, a_fixpath = 1,
     a_readtimeout = 5, a_listens = [(Some ''1.2.3.4'', 6969)], a_modules = [(Some ''log'', Some ''log.so'')]\<rparr>"

lemma demo_meaning: "spec_check (fold spec_act demo_actions x) = (0, Some demo_aconfig)"
  by (simp add: demo_actions_def demo_blocks_def demo_aconfig_def default_config_def on_last_def
      bool_char_def spec_check_def)

text \<open>The file is read.\<close>

lemma demo_read:
  obtains fs' g' where "ParseConfig ''/etc/nb'' (0, demo_etc (print_config demo_blocks)) demo_cfgs = Inr (0, (0, fs'), g')"
    "config_inv 0 g'" "mem_ok (cg_mem g')" "gconfig g' \<noteq> NULL" "abs_config g' = Some demo_aconfig"
proof -
  obtain r fs' g' where r: "ParseConfig ''/etc/nb'' (0, demo_etc (print_config demo_blocks)) demo_cfgs = Inr (r, (0, fs'), g')"
    "config_inv 0 g'" "old_kept 0 demo_cfgs g'" "(r, abs_config g') = (0, Some demo_aconfig)"
    using ParseConfig_ok [OF demo_etc_file demo_cfgs_ok _ demo_parse, of 0]
    by (auto simp: demo_meaning)
  moreover have "mem_ok (cg_mem g')"
    using r(3) demo_cfgs_ok(2) by (simp add: old_kept_def mem_ok_def)
  moreover have "gconfig g' \<noteq> NULL"
    using r(4) by (auto simp: abs_config_Some)
  ultimately show ?thesis using that by simp
qed

section \<open>Properties\<close>

text \<open>
  C8. A configuration written down block by block and item by item is read back exactly: the
  scanner and the grammar turn its text into the actions of these blocks and items, in order,
  and accept the file.
\<close>

theorem config_round_trip:
  "list_all block_ok bs \<Longrightarrow> yyparse (lex (print_config bs)) = (concat (map (\<lambda>(a, is). a # is) bs), True)"
  by (rule parse_printed)

theorem config_round_trip_witness:
  "yyparse (lex (print_config [(Listen_entry, [Listen_port 69]), (Server_entry, [Server_directory ''/srv''])]))
    = ([Listen_entry, Listen_port 69, Server_entry, Server_directory ''/srv''], True)"
  using config_round_trip [of "[(Listen_entry, [Listen_port 69]), (Server_entry, [Server_directory ''/srv''])]"]
  by (simp add: block_ok_def item_tokens_def conf_items_def item_defs value_ok_def is_quote_end_def)

text \<open>
  C7. \<open>ParseConfig\<close> implements the meaning of the file: on a readable file that the grammar
  accepts, with memory available, it ends without a fault, and what it returns and the
  configuration it leaves in the heap are those of the actions of the file performed on plain
  data, followed by the checks. The configuration in the heap is well formed.
\<close>

theorem config_refines:
  assumes "fs_wf fs" "nodes fs path = Some (Reg s)" "r_perm fs path = 0"
    and "config_inv 0 g" "mem_ok (cg_mem g)" "yyparse (lex s) = (as, True)"
  shows "\<exists>r fs' g'. ParseConfig path (e, fs) g = Inr (r, (e, fs'), g') \<and> nodes fs' = nodes fs
    \<and> config_inv 0 g' \<and> (r, abs_config g') = spec_check (fold spec_act as (abs_config g))"
  using ParseConfig_ok [OF assms(1-5) _ assms(6), of e] by auto

theorem config_refines_witness:
  "\<exists>fs' g'. ParseConfig ''/etc/nb'' (0, demo_etc (print_config demo_blocks)) demo_cfgs = Inr (0, (0, fs'), g')
    \<and> config_inv 0 g' \<and> abs_config g' = Some demo_aconfig"
  using config_refines [OF demo_etc_file demo_cfgs_ok demo_parse, of 0] by (auto simp: demo_meaning)

text \<open>
  C9. Whatever the file holds, a configuration that \<open>ParseConfig\<close> accepts is well formed: it is
  alive in the heap and owns what it points to exactly once, has a directory and the name of a pid
  file, and a read timeout of at least 2 seconds.
\<close>

theorem config_well_formed:
  assumes "fs_wf fs" "nodes fs path = Some (Reg s)" "config_inv 0 g" "mem_ok (cg_mem g)"
    and "ParseConfig path (e, fs) g = Inr (0, st, g')"
  shows "config_inv 0 g' \<and> (\<exists>c. confs g' (gconfig g') = Some c \<and> directory c \<noteq> Null_str
    \<and> pidfile c \<noteq> Heap_str Null_str \<and> 2 \<le> sint (readtimeout c))"
proof -
  obtain v c where "config_inv 0 g'" "confs g' (gconfig g') = Some c" "v = abs_conf g' c"
    "a_directory v \<noteq> None" "a_pidfile v \<noteq> None" "2 \<le> sint (a_readtimeout v)"
    by (rule ParseConfig_accepted [OF assms])
  then show ?thesis by (auto simp: abs_conf_def)
qed

theorem config_well_formed_witness:
  "\<exists>st g' c. ParseConfig ''/etc/nb'' (0, demo_etc (print_config demo_blocks)) demo_cfgs = Inr (0, st, g')
    \<and> config_inv 0 g' \<and> confs g' (gconfig g') = Some c \<and> 2 \<le> sint (readtimeout c)"
proof -
  obtain fs' g' where r:
    "ParseConfig ''/etc/nb'' (0, demo_etc (print_config demo_blocks)) demo_cfgs = Inr (0, (0, fs'), g')"
    by (rule demo_read)
  with config_well_formed [OF demo_etc_file(1,2) demo_cfgs_ok r] show ?thesis by blast
qed

text \<open>
  C10. The configuration that \<open>ParseConfig\<close> accepts can be given back: \<open>DeallocateConfig\<close> frees
  it without freeing or reading anything twice.
\<close>

theorem config_freed_once:
  assumes "fs_wf fs" "nodes fs path = Some (Reg s)" "config_inv 0 g" "mem_ok (cg_mem g)"
    and "ParseConfig path (e, fs) g = Inr (0, st, g')"
  shows "\<exists>g''. DeallocateConfig (gconfig g') g' = Inr g'' \<and> confs g'' (gconfig g') = None"
  by (rule ParseConfig_accepted [OF assms]) (auto dest: DeallocateConfig_in_force)

theorem config_freed_once_witness:
  "\<exists>st g' g''. ParseConfig ''/etc/nb'' (0, demo_etc (print_config demo_blocks)) demo_cfgs = Inr (0, st, g')
    \<and> DeallocateConfig (gconfig g') g' = Inr g''"
proof -
  obtain fs' g' where r:
    "ParseConfig ''/etc/nb'' (0, demo_etc (print_config demo_blocks)) demo_cfgs = Inr (0, (0, fs'), g')"
    by (rule demo_read)
  with config_freed_once [OF demo_etc_file(1,2) demo_cfgs_ok r] show ?thesis by blast
qed

text \<open>
  C21. On SIGHUP a file with a server block replaces the configuration: the old one is freed, the
  new one is in force and well formed, and it is what the file means but for its listen and
  module blocks, which are freed with the old configuration.
\<close>

theorem rehash_installs_new_config:
  assumes "fs_wf fs" "nodes fs path = Some (Reg s)" "r_perm fs path = 0"
    and "config_inv 0 g" "mem_ok (cg_mem g)" "gconfig g \<noteq> NULL"
    and "yyparse (lex s) = (as, True)" "Server_entry \<in> set as"
    and "spec_check (fold spec_act as (abs_config g)) = (0, Some v)"
  shows "\<exists>fs' g'. rehash path (e, fs) g = Inr ((e, fs'), g') \<and> config_inv 0 g'
    \<and> gconfig g' \<noteq> gconfig g \<and> confs g' (gconfig g) = None
    \<and> abs_config g' = Some (v\<lparr>a_listens := [], a_modules := []\<rparr>)"
  using rehash_replaces [OF assms, of e] by auto

theorem rehash_installs_new_config_witness:
  "\<exists>g fs' g'. config_inv 0 g \<and> rehash ''/etc/nb'' (0, demo_etc (print_config demo_blocks)) g = Inr ((0, fs'), g')
    \<and> config_inv 0 g' \<and> confs g' (gconfig g) = None
    \<and> abs_config g' = Some (demo_aconfig\<lparr>a_listens := [], a_modules := []\<rparr>)"
proof -
  obtain g where g: "config_inv 0 g" "mem_ok (cg_mem g)" "gconfig g \<noteq> NULL"
    by (rule demo_read)
  have "Server_entry \<in> set demo_actions"
    by (simp add: demo_actions_def demo_blocks_def)
  from rehash_installs_new_config [OF demo_etc_file g demo_parse this demo_meaning, of 0] g(1)
  show ?thesis by blast
qed

text \<open>
  C22. On SIGHUP a file without a server block leaves the program with a dangling
  configuration: the items are added to the configuration in force, and then it is freed
  while it stays in force.
\<close>

theorem rehash_without_server_dangles:
  assumes "fs_wf fs" "nodes fs path = Some (Reg s)" "r_perm fs path = 0"
    and "config_inv 0 g" "mem_ok (cg_mem g)" "abs_config g = Some v" "a_directory v \<noteq> None"
    and "yyparse (lex s) = (as, True)" "Server_entry \<notin> set as"
  shows "\<exists>fs' g'. rehash path (e, fs) g = Inr ((e, fs'), g') \<and> gconfig g' = gconfig g
    \<and> config_at (gconfig g') g' = Inl Use_after_free"
proof -
  have "gconfig g \<noteq> NULL"
    using assms(6) by (auto simp: abs_config_Some)
  with rehash_dangling [OF assms(1-5) this _ assms(8,9), of e] assms(6,7)
  obtain fs' g' where "rehash path (e, fs) g = Inr ((e, fs'), g')" "gconfig g' = gconfig g"
    "confs g' (gconfig g') = None" by auto
  moreover have "config_at (gconfig g') g' = Inl Use_after_free"
    using calculation \<open>gconfig g \<noteq> NULL\<close> by (simp add: at_def)
  ultimately show ?thesis by blast
qed

theorem rehash_without_server_dangles_witness:
  "\<exists>g fs' g'. config_inv 0 g \<and> rehash ''/etc/nb'' (0, demo_etc (print_config [(Listen_entry, [Listen_port 69])])) g
      = Inr ((0, fs'), g') \<and> config_at (gconfig g') g' = Inl Use_after_free"
proof -
  obtain g where g: "config_inv 0 g" "mem_ok (cg_mem g)" "abs_config g = Some demo_aconfig"
    by (rule demo_read)
  let ?bs = "[(Listen_entry, [Listen_port 69])]"
  have "list_all block_ok ?bs"
    by (simp add: block_ok_def item_tokens_def conf_items_def item_defs value_ok_def)
  from parse_printed [OF this] have "yyparse (lex (print_config ?bs)) = ([Listen_entry, Listen_port 69], True)"
    by simp
  from rehash_without_server_dangles [OF demo_etc_file g _ this, of 0] g(1)
  show ?thesis by (auto simp: demo_aconfig_def)
qed

end
