(* ===== verification/Program_Properties.thy ===== *)
theory Program_Properties
  imports Program_Inv Conversation Config_Properties
begin

text \<open>
  The properties of the whole process: start-up, the command line, the listening sockets, the pid
  file, the change of user and group, the rounds of the multiplexers, and a request followed from its
  datagram to the answer and through whole transfers. The witnesses start a concrete process, \<open>start_proc\<close> on
  the system \<open>start_sys\<close>, with a configuration file that is scanned and parsed; the lemmas
  \<open>start_load\<close> to \<open>start_demo\<close> follow \<open>main\<close> through its stages.
\<close>

section \<open>A concrete start\<close>

definition start_blocks :: "(action \<times> action list) list" where
  "start_blocks =
     [(Server_entry, [Server_directory ''/srv'', Server_pidfile ''/run/nb'']),
      (Listen_entry, [Listen_bind ''1.2.3.4''])]"

definition start_sys :: system where
  "start_sys = \<lparr>getpwnam = (\<lambda>u. if u = ''tftp'' then Some (9, 9) else None),
     getgrnam = (\<lambda>g. if g = ''daemon'' then Some 8 else None),
     s_perms = (\<lambda>_. (\<lambda>_. 0, \<lambda>_. 0, \<lambda>_. 0)), chown_ok = (\<lambda>_. True), chmod_ok = (\<lambda>_. True),
     isatty = (\<lambda>_. True), s_fork = 0, child_pid = 7, setpgid_ok = True, kill_0 = (\<lambda>pid. pid = 0),
     inet_pton4 = (\<lambda>_. Some 16909060), inet_pton6 = (\<lambda>_. None), s_socket = (\<lambda>k. 3 + int k),
     nonblock_ok = (\<lambda>_. True), bind_ok = (\<lambda>_ _. True), epoll_created = True, s_dlopen = (\<lambda>_. None),
     LICENSE = ''MIT'', default_conf = ''/etc/nb''\<rparr>"

definition start_proc :: proc where
  "start_proc = \<lparr>p_world = demo_world\<lparr>w_fs := demo_etc (print_config start_blocks)\<rparr>,
     p_cfgs = demo_cfgs, p_opts = \<lparr>nofork = - 1, configfile = None, wait_for_conf = False\<rparr>,
     p_running = True, p_creds = \<lparr>ruid = 0, euid = 0, suid = 0, rgid = 0, egid = 0, sgid = 0\<rparr>,
     p_pid = 6, p_segv = 0, p_nsock = 0, p_handled = (\<lambda>_. False), p_calls = []\<rparr>"

lemma start_parse: "yyparse (lex (print_config start_blocks))
  = ([Server_entry, Server_directory ''/srv'', Server_pidfile ''/run/nb'', Listen_entry, Listen_bind ''1.2.3.4''], True)"
proof -
  have "list_all block_ok start_blocks"
    by (simp add: start_blocks_def block_ok_def item_tokens_def conf_items_def item_defs value_ok_def is_quote_end_def)
  from parse_printed [OF this] show ?thesis by (simp add: start_blocks_def)
qed

lemma start_args: "HandleArguments (LICENSE start_sys) (w_mem (p_world start_proc)) [''nbstftp''] (p_opts start_proc)
  = Inr (p_opts start_proc)"
  by (simp add: HandleArguments_def start_proc_def)

definition start_conf :: config_t where
  "start_conf = \<lparr>directory = Dup 2 ''/srv'', user = Null_str, group = Null_str, pidfile = Heap_str (Dup 3 ''/run/nb''),
     modsearchpath = Null_str, daemonize = 1, fixpath = 1, readtimeout = 5, listenblocks = [4], moduleblocks = []\<rparr>"

lemmas acts_defs = server_entry_def new_config_def listen_entry_def on_config_def on_listen_def at_def set_str_def
  dup_def strdup_def malloc_def nmalloc_def sizeof_config_def sizeof_listen_def list_push_def zero_config_def memset_def store_def


lemma start_acts:
  obtains g where "fold_res act [Server_entry, Server_directory ''/srv'', Server_pidfile ''/run/nb'', Listen_entry,
      Listen_bind ''1.2.3.4''] demo_cfgs = Inr g"
    "gconfig g = 1" "confs g 1 = Some start_conf" "listens g 4 = Some \<lparr>l_bindaddr = Dup 6 ''1.2.3.4'', l_port = - 1\<rparr>"
    "mem_ok (cg_mem g)" "brk (cg_mem g) = 7"
  by (simp add: demo_cfgs_def demo_heap_def acts_defs start_conf_def mem_ok_def)

text \<open>The first part of the start: the configuration is read and the pid file written.\<close>

definition start_opts :: options where
  "start_opts = \<lparr>nofork = - 1, configfile = Some ''/etc/nb'', wait_for_conf = False\<rparr>"

definition configured :: "proc \<Rightarrow> bool" where
  "configured p \<longleftrightarrow> p_opts p = start_opts \<and> gconfig (p_cfgs p) = 1 \<and> confs (p_cfgs p) 1 = Some start_conf
     \<and> listens (p_cfgs p) 4 = Some \<lparr>l_bindaddr = Dup 6 ''1.2.3.4'', l_port = - 1\<rparr> \<and> mem_ok (w_mem (p_world p)) \<and> 0 < brk (w_mem (p_world p))
     \<and> p_pid p = 6 \<and> p_nsock p = 0 \<and> w_mux (p_world p) = w_mux demo_world \<and> w_errno (p_world p) \<noteq> ENOMEM
     \<and> fs_wf (w_fs (p_world p)) \<and> c_perm (w_fs (p_world p)) ''/run/nb'' = 0"

lemma start_load:
  obtains p where "load_config (RegisterSignalHandlers (start_proc\<lparr>p_opts := start_opts\<rparr>)) = Inr (0, p)"
    "configured p" "nodes (w_fs (p_world p)) ''/run/nb'' = None"
proof -
  obtain g where g: "fold_res act [Server_entry, Server_directory ''/srv'', Server_pidfile ''/run/nb'', Listen_entry,
      Listen_bind ''1.2.3.4''] demo_cfgs = Inr g"
    "gconfig g = 1" "confs g 1 = Some start_conf" "listens g 4 = Some \<lparr>l_bindaddr = Dup 6 ''1.2.3.4'', l_port = - 1\<rparr>"
    "mem_ok (cg_mem g)" "brk (cg_mem g) = 7"
    by (rule start_acts)
  have check: "check_config g = Inr (0, g\<lparr>confs := (confs g)(1 \<mapsto> start_conf)\<rparr>)"
    using g by (simp add: check_config_def at_def on_config_def start_conf_def)
  have "get_config (RegisterSignalHandlers (start_proc\<lparr>p_opts := start_opts\<rparr>)) = demo_cfgs"
    by (simp add: get_config_def RegisterSignalHandlers_def start_proc_def demo_cfgs_def demo_world_def)
  moreover have "parse_text (print_config start_blocks) demo_cfgs = Inr g"
    using g(1) by (simp add: parse_text_def start_parse del: fold_res.simps)
  ultimately have "\<exists>p. load_config (RegisterSignalHandlers (start_proc\<lparr>p_opts := start_opts\<rparr>)) = Inr (0, p)
      \<and> configured p \<and> nodes (w_fs (p_world p)) ''/run/nb'' = None"
    using ParseConfig_read [OF demo_etc_file] check g
    by (simp add: load_config_def RegisterSignalHandlers_def start_proc_def start_opts_def put_config_def
        configured_def demo_world_def demo_etc_def demo_fs_def fs_wf_def ENOMEM_def)
  then show ?thesis using that by blast
qed

lemma start_pid_file:
  assumes "configured p" "nodes (w_fs (p_world p)) ''/run/nb'' = None"
  obtains p' where "WritePID start_sys p = Inr p'" "configured p'"
proof -
  have "\<exists>p'. WritePID start_sys p = Inr p' \<and> configured p'"
    using assms
    by (simp add: configured_def WritePID_def get_config_def at_def start_conf_def FileExists_def
        write_pid_file_def fopen_write_def open_handle_def fwrite_def fclose_def stream_def Let_def fs_wf_def
        ENOENT_def ENOMEM_def less_Suc_eq)
  then show ?thesis using that by blast
qed

lemma start_modules:
  assumes "configured p"
  obtains p' where "load_modules start_sys (p\<lparr>p_world := (p_world p)\<lparr>w_pool := []\<rparr>\<rparr>) = Inr p'" "configured p'"
  using assms
  by (simp add: load_modules_def configured_def get_config_def at_def start_conf_def module_names_def
      InitializeModules_def set_world_def)

lemma start_events:
  "e \<noteq> ENOMEM \<Longrightarrow> \<exists>k. epoll_InitializeMultiplexer True e demo_epoll = Inr (0, k, e)
      \<and> interest k = Map.empty \<and> open_fds k = {}"
  by (simp add: epoll_InitializeMultiplexer_def vec_reserve_def sizeof_epoll_event_def vec_init_def realloc_cells_def
      reallocarray_def MUL_NO_OVERFLOW_def Let_def)

lemma start_sockets:
  assumes "configured p"
  obtains p' where "InitializeSockets start_sys p = Inr (0, p')" "p_opts p' = start_opts" "gconfig (p_cfgs p') = 1"
    "confs (p_cfgs p') 1 = Some start_conf"
proof -
  obtain k where "epoll_InitializeMultiplexer True (w_errno (p_world p)) demo_epoll = Inr (0, k, w_errno (p_world p))"
      "interest k = Map.empty" "open_fds k = {}"
    using start_events assms unfolding configured_def by blast
  then have "\<exists>p'. InitializeSockets start_sys p = Inr (0, p') \<and> p_opts p' = start_opts \<and> gconfig (p_cfgs p') = 1
    \<and> confs (p_cfgs p') 1 = Some start_conf"
    using assms
    by (simp add: InitializeSockets_def configured_def get_config_def at_def start_conf_def Let_def
        InitializeMultiplexer_def demo_world_def start_sys_def mem_ok_def
        set_world_def bind_block_def listen_defaults_def BindToSocket_def bind_sockaddr_def open_fd_def epoll_open_fd_def
        AddSocket_def strdup_def malloc_def nmalloc_def SOCK_PKTLEN_def AddToMultiplexer_def epoll_AddToMultiplexer_def
        epoll_ctl_add_def list_push_def memset_def store_def ENOMEM_def)
  then show ?thesis using that by blast
qed

lemma start_demo:
  obtains p where "main_start start_sys [''nbstftp''] start_proc = Inr (Loop p)" "gconfig (p_cfgs p) = 1"
    "confs (p_cfgs p) 1 = Some start_conf" "nofork (p_opts p) = 0"
proof -
  obtain p3 where p3: "load_config (RegisterSignalHandlers (start_proc\<lparr>p_opts := start_opts\<rparr>)) = Inr (0, p3)"
    "configured p3" "nodes (w_fs (p_world p3)) ''/run/nb'' = None" by (rule start_load)
  obtain p4 where p4: "WritePID start_sys p3 = Inr p4" "configured p4" by (rule start_pid_file [OF p3(2,3)])
  obtain p5 where p5: "load_modules start_sys (p4\<lparr>p_world := (p_world p4)\<lparr>w_pool := []\<rparr>\<rparr>) = Inr p5" "configured p5"
    by (rule start_modules [OF p4(2)])
  obtain p6 where p6: "InitializeSockets start_sys p5 = Inr (0, p6)" "p_opts p6 = start_opts"
    "gconfig (p_cfgs p6) = 1" "confs (p_cfgs p6) 1 = Some start_conf" by (rule start_sockets [OF p5(2)])
  have opts: "(RegisterSignalHandlers (start_proc\<lparr>p_opts := p_opts start_proc\<rparr>))\<lparr>p_opts :=
        (p_opts start_proc)\<lparr>configfile := Some ''/etc/nb''\<rparr>\<rparr>
      = RegisterSignalHandlers (start_proc\<lparr>p_opts := start_opts\<rparr>)"
    "configfile (p_opts start_proc) = None" "default_conf start_sys = ''/etc/nb''"
    by (simp_all add: RegisterSignalHandlers_def start_proc_def start_opts_def start_sys_def)
  have sys: "InTerm start_sys" "s_fork start_sys = 0" "child_pid start_sys = 7" "setpgid_ok start_sys"
    by (simp_all add: InTerm_def start_sys_def)
  have conf: "user start_conf = Null_str" "config_t.group start_conf = Null_str" "daemonize start_conf = 1"
    "nofork start_opts = - 1"
    by (simp_all add: start_conf_def start_opts_def)
  have "main_start start_sys [''nbstftp''] start_proc
      = Inr (Loop (p6\<lparr>p_opts := start_opts\<lparr>nofork := 0\<rparr>, p_pid := 7\<rparr>))"
    unfolding main_start_def start_args
    using p3(1) p4(1) p5(1) p6 opts sys conf
    by (simp add: at_def SwitchUserAndGroup_def Daemonize_def Let_def)
  with p6(3,4) that show ?thesis by simp
qed

text \<open>A server that listens on the descriptor 3, where a read request waits.\<close>

definition demo_sock :: socket where
  "demo_sock = \<lparr>sk_fd = 3, sk_flags = SF_READABLE, sk_addr = IPv4 69 0, sk_bindaddr = 1, sk_packet = 2,
     sk_pktlen = SOCK_PKTLEN\<rparr>"

definition demo_datagram :: "byte list" where
  "demo_datagram = demo_request PACKET_RRQ ''a'' ''octet'' []"

definition demo_listening :: world where
  "demo_listening = demo_world\<lparr>w_mem := demo_heap\<lparr>blocks := [1 \<mapsto> ''::'' @ [NUL], 2 \<mapsto> replicate SOCK_PKTLEN NUL], brk := 3\<rparr>,
     w_socks := [demo_sock],
     w_net := demo_net\<lparr>inq := (\<lambda>_. [])(3 := [Recv_packet demo_datagram (IPv4 1024 5)])\<rparr>\<rparr>"

lemma demo_buffer: "rrq_for (buffer_of demo_sock demo_datagram) demo_listening ''/srv/a''"
proof -
  have "buffer_of demo_sock demo_datagram = be16 PACKET_RRQ @ ''a'' @ NUL # ''octet'' @ NUL # NUL # replicate (SOCK_PKTLEN - 11) NUL"
    by (simp add: buffer_of_def demo_datagram_def demo_request_def demo_sock_def SOCK_PKTLEN_def be16_def
        replicate_Suc [symmetric] del: replicate.simps(2))
  moreover have "parse_request (buffer_of demo_sock demo_datagram) = Inr (''a'', ''octet'', [], None)"
    by (rule parse_request_plain) (simp_all add: calculation be16_def)
  ultimately show ?thesis
    by (simp add: rrq_for_def field16_def be16_def lower_def demo_listening_def demo_path [simplified demo_world_def]
       request_path_def demo_world_def)
qed

section \<open>From the datagram to the answer\<close>

text \<open>
  A request is answered, whatever other sockets there are: when a plain read request for a readable file waits on a listening
  socket of a server without clients, the round in which epoll reports the socket readable and the
  round in which it reports it writable both succeed, and the second one sends the first block of the
  file to the address the request came from, and nothing else.
\<close>

theorem request_answered:
  assumes "no_clients w" "can_receive s w" "epoll_room (w_mux w)" "FindSocket (sk_fd s) w = (0, Some s)"
    and "inq (w_net w) (sk_fd s) = Recv_packet data a # rest" "ntop (w_net w) a = Some t"
    and "length data \<le> sk_pktlen s" "length data \<le> MAX_PACKET_SIZE"
    and "rrq_for (buffer_of s data) w path"
    and "fs_wf (w_fs w)" "nodes (w_fs w) path = Some (Reg bs)" "r_perm (w_fs w) path = 0"
    and "\<forall>n. \<not> send_fail (w_net w) n" "Suc (length (w_socks w)) < 2 ^ 30"
  shows "\<exists>w1 w2. server_round (Some [(sk_fd s, EPOLLIN)]) w = Inr w1
    \<and> server_round (Some [(sk_fd s, EPOLLOUT)]) w1 = Inr w2
    \<and> sent (w_net w2) = sent (w_net w) @ [(sk_fd s, a, data_packet 1 (take 512 bs))]"
  by (rule request_is_answered [OF assms(1,2,5,7,8,6,9-12) _ assms(3,14,4)]) (use assms(13) in blast)

theorem request_answered_witness:
  "\<exists>w1 w2. server_round (Some [(3, EPOLLIN)]) demo_listening = Inr w1
    \<and> server_round (Some [(3, EPOLLOUT)]) w1 = Inr w2
    \<and> sent (w_net w2) = [(3, IPv4 1024 5, data_packet 1 ''hello'')]"
proof -
  have fd: "sk_fd demo_sock = 3" by (simp add: demo_sock_def)
  have "\<exists>w1 w2. server_round (Some [(sk_fd demo_sock, EPOLLIN)]) demo_listening = Inr w1
    \<and> server_round (Some [(sk_fd demo_sock, EPOLLOUT)]) w1 = Inr w2
    \<and> sent (w_net w2) = sent (w_net demo_listening) @ [(sk_fd demo_sock, IPv4 1024 5, data_packet 1 (take 512 ''hello''))]"
  proof (rule request_answered [OF _ _ _ _ _ _ _ _ demo_buffer])
    show "no_clients demo_listening"
      by (simp add: no_clients_def demo_listening_def demo_defs heap_wf_def mem_ok_def)
    show "can_receive demo_sock demo_listening"
      by (simp add: can_receive_def demo_listening_def demo_sock_def demo_defs mux_ok_def)
    show "epoll_room (w_mux demo_listening)" "Suc (length (w_socks demo_listening)) < 2 ^ 30"
      "FindSocket (sk_fd demo_sock) demo_listening = (0, Some demo_sock)"
      "inq (w_net demo_listening) (sk_fd demo_sock) = Recv_packet demo_datagram (IPv4 1024 5) # []"
      "ntop (w_net demo_listening) (IPv4 1024 5) = Some ''2.0.4.0''"
      by (simp_all add: demo_listening_def demo_world_def demo_sock_def FindSocket_def demo_net_def epoll_room_def)
    show "length demo_datagram \<le> sk_pktlen demo_sock" "length demo_datagram \<le> MAX_PACKET_SIZE"
      by (simp_all add: demo_datagram_def demo_request_def demo_sock_def SOCK_PKTLEN_def MAX_PACKET_SIZE_def be16_def)
    show "fs_wf (w_fs demo_listening)" "nodes (w_fs demo_listening) ''/srv/a'' = Some (Reg ''hello'')"
      "r_perm (w_fs demo_listening) ''/srv/a'' = 0" "\<forall>n. \<not> send_fail (w_net demo_listening) n"
      by (simp_all add: demo_listening_def demo_defs fs_wf_def)
  qed
  then show ?thesis by (simp add: fd demo_listening_def demo_net_def)
qed

section \<open>Whole files, from datagram to datagram\<close>



lemma demo_ready: "ready demo_sock ''::'' (demo_listening\<lparr>w_net := net\<rparr>)"
  by (simp add: ready_def no_clients_def listening_def demo_listening_def demo_sock_def demo_defs
      heap_wf_def mem_ok_def epoll_room_def)


text \<open>
  C2. A client writes a file, under the assumptions stated before C1. A write request for a path it may write
  comes in, and then the blocks of the file in DATA packets numbered from 1 (in 16 bits), each once and in order, the last one, and only that,
  shorter than 512 bytes. Then the server goes through its rounds without a fault, the file holds
  the blocks put together and no other file has changed, the request is acknowledged to that client with
  the number 0 and every block with its number, and in the end the server has no client and waits as before.
  Blocks that are repeated: C13.
\<close>

theorem file_stored:
  assumes "ready s u w" "516 \<le> sk_pktlen s" "\<forall>n. \<not> send_fail (w_net w) n"
    and "inq (w_net w) (sk_fd s)
      = Recv_packet data a # map (\<lambda>(b, d). Recv_packet (data_packet b d) a) (numbered ds) @ rest"
    and "length data \<le> sk_pktlen s" "length data \<le> MAX_PACKET_SIZE" "wrq_for (buffer_of s data) w path"
    and "fs_wf (w_fs w)" "whole_file ds"
    and "ntop (w_net w) a = Some t" "NUL \<notin> set t" "t \<noteq> u" "GetPort a \<noteq> 0x8000"
  shows "\<exists>w'. exchanges (Suc (length ds)) (sk_fd s) w = Inr w' \<and> ready s u w'
    \<and> nodes (w_fs w') = (nodes (w_fs w))(path \<mapsto> Reg (concat ds))
    \<and> sent (w_net w') = sent (w_net w)
        @ map (\<lambda>p. (sk_fd s, a, p)) (map (\<lambda>i. ack_packet (of_nat i)) [0 ..< Suc (length ds)])
    \<and> inq (w_net w') (sk_fd s) = rest"
proof -
  have whole: "whole_file (map snd (numbered ds))" using assms(9) by simp
  from write_conversation [OF assms(1,4,5,6,10,7,8) whole _ assms(2,13,11,12)] assms(3)
  obtain w' where "exchanges (Suc (length ds)) (sk_fd s) w = Inr w'" "ready s u w'"
      "nodes (w_fs w') path = Some (Reg (concat ds))"
      "exchanged s a {path} (map (\<lambda>i. ack_packet (of_nat i)) [0 ..< Suc (length ds)]) rest w w'"
    unfolding numbered_all_acks by auto
  then show ?thesis
    by (auto simp: exchanged_def fun_eq_iff simp del: upt_Suc)
qed

definition demo_wrq :: "byte list" where
  "demo_wrq = demo_request PACKET_WRQ ''b'' ''octet'' []"

definition demo_writing :: world where
  "demo_writing = demo_listening\<lparr>w_net := demo_net\<lparr>inq := (\<lambda>_. [])(3 :=
     [Recv_packet demo_wrq (IPv4 1024 5), Recv_packet (data_packet 1 (replicate 512 (CHR ''x''))) (IPv4 1024 5),
      Recv_packet (data_packet 2 ''y'') (IPv4 1024 5)])\<rparr>\<rparr>"

lemma demo_wrq_buffer: "wrq_for (buffer_of demo_sock demo_wrq) demo_writing ''/srv/b''"
proof -
  have "buffer_of demo_sock demo_wrq = be16 PACKET_WRQ @ ''b'' @ NUL # ''octet'' @ NUL # NUL # replicate (SOCK_PKTLEN - 11) NUL"
    by (simp add: buffer_of_def demo_wrq_def demo_request_def demo_sock_def SOCK_PKTLEN_def be16_def
        replicate_Suc [symmetric] del: replicate.simps(2))
  moreover have "parse_request (buffer_of demo_sock demo_wrq) = Inr (''b'', ''octet'', [], None)"
    by (rule parse_request_plain) (simp_all add: calculation be16_def)
  ultimately show ?thesis
    by (simp add: wrq_for_def field16_def be16_def lower_def demo_writing_def demo_listening_def
        demo_path [simplified demo_world_def] request_path_def demo_world_def demo_fs_def writable_def
        access_errno_def access_write_def ENOENT_def EACCES_def)
qed

theorem file_stored_witness:
  "\<exists>w'. exchanges 3 3 demo_writing = Inr w' \<and> w_pool w' = []
    \<and> nodes (w_fs w') ''/srv/b'' = Some (Reg (replicate 512 (CHR ''x'') @ ''y''))
    \<and> sent (w_net w') = [(3, IPv4 1024 5, ack_packet 0), (3, IPv4 1024 5, ack_packet 1), (3, IPv4 1024 5, ack_packet 2)]"
proof -
  let ?ds = "[replicate 512 (CHR ''x''), ''y'']"
  have fd: "sk_fd demo_sock = 3" by (simp add: demo_sock_def)
  have "\<exists>w'. exchanges (Suc (length ?ds)) (sk_fd demo_sock) demo_writing = Inr w' \<and> ready demo_sock ''::'' w'
    \<and> nodes (w_fs w') = (nodes (w_fs demo_writing))(''/srv/b'' \<mapsto> Reg (concat ?ds))
    \<and> sent (w_net w') = sent (w_net demo_writing)
        @ map (\<lambda>p. (sk_fd demo_sock, IPv4 1024 5, p)) (map (\<lambda>i. ack_packet (of_nat i)) [0 ..< Suc (length ?ds)])
    \<and> inq (w_net w') (sk_fd demo_sock) = []"
  proof (rule file_stored [where t = "''2.0.4.0''", OF _ _ _ _ _ _ demo_wrq_buffer])
    show "ready demo_sock ''::'' demo_writing"
      unfolding demo_writing_def by (rule demo_ready)
    show "length demo_wrq \<le> sk_pktlen demo_sock" "length demo_wrq \<le> MAX_PACKET_SIZE"
      by (simp_all add: demo_wrq_def demo_request_def demo_sock_def SOCK_PKTLEN_def MAX_PACKET_SIZE_def be16_def)
  qed (simp_all add: demo_writing_def demo_listening_def demo_sock_def demo_defs fs_wf_def SOCK_PKTLEN_def GetPort_def
      numbered_def)
  then show ?thesis
    by (auto simp: fd ready_def no_clients_def demo_writing_def demo_net_def numeral_3_eq_3
        simp del: exchanges.simps)
qed






text \<open>
  C20. The loops of \<open>ProcessSockets\<close> for poll and select, whose bodies change the vector they
  run over, end by themselves: more rounds than the vector has entries (for select: than sockets and
  waiting datagrams together) make no difference.
\<close>

theorem multiplexer_loops_terminate:
  "(w_mux w = Poll evs \<and> length evs \<le> n \<longrightarrow> poll_loop n c 0 0 w = poll_loop (length evs) c 0 0 w)
    \<and> (length (w_socks v) + pending (map sk_fd (w_socks v)) (w_net v) \<le> n \<longrightarrow>
       select_loop n sets 0 v = select_loop (length (w_socks v) + pending (map sk_fd (w_socks v)) (w_net v)) sets 0 v)"
  using poll_loop_fuel select_loop_fuel by blast

theorem multiplexer_loops_terminate_witness:
  "poll_loop 1000 1 0 0 (demo_listening\<lparr>w_mux := Poll [\<lparr>pf_fd = 3, pf_events = POLLIN, pf_revents = POLLIN\<rparr>]\<rparr>)
     = poll_loop 1 1 0 0 (demo_listening\<lparr>w_mux := Poll [\<lparr>pf_fd = 3, pf_events = POLLIN, pf_revents = POLLIN\<rparr>]\<rparr>)
    \<and> select_loop 1000 ({3}, {}, {}) 0 demo_listening = select_loop 2 ({3}, {}, {}) 0 demo_listening"
proof -
  have "length (w_socks demo_listening) + pending (map sk_fd (w_socks demo_listening)) (w_net demo_listening) = 2"
    by (simp add: demo_listening_def pending_def demo_sock_def)
  with multiplexer_loops_terminate [where w = "demo_listening\<lparr>w_mux := Poll [\<lparr>pf_fd = 3, pf_events = POLLIN, pf_revents = POLLIN\<rparr>]\<rparr>"
      and v = demo_listening and n = 1000 and c = 1 and sets = "({3}, {}, {})" and evs = "[\<lparr>pf_fd = 3, pf_events = POLLIN, pf_revents = POLLIN\<rparr>]"]
  show ?thesis by simp
qed

section \<open>Start-up\<close>

text \<open>
  C6. The process that \<open>main\<close> has started keeps the invariant of the client pool: after any
  start that reaches the loop, and any sequence of rounds, signals (SIGHUP included) and changes of
  clock and network, the pool is well formed, at rest, and without two clients for one peer.
\<close>

theorem startup_invariant:
  assumes "main_start sys argv p0 = Inr (Loop p)"
    and "w_clients (p_world p0) = Map.empty" "0 < brk (w_mem (p_world p0))" "preach p q"
  shows "srv_inv (p_world q)"
  using main_start_initial [OF assms(1-3)] reachable_inv [OF reachable.start] preach_inv [OF assms(4)] by blast

theorem startup_invariant_witness:
  "\<exists>p q. main_start start_sys [''nbstftp''] start_proc = Inr (Loop p) \<and> preach p q
    \<and> p_running p \<and> \<not> p_running q \<and> srv_inv (p_world q)"
proof -
  obtain p where p: "main_start start_sys [''nbstftp''] start_proc = Inr (Loop p)" by (rule start_demo)
  have fresh: "w_clients (p_world start_proc) = Map.empty" "0 < brk (w_mem (p_world start_proc))"
    by (simp_all add: start_proc_def demo_defs)
  have live: "p_running p" "p_handled p SIGTERM"
    using main_start_initial [OF p fresh] by (simp_all add: start_proc_def)
  obtain q where "SignalHandler SIGTERM p = Inr q" "\<not> p_running q"
    by (simp add: SignalHandler_def)
  with preach.more [OF preach.start pstep.signal] live have "preach p q" by blast
  with startup_invariant [OF p fresh] p live(1) \<open>\<not> p_running q\<close> show ?thesis by blast
qed

text \<open>
  C23. When \<open>InitializeSockets\<close> succeeds there is a socket, and every socket is bound to the
  address and port of a listen block, with \<open>::\<close> and 69 where the block does not name one.
\<close>

theorem listening_sockets:
  assumes "InitializeSockets sys p = Inr (0, p')" "confs (p_cfgs p) (gconfig (p_cfgs p)) = Some c"
  shows "w_socks (p_world p') \<noteq> [] \<and> (\<forall>s \<in> set (w_socks (p_world p')).
    \<exists>b \<in> set (listenblocks c). \<exists>l. listens (p_cfgs p) b = Some l \<and> bound_to sys s (listen_addr l))"
  using InitializeSockets_socks [OF assms] by blast

theorem listening_sockets_witness:
  "\<exists>p p'. InitializeSockets start_sys p = Inr (0, p') \<and> w_socks (p_world p') \<noteq> []
    \<and> (\<forall>s \<in> set (w_socks (p_world p')). bound_to start_sys s (''1.2.3.4'', 69))"
proof -
  obtain p where p: "configured p" using start_load by blast
  obtain p' where p': "InitializeSockets start_sys p = Inr (0, p')" by (rule start_sockets [OF p])
  have c: "confs (p_cfgs p) (gconfig (p_cfgs p)) = Some start_conf"
    and l: "listens (p_cfgs p) 4 = Some \<lparr>l_bindaddr = Dup 6 ''1.2.3.4'', l_port = - 1\<rparr>"
    using p by (simp_all add: configured_def)
  from listening_sockets [OF p' c] p' l show ?thesis
    by (intro exI [of _ p] exI [of _ p']) (simp add: start_conf_def listen_addr_def)
qed

text \<open>
  C24. A command line of names, \<open>-f\<close> and \<open>-c\<close> in any of their spellings, not ending with
  \<open>-c\<close>, is accepted: the fork is off exactly if there is a \<open>-f\<close>, and the configuration file is the
  last of all names behind the first \<open>-c\<close>, not the one that follows it.
\<close>

theorem command_line_options:
  assumes "usable args" "\<forall>a \<in> set args. cstring a"
  shows "\<exists>st'. HandleArguments lic h args st = Inr st'
    \<and> nofork st' = (if \<exists>a \<in> set args. is_nofork a then 1 else nofork st)
    \<and> configfile st' = (case rev (config_names False args) of [] \<Rightarrow> configfile st | n # _ \<Rightarrow> Some n)"
  using handle_arguments_usable [OF assms, of lic h "st\<lparr>wait_for_conf := False\<rparr>"]
  by (simp add: HandleArguments_def cong: if_cong list.case_cong)

theorem command_line_options_witness:
  "\<exists>st'. HandleArguments [] demo_heap [''nbstftp'', ''-C'', ''a.conf'', ''--nofork'', ''b.conf'']
      \<lparr>nofork = - 1, configfile = None, wait_for_conf = False\<rparr> = Inr st'
    \<and> nofork st' = 1 \<and> configfile st' = Some ''b.conf''"
proof -
  let ?args = "[''nbstftp'', ''-C'', ''a.conf'', ''--nofork'', ''b.conf'']"
  have opts: "is_config ''-C''" "is_nofork ''--nofork''" "\<not> is_config ''--nofork''" "\<not> is_config ''b.conf''" "\<not> is_config ''nbstftp''"
    by code_simp+
  have us: "usable ?args" "\<forall>a \<in> set ?args. cstring a"
    using opts by (simp_all add: usable_def is_name_def)
  have "config_names False ?args = [''a.conf'', ''b.conf'']"
    using opts by (simp add: config_names_def is_name_def)
  with command_line_options [OF us, of "[]" demo_heap "\<lparr>nofork = - 1, configfile = None, wait_for_conf = False\<rparr>"] opts
  show ?thesis by auto
qed

text \<open>
  C25. The pid file names the process that was started, not the daemon: it is written before
  \<open>Daemonize\<close>, and when the server goes to the background it runs as the child.
\<close>

theorem pid_file_of_parent:
  assumes "main_start sys argv p0 = Inr (Loop p)"
    and "fs_wf (w_fs (p_world p0))" "c_perm (w_fs (p_world p0)) f = 0" "nodes (w_fs (p_world p0)) f = None"
    and "confs (p_cfgs p) (gconfig (p_cfgs p)) = Some c" "pid_val (pidfile c) = Some f"
  shows "nodes (w_fs (p_world p)) f = Some (Reg (dec_int (p_pid p0)))
    \<and> (nofork (p_opts p) = 0 \<and> InTerm sys \<and> s_fork sys = 0 \<longrightarrow> p_pid p = child_pid sys)"
proof
  show "nodes (w_fs (p_world p)) f = Some (Reg (dec_int (p_pid p0)))"
    by (rule main_start_pid [OF assms(1-4)]) (use assms(5,6) in simp)
  show "nofork (p_opts p) = 0 \<and> InTerm sys \<and> s_fork sys = 0 \<longrightarrow> p_pid p = child_pid sys"
    by (rule main_start_Loop [OF assms(1)]) (auto simp: Daemonize_def Let_def split: if_splits)
qed

theorem pid_file_of_parent_witness:
  "\<exists>p. main_start start_sys [''nbstftp''] start_proc = Inr (Loop p)
    \<and> nodes (w_fs (p_world p)) ''/run/nb'' = Some (Reg ''6'') \<and> p_pid p = 7"
proof -
  obtain p where p: "main_start start_sys [''nbstftp''] start_proc = Inr (Loop p)" "gconfig (p_cfgs p) = 1"
    "confs (p_cfgs p) 1 = Some start_conf" "nofork (p_opts p) = 0" by (rule start_demo)
  have fs: "fs_wf (w_fs (p_world start_proc))" "c_perm (w_fs (p_world start_proc)) ''/run/nb'' = 0"
    "nodes (w_fs (p_world start_proc)) ''/run/nb'' = None"
    by (simp_all add: start_proc_def demo_etc_def demo_fs_def fs_wf_def)
  have "dec_int 6 = ''6''" by code_simp
  moreover have "p_pid start_proc = 6" by (simp add: start_proc_def)
  ultimately show ?thesis
    using pid_file_of_parent [OF p(1) fs, of start_conf] p
    by (auto simp: start_conf_def InTerm_def start_sys_def)
qed

text \<open>
  C26. A server started as root with a user and another group never starts: the user is
  changed first, and then the process may not change its group any more.
  \<open>SwitchUserAndGroup\<close> fails with the user changed and the group as it was.
\<close>

theorem user_dropped_before_group:
  assumes "euid (p_creds p) = 0" "getpwnam sys u = Some (uid, pgid)" "uid \<noteq> 0"
    and "getgrnam sys g = Some gid" "u \<noteq> g" "gid \<noteq> rgid (p_creds p)" "gid \<noteq> sgid (p_creds p)"
  shows "\<exists>p'. SwitchUserAndGroup sys (Some u) (Some g) p = Inr (1, p')
    \<and> euid (p_creds p') = uid \<and> egid (p_creds p') = egid (p_creds p)"
  by (rule switch_user_then_group [OF assms])

theorem user_dropped_before_group_witness:
  "\<exists>p'. SwitchUserAndGroup start_sys (Some ''tftp'') (Some ''daemon'') start_proc = Inr (1, p')
    \<and> euid (p_creds p') = 9 \<and> egid (p_creds p') = 0"
  using user_dropped_before_group [of start_proc start_sys "''tftp''" 9 9 "''daemon''" 8]
  by (simp add: start_sys_def start_proc_def)

text \<open>
  C27. A pid file without a number in it stops every later start: its contents are taken for the
  process 0, and the signal 0 to that process (the own process group) succeeds.
\<close>

theorem empty_pid_file_stops_start:
  assumes "fs_wf (w_fs (p_world p))" "heap_wf (w_mem (p_world p))" "gconfig (p_cfgs p) \<noteq> NULL"
    and "confs (p_cfgs p) (gconfig (p_cfgs p)) = Some c" "pid_val (pidfile c) = Some f"
    and "nodes (w_fs (p_world p)) f = Some (Reg bs)" "r_perm (w_fs (p_world p)) f = 0"
    and "length bs < 1024" "atoi (takeWhile (\<lambda>c. c \<noteq> NUL) bs) = 0" "kill_0 sys 0"
  shows "WritePID sys p = Inl Exit_failure"
  by (rule WritePID_no_number [OF assms(1,4,3,5-7,8-10,2)])

theorem empty_pid_file_stops_start_witness:
  "WritePID start_sys (start_proc\<lparr>p_world := demo_world\<lparr>w_fs := demo_fs\<lparr>nodes := [''/run/nb'' \<mapsto> Reg []]\<rparr>\<rparr>,
     p_cfgs := demo_cfgs\<lparr>confs := [1 \<mapsto> start_conf], gconfig := 1\<rparr>\<rparr>) = Inl Exit_failure"
proof -
  have "atoi [] = 0" by code_simp
  then show ?thesis
    by (intro empty_pid_file_stops_start [where c = start_conf and f = "''/run/nb''" and bs = "[]"])
      (simp_all add: demo_defs fs_wf_def heap_wf_def start_conf_def start_sys_def)
qed

end
