(* ===== verification/Further_Facts.thy ===== *)
theory Further_Facts
  imports Demo
begin

text \<open>
  Facts about single functions that are not among the numbered properties: packets and queueing,
  the vectors, text, events and modules. Each is followed by an instance.
\<close>

section \<open>Single packets\<close>

text \<open>
  An ERROR packet is acknowledged with block 1 and ends the client's transfer.
\<close>

theorem error_ends_transfer:
  assumes "client_ok c w" "is_packet PACKET_ERROR (buf, len)" "GetNext buf 4 512 = Inr (msg, off)"
  shows "total (handled c w [ack_packet 1] (c\<lparr>c_waiting := 0, c_destroy := 1\<rparr>)
      (call_event EV_ERROR_PACKET w)) (ProcessPacket c buf len w)"
  using process_error_sat [OF assms(1,3), of len] by (simp add: ProcessPacket_cases(2) [OF assms(2)])

theorem error_ends_transfer_witness:
  "total (handled demo_client demo_world [ack_packet 1] (demo_client\<lparr>c_waiting := 0, c_destroy := 1\<rparr>)
      (call_event EV_ERROR_PACKET demo_world))
    (ProcessPacket demo_client (error_packet 3 ''full'') 9 demo_world)"
  by (rule error_ends_transfer [OF demo_client_ok, where msg = "''full''" and off = 9])
    (simp_all add: is_packet_def field16_def error_packet_def be16_def MAX_PACKET_SIZE_def GetNext_def)

text \<open>
  A DATA packet during a write transfer appends its payload to the file, whatever number it carries, is
  acknowledged under its own number, and ends the transfer if its payload is shorter than
  512 bytes.
\<close>

theorem data_is_written:
  assumes "receiving path bs c w" "arrives b d (buf, len)"
  shows "\<exists>c' w'. ProcessPacket c buf len w = Inr (c', w') \<and> receiving path (bs @ d) c' w'
    \<and> queued c' w' = queued c w @ [ack_packet b]
    \<and> c_destroy c' = (if length d < 512 then 1 else c_destroy c)"
  using data_step [OF assms] by (auto simp: total_ex)

theorem data_is_written_witness:
  "\<exists>c' w'. ProcessPacket (fst demo_receiving) (data_packet 2 ''you'') 7 (snd demo_receiving) = Inr (c', w')
    \<and> receiving ''/srv/a'' (''hello'' @ ''you'') c' w'
    \<and> queued c' w' = queued (fst demo_receiving) (snd demo_receiving) @ [ack_packet 2]
    \<and> c_destroy c' = (if length ''you'' < 512 then 1 else c_destroy (fst demo_receiving))"
  by (rule data_is_written [OF demo_receiving_ok])
    (simp add: arrives_def MAX_PACKET_SIZE_def data_packet_def)

section \<open>Requests that are refused\<close>

text \<open>
  A write request whose file cannot be opened for another reason is answered with
  error 1 and the text of the error.
\<close>

theorem wrq_open_fails:
  assumes "client_ok c w" "is_packet PACKET_WRQ (buf, len)"
    and "parse_request buf = Inr (fn, mode, opt, param)" "strcasecmp mode ''mail'' \<noteq> 0"
    and "cf_directory (w_conf w) = Some dir" "request_path fn (w_conf w) = Inr path"
    and "access_errno path dir (w_fs w) = 0" "nodes (w_fs w) path = Some Dir"
    and "\<forall>n. length (w_strerror w n) \<le> 400"
  shows "total (handled c w
        [error_packet ERROR_NOFILE (''Cannot write file: '' @ w_strerror w EISDIR)]
        (c\<lparr>c_waiting := 0, c_destroy := 1\<rparr>) (w\<lparr>w_errno := EISDIR, w_fs := w_fs w\<rparr>))
    (ProcessPacket c buf len w)"
proof -
  have "fopen_write path (w_errno w, w_fs w) = (0, EISDIR, w_fs w)"
    using assms(8) by (simp add: fopen_write_def)
  then show ?thesis
    using process_wrq_refused(2) [OF assms(1,3-6) refl, of EISDIR "w_fs w" len] assms(7,9)
    by (simp add: ProcessPacket_cases(4) [OF assms(2)] EACCES_def)
qed

theorem wrq_open_fails_witness:
  "total (handled demo_client demo_world
        [error_packet ERROR_NOFILE (''Cannot write file: '' @ w_strerror demo_world EISDIR)]
        (demo_client\<lparr>c_waiting := 0, c_destroy := 1\<rparr>)
        (demo_world\<lparr>w_errno := EISDIR, w_fs := w_fs demo_world\<rparr>))
    (ProcessPacket demo_client (demo_request PACKET_WRQ ''d'' ''octet'' [NUL]) 11 demo_world)"
proof (rule wrq_open_fails [OF demo_client_ok, where path = "''/srv/d''" and dir = "''/srv''"])
  show "parse_request (demo_request PACKET_WRQ ''d'' ''octet'' [NUL]) = Inr (''d'', ''octet'', [], None)"
    by (rule demo_request_plain) simp_all
  show "request_path ''d'' (w_conf demo_world) = Inr ''/srv/d''"
    using demo_path [of "''d''"] by simp
qed (simp_all add: demo_is_packet MAX_PACKET_SIZE_def lower_def,
     simp_all add: demo_defs access_errno_def access_write_def)

section \<open>Queueing and the wire format\<close>

text \<open>
  Queueing a new packet puts exactly its first \<open>len\<close> bytes at the end of the queue,
  keeps a copy for a resend, sets the resend time, and changes nothing else of the client
  and the state; only a failed allocation can stop it.
\<close>

theorem packet_is_queued:
  assumes "queue_ok c w" "blocks (w_mem w) p = Some b" "len \<le> length b" "0 < len"
  shows "sat (\<lambda>_. \<not> mem_ok (w_mem w))
    (\<lambda>(c', w'). appended c w [take len b] c' w'
       \<and> pq_bytes (w_mem w') (c_lastpacket c') = take len b \<and> c_nextresend c' = w_now w + 5)
    (QueuePacket c p len 1 w)"
  by (rule sat_mono [OF QueuePacket_sat [OF assms]]) auto

theorem packet_is_queued_witness:
  "sat (\<lambda>_. \<not> mem_ok (w_mem demo_queue_world))
    (\<lambda>(c', w'). appended demo_client demo_queue_world [take 4 (ack_packet 0)] c' w'
       \<and> pq_bytes (w_mem w') (c_lastpacket c') = take 4 (ack_packet 0)
       \<and> c_nextresend c' = w_now demo_queue_world + 5)
    (QueuePacket demo_client 2 4 1 demo_queue_world)"
  by (rule packet_is_queued)
    (simp_all add: queue_ok_def heap_wf_def mux_ok_def demo_queue_world_def ack_packet_def demo_defs)

text \<open>
  \<open>SendData\<close> and \<open>Acknowledge\<close> queue the DATA and ACK packets of RFC 1350: opcode and
  block number in network byte order, then the data.
\<close>

theorem data_and_ack_format:
  assumes "client_ok c w"
  shows "total (\<lambda>(c', w'). enqueued c w [be16 3 @ be16 (c_currentblockno c) @ d] c' w') (SendData c d w)
    \<and> total (\<lambda>(c', w'). enqueued c w [be16 4 @ be16 b] c' w') (Acknowledge c b w)"
  using SendData_total [OF assms, of d] Acknowledge_total [OF assms, of b]
  by (simp add: data_packet_def ack_packet_def PACKET_DATA_def PACKET_ACK_def)

theorem data_and_ack_format_witness:
  "total (\<lambda>(c', w'). enqueued demo_client demo_world
        [be16 3 @ be16 (c_currentblockno demo_client) @ ''x''] c' w') (SendData demo_client ''x'' demo_world)
    \<and> total (\<lambda>(c', w'). enqueued demo_client demo_world [be16 4 @ be16 9] c' w')
        (Acknowledge demo_client 9 demo_world)"
  by (rule data_and_ack_format [OF demo_client_ok])

text \<open>
  The copy kept for a resend is lost with the next packet: its block stays allocated, and nothing the client holds
  points to it any more. So every packet but the last leaves a block behind.
\<close>

theorem lastpacket_leaks:
  assumes "queue_ok c w" "QueuePacket c p len 1 w = Inr (c', w')"
    and "blocks (w_mem w) q = Some b" "q = pq_p (c_lastpacket c)" "q \<notin> pq_p ` set (c_queue c)" "q \<noteq> p" "q \<noteq> c_blk c"
  shows "blocks (w_mem w') q = Some b \<and> q \<notin> owns c'"
proof -
  have q: "q < brk (w_mem w)" using assms(1,3) by (auto simp: queue_ok_def dest: heap_wf_live)
  from assms(2) obtain qu h1 lp h2 bytes where qu: "list_push \<lparr>pq_p = p, pq_len = len, pq_allocated = 1\<rparr> (c_queue c, w_mem w) = Inr (qu, h1)"
    "nmalloc len h1 = Inr (lp, h2)" "store lp 0 bytes h2 = Inr (w_mem w')"
    "c_queue c' = qu" "pq_p (c_lastpacket c') = lp" "c_blk c' = c_blk c"
    by (auto simp: QueuePacket_def Let_def and_then_eq_Inr)
  have 1: "qu = c_queue c @ [\<lparr>pq_p = p, pq_len = len, pq_allocated = 1\<rparr>]" "blocks h1 = blocks (w_mem w)"
      "brk (w_mem w) \<le> brk h1"
    using qu(1) by (auto simp: list_push_def split: if_splits)
  have 2: "lp = brk h1" "brk h2 = Suc (brk h1)" "blocks h2 q = blocks h1 q"
    using nmalloc_grows [OF qu(2)] q 1 by (auto simp: grows_def)
  have "blocks (w_mem w') q = blocks h2 q"
    using store_grows [OF qu(3)] q 1 2 by (auto simp: grows_def)
  with assms(3,5-7) qu(4-6) q 1 2 show ?thesis by (auto simp: owns_def)
qed

theorem lastpacket_leaks_witness:
  "\<exists>c' w'. QueuePacket (demo_client\<lparr>c_lastpacket := \<lparr>pq_p = 3, pq_len = 4, pq_allocated = 1\<rparr>\<rparr>) 2 4 1
      (demo_world\<lparr>w_mem := demo_heap\<lparr>blocks := [2 \<mapsto> ack_packet 0, 3 \<mapsto> ack_packet 9], brk := 4\<rparr>\<rparr>) = Inr (c', w')
    \<and> blocks (w_mem w') 3 = Some (ack_packet 9) \<and> 3 \<notin> owns c'"
proof -
  let ?c = "demo_client\<lparr>c_lastpacket := \<lparr>pq_p = 3, pq_len = 4, pq_allocated = 1\<rparr>\<rparr>"
  let ?w = "demo_world\<lparr>w_mem := demo_heap\<lparr>blocks := [2 \<mapsto> ack_packet 0, 3 \<mapsto> ack_packet 9], brk := 4\<rparr>\<rparr>"
  have ok: "queue_ok ?c ?w"
    by (simp add: queue_ok_def heap_wf_def mux_ok_def demo_defs)
  obtain c' w' where run: "QueuePacket ?c 2 4 1 ?w = Inr (c', w')"
    by (simp add: QueuePacket_def list_push_def nmalloc_eq load_def store_def SetSocketStatus_def epoll_SetSocketStatus_def
        epoll_ctl_mod_def Let_def ack_packet_def demo_defs)
  have "blocks (w_mem w') 3 = Some (ack_packet 9) \<and> 3 \<notin> owns c'"
    by (rule lastpacket_leaks [OF ok run]) (simp_all add: demo_defs)
  with run show ?thesis by blast
qed

section \<open>Vectors\<close>

text \<open>
  With memory available, \<open>vec_push\<close> appends the element: the vector represents the
  longer list, its length within its capacity and every cell below the length written.
\<close>

theorem vec_push_appends:
  assumes "vec_rep v xs" "granted avail memsz" "length xs < 2 ^ 30"
  shows "\<exists>v'. vec_push avail memsz x (e, v) = Inr (e, v') \<and> vec_rep v' (xs @ [x])"
  by (rule vec_push_total [OF assms])

theorem vec_push_appends_witness:
  "\<exists>v'. vec_push (\<lambda>_. True) 8 (5 :: nat) (0, vec_init) = Inr (0, v') \<and> vec_rep v' ([] @ [5])"
  by (rule vec_push_appends) (simp_all add: granted_def)

text \<open>
  Without memory, a push onto a full vector writes past the end of its block: the
  capacity is raised before the allocation and \<open>errno\<close> is not looked at.
\<close>

theorem vec_push_without_memory:
  assumes "vec_rep v xs" "length (vdata v) = length xs" "memsz \<noteq> 0" "length xs < 2 ^ 30"
    and "\<forall>b. \<not> avail b"
  shows "vec_push avail memsz x (e, v) = Inl Out_of_bounds"
  using vec_push_no_memory [OF assms(1-4)] assms(5) by blast

theorem vec_push_without_memory_witness:
  "vec_push (\<lambda>_. False) 8 (5 :: nat) (0, vec_init) = Inl Out_of_bounds"
  by (rule vec_push_without_memory [where xs = "[]"]) (simp_all add: vec_init_def vec_rep_def)

text \<open>
  The same happens to the events of epoll: when the vector cannot be enlarged for more sockets, the kernel is told of
  cells that are not there, and writes behind the block when that many events are pending.
\<close>

theorem epoll_events_without_memory:
  assumes "vcapacity (ep_events k) \<le> int n" "0 < n" "n < 2 ^ 30" "\<forall>b. \<not> ep_avail k b"
    and "length (vdata (ep_events k)) < length evs" "length evs \<le> n * 2"
  shows "\<exists>e1 k1. epoll_reserve n e k = Inr (e1, k1) \<and> epoll_wait evs k1 = Inl Out_of_bounds"
proof -
  have "reallocarray (ep_avail k) x y = None" for x y
    using assms(4) by (simp add: reallocarray_def)
  with assms show ?thesis
    by (simp add: epoll_reserve_def vec_reserve_def realloc_cells_def sizeof_epoll_event_def epoll_wait_def Let_def)
qed

theorem epoll_events_without_memory_witness:
  "\<exists>e1 k1. epoll_reserve 5 0 (demo_epoll\<lparr>ep_avail := \<lambda>_. False\<rparr>) = Inr (e1, k1)
    \<and> epoll_wait (replicate 6 (3, EPOLLIN)) k1 = Inl Out_of_bounds"
  by (rule epoll_events_without_memory) simp_all

text \<open>\<open>vec_insert\<close> puts the element at its index and moves the later ones up.\<close>

theorem vec_insert_at_index:
  assumes "vec_rep v (xs @ ys)" "e \<noteq> ENOMEM" "granted avail memsz" "length (xs @ ys) < 2 ^ 30"
  shows "\<exists>v'. vec_insert avail memsz (int (length xs)) x (e, v) = Inr (e, v') \<and> vec_rep v' (xs @ x # ys)"
  by (rule vec_insert_rep [OF assms])

theorem vec_insert_at_index_witness:
  "\<exists>v'. vec_insert (\<lambda>_. True) 8 (int (length [1 :: nat])) (7 :: nat)
      (0, \<lparr>vdata = [Some 1, Some 2], vlength = 2, vcapacity = 2\<rparr>) = Inr (0, v')
    \<and> vec_rep v' ([1] @ 7 # [2])"
  by (rule vec_insert_at_index) (simp_all add: vec_rep_iff vec_wf_def contents_def granted_def ENOMEM_def)

text \<open>
  If \<open>errno\<close> still holds \<open>ENOMEM\<close> from an earlier failure, \<open>vec_insert\<close> does not move
  the elements: the one at the index is overwritten and lost.
\<close>

theorem vec_insert_stale_errno_loses:
  assumes "vec_rep v (xs @ y # ys)" "length (xs @ y # ys) < length (vdata v)" "memsz \<noteq> 0"
  shows "\<exists>v'. vec_insert avail memsz (int (length xs)) x (ENOMEM, v) = Inr (ENOMEM, v')
    \<and> take (length (xs @ y # ys)) (vdata v') = map Some (xs @ x # ys)"
  using vec_insert_stale_errno [OF assms, of avail x] by blast

theorem vec_insert_stale_errno_loses_witness:
  "\<exists>v'. vec_insert (\<lambda>_. True) 8 (int (length [1 :: nat])) (7 :: nat)
      (ENOMEM, \<lparr>vdata = [Some 1, Some 2, None], vlength = 2, vcapacity = 3\<rparr>) = Inr (ENOMEM, v')
    \<and> take (length [1 :: nat, 2]) (vdata v') = map Some [1, 7]"
  using vec_insert_stale_errno_loses [of "\<lparr>vdata = [Some (1 :: nat), Some 2, None], vlength = 2, vcapacity = 3\<rparr>"
      "[1]" 2 "[]" 8 "\<lambda>_. True" 7]
  by (simp add: vec_rep_iff vec_wf_def contents_def)

text \<open>\<open>vec_reverse\<close>, which swaps through the cell behind the last element, reverses.\<close>

theorem vec_reverse_reverses:
  assumes "vec_rep v xs" "e \<noteq> ENOMEM" "granted avail memsz" "length xs < 2 ^ 30"
  shows "\<exists>v'. vec_reverse avail memsz (e, v) = Inr (e, v') \<and> vec_rep v' (rev xs)"
  by (rule vec_reverse_rep [OF assms])

theorem vec_reverse_reverses_witness:
  "\<exists>v'. vec_reverse (\<lambda>_. True) 8 (0, \<lparr>vdata = [Some (1 :: nat), Some 2], vlength = 2, vcapacity = 2\<rparr>)
      = Inr (0, v') \<and> vec_rep v' (rev [1, 2])"
  by (rule vec_reverse_reverses) (simp_all add: vec_rep_iff vec_wf_def contents_def granted_def ENOMEM_def)

section \<open>Text, multiplexer, modules\<close>

text \<open>
  A block size between 8 and 65464, written in decimal as a client sends it, is
  taken over exactly: \<open>OptionAcknowledge\<close> is called for it (its packet is C37's), the stored size is the number, and the
  transfer is set to start with the next ACK.
\<close>

theorem blksize_negotiated:
  assumes "client_ok c w" "strcasecmp opt ''blksize'' = 0" "8 \<le> n" "n \<le> 65464"
  shows "\<exists>c' w'. rrq_option c opt (Some (dec_nat n)) w = Inr (Some False, c', w')
    \<and> unat (c_blksize c') = n \<and> c_sendingfile c' = 1 \<and> c_currentblockno c' = 0
    \<and> queued c' w' = queued c w @ [oack_packet opt (dec_nat n)]"
proof -
  let ?we = "w\<lparr>w_errno := 0\<rparr>"
  have "client_ok c ?we" using assms(1) by (subst client_ok_cong) simp_all
  then obtain c' w' where oa: "OptionAcknowledge c opt (dec_nat n) ?we = Inr (c', w')"
      "enqueued c ?we [oack_packet opt (dec_nat n)] c' w'"
    using OptionAcknowledge_total by (fastforce simp: total_ex)
  have "strtol (dec_nat n) = (int n, False)"
    by (rule strtol_dec_nat) (use assms(4) in \<open>simp add: LONG_MAX_def\<close>)
  with assms(2-4) oa show ?thesis
    by (auto simp: rrq_option_def Let_def ERANGE_def enqueued_defs queued_def unat_of_nat take_bit_nat_eq_self)
qed

theorem blksize_negotiated_witness:
  "\<exists>c' w'. rrq_option demo_client ''BlkSize'' (Some (dec_nat 1428)) demo_world = Inr (Some False, c', w')
    \<and> unat (c_blksize c') = 1428 \<and> c_sendingfile c' = 1 \<and> c_currentblockno c' = 0
    \<and> queued c' w' = queued demo_client demo_world @ [oack_packet ''BlkSize'' (dec_nat 1428)]"
proof (rule blksize_negotiated [OF demo_client_ok])
  show "strcasecmp ''BlkSize'' ''blksize'' = 0" by code_simp
qed simp_all

text \<open>\<open>FixPath\<close> turns every backslash into a slash and leaves the other bytes alone.\<close>

theorem FixPath_replaces:
  "FixPath s = map (\<lambda>c. if c = CHR 0x5C then CHR ''/'' else c) s"
  by (simp add: FixPath_map fix_char_def)

text \<open>
  \<open>SizeReduce\<close> of any 64-bit size is at most seven characters long: its loop ends after
  at most six rounds, below the end of the table of units.
\<close>

theorem SizeReduce_short:
  "length (SizeReduce n) \<le> 7 \<and> snd (size_reduce_loop n 0) < length size_names"
  using SizeReduce_length [of n] size_reduce_loop_64 [of n] by (simp add: size_names_def)

text \<open>
  An event reaches exactly the hooks registered for it, in the order of the modules
  and, within a module, of its event list.
\<close>

theorem events_reach_hooks:
  "evlog (CallEvent t ms) = evlog ms @ map (\<lambda>f. (f, t)) (hooks t (modules ms))
    \<and> modules (CallEvent t ms) = modules ms"
  by (simp add: CallEvent_log)

text \<open>
  Unloading a module that was just loaded under a new name restores the module list
  and the open handles, and every block allocated before is as it was.
\<close>

theorem load_unload_restores:
  assumes "heap_wf h" "LoadModule dlopen str (h, ms) = Inr ((r, Some m), h', ms')"
    and "\<forall>m' \<in> set (modules ms). mi_name (mod_info m') \<noteq> mi_name (mod_info m)"
    and "dl_next ms \<noteq> 0" "dl_next ms \<notin> set (dl_open ms)"
  shows "\<exists>h'' ms''. UnloadModule m (h', ms') = Inr (h'', ms'') \<and> modules ms'' = modules ms
    \<and> dl_open ms'' = dl_open ms \<and> (\<forall>p < brk h. blocks h'' p = blocks h p)"
  by (rule Load_Unload [OF assms])

theorem load_unload_restores_witness:
  "\<exists>m h' ms' h'' ms''.
    LoadModule (\<lambda>_. Some (Some \<lparr>mi_name = ''m'', mi_events = []\<rparr>, None)) ''m.so'' (demo_heap, w_mods demo_world)
      = Inr ((0, Some m), h', ms')
    \<and> UnloadModule m (h', ms') = Inr (h'', ms'') \<and> modules ms'' = [] \<and> dl_open ms'' = []"
proof -
  let ?dl = "\<lambda>_. Some (Some \<lparr>mi_name = ''m'', mi_events = []\<rparr>, None)"
  obtain m h' ms' where run: "LoadModule ?dl ''m.so'' (demo_heap, w_mods demo_world) = Inr ((0, Some m), h', ms')"
    by (simp add: LoadModule_def strdup_eq list_push_def demo_defs Let_def)
  moreover have "heap_wf demo_heap" by (simp add: heap_wf_def demo_heap_def)
  moreover have ms: "modules (w_mods demo_world) = []" "dl_next (w_mods demo_world) = 1"
      "dl_open (w_mods demo_world) = []"
    by (simp_all add: demo_world_def)
  ultimately obtain h'' ms'' where "UnloadModule m (h', ms') = Inr (h'', ms'')" "modules ms'' = []"
      "dl_open ms'' = []"
    using load_unload_restores [OF _ run] by auto
  with run show ?thesis by blast
qed

text \<open>
  An ACK during a read transfer, whatever its block number, queues the next block
  under the next number and marks the client for removal if the block is short.
\<close>

theorem ack_sends_next_block:
  assumes "sending b bs i c w" "is_packet PACKET_ACK (buf, len)"
  shows "\<exists>c' w'. ProcessPacket c buf len w = Inr (c', w') \<and> sending b bs (Suc i) c' w'
    \<and> queued c' w' = queued c w @ [data_of b bs i]
    \<and> c_destroy c' = (if length (block_of b i bs) < b then 1 else c_destroy c)"
  using ack_step [OF assms] by (auto simp: total_ex)

theorem ack_sends_next_block_witness:
  "\<exists>c' w'. ProcessPacket (fst demo_sending) demo_ack 4 (snd demo_sending) = Inr (c', w')
    \<and> sending 512 ''hello'' (Suc 1) c' w'
    \<and> queued c' w' = queued (fst demo_sending) (snd demo_sending) @ [data_of 512 ''hello'' 1]
    \<and> c_destroy c' = (if length (block_of 512 1 ''hello'') < 512 then 1 else c_destroy (fst demo_sending))"
proof (rule ack_sends_next_block [OF _ demo_ack_packet])
  show "sending 512 ''hello'' 1 (fst demo_sending) (snd demo_sending)"
    using demo_client_ok
    by (simp add: sending_def demo_sending_def client_ok_def queue_ok_def plain_marks_def blk_ok_def)
      (simp add: demo_defs reading_def unread_def file_bytes_def)
qed

end
