(* ===== verification/Vec_Iter.thy ===== *)
theory Vec_Iter
  imports Vec "HOL-Library.Multiset"
begin

text \<open>
  The iteration and sorting macros of src/include/vec.h the program itself does not use: backward, by
  pointer, and \<open>vec_sort\<close>. A body that gets a pointer is a function from the element to its
  new value. \<open>qsort\<close> of the C library is a parameter.
\<close>

section \<open>The macros\<close>

fun vec_foreach_rev_from :: "nat \<Rightarrow> 'a vec \<Rightarrow> ('a \<Rightarrow> 's \<Rightarrow> fault + 's) \<Rightarrow> 's \<Rightarrow> fault + 's" where
  "vec_foreach_rev_from 0 v body s = Inr s"
| "vec_foreach_rev_from (Suc i) v body s =
     and_then (read_cell (int i) v) (\<lambda>x. and_then (body x s) (vec_foreach_rev_from i v body))"

definition vec_foreach_rev :: "'a vec \<Rightarrow> ('a \<Rightarrow> 's \<Rightarrow> fault + 's) \<Rightarrow> 's \<Rightarrow> fault + 's" where
  "vec_foreach_rev v body s =
     (if vlength v > 0 then vec_foreach_rev_from (nat (vlength v)) v body s else Inr s)"

text \<open>One round with \<open>var = &v->data[i]\<close>: the body may write the cell.\<close>

definition at_pointer :: "('a \<Rightarrow> 's \<Rightarrow> fault + 'a \<times> 's) \<Rightarrow> int \<Rightarrow> 'a vec \<times> 's \<Rightarrow> fault + 'a vec \<times> 's" where
  "at_pointer body i st =
     (case st of (v, s) \<Rightarrow>
       and_then (read_cell i v) (\<lambda>x.
       and_then (body x s) (\<lambda>(x', s').
       and_then (write_cell i x' v) (\<lambda>v'. Inr (v', s')))))"

lemma at_pointer_length: "at_pointer body i (v, s) = Inr (v', s') \<Longrightarrow> vlength v' = vlength v"
  by (auto simp: at_pointer_def write_cell_def and_then_eq_Inr split: if_splits)

text \<open>The number of rounds: the body leaves the length alone.\<close>

fun vec_foreach_ptr_from ::
  "nat \<Rightarrow> int \<Rightarrow> ('a \<Rightarrow> 's \<Rightarrow> fault + 'a \<times> 's) \<Rightarrow> 'a vec \<times> 's \<Rightarrow> fault + 'a vec \<times> 's" where
  "vec_foreach_ptr_from 0 i body st = Inr st"
| "vec_foreach_ptr_from (Suc n) i body st =
     and_then (at_pointer body i st) (vec_foreach_ptr_from n (i + 1) body)"

definition vec_foreach_ptr :: "'a vec \<Rightarrow> ('a \<Rightarrow> 's \<Rightarrow> fault + 'a \<times> 's) \<Rightarrow> 's \<Rightarrow> fault + 'a vec \<times> 's" where
  "vec_foreach_ptr v body s =
     (if vlength v > 0 then vec_foreach_ptr_from (nat (vlength v)) 0 body (v, s) else Inr (v, s))"

fun vec_foreach_ptr_rev_from ::
  "nat \<Rightarrow> ('a \<Rightarrow> 's \<Rightarrow> fault + 'a \<times> 's) \<Rightarrow> 'a vec \<times> 's \<Rightarrow> fault + 'a vec \<times> 's" where
  "vec_foreach_ptr_rev_from 0 body st = Inr st"
| "vec_foreach_ptr_rev_from (Suc i) body st =
     and_then (at_pointer body (int i) st) (vec_foreach_ptr_rev_from i body)"

definition vec_foreach_ptr_rev :: "'a vec \<Rightarrow> ('a \<Rightarrow> 's \<Rightarrow> fault + 'a \<times> 's) \<Rightarrow> 's \<Rightarrow> fault + 'a vec \<times> 's" where
  "vec_foreach_ptr_rev v body s =
     (if vlength v > 0 then vec_foreach_ptr_rev_from (nat (vlength v)) body (v, s) else Inr (v, s))"

definition vec_sort ::
  "(('a \<Rightarrow> 'a \<Rightarrow> int) \<Rightarrow> 'a option list \<Rightarrow> 'a option list) \<Rightarrow> ('a \<Rightarrow> 'a \<Rightarrow> int) \<Rightarrow> 'a vec \<Rightarrow> fault + 'a vec" where
  "vec_sort qsort fn v =
     (let n = nat (vlength v) in
      if length (vdata v) < n then Inl Out_of_bounds
      else Inr (v\<lparr>vdata := qsort fn (take n (vdata v)) @ drop n (vdata v)\<rparr>))"

section \<open>What they do on lists\<close>

lemma vec_foreach_rev_rep:
  assumes "vec_rep v xs"
  shows "vec_foreach_rev v body s = fold_res body (rev xs) s"
proof -
  have len: "vlength v = int (length xs)" using assms by (simp add: vec_rep_def)
  have "vec_foreach_rev_from n v body s = fold_res body (rev (take n xs)) s" if "n \<le> length xs" for n
    using that
  proof (induction n arbitrary: s)
    case (Suc n)
    then have "read_cell (int n) v = Inr (xs ! n)" by (simp add: read_cell_rep [OF assms])
    moreover have "vec_foreach_rev_from n v body = fold_res body (rev (take n xs))"
      using Suc by (intro ext) simp
    ultimately show ?case using Suc.prems by (simp add: take_Suc_conv_app_nth)
  qed simp
  from this [of "length xs"] show ?thesis
    by (cases xs) (simp_all add: vec_foreach_rev_def len nat_add_distrib del: vec_foreach_rev_from.simps)
qed

text \<open>A pass over a list that changes its elements, from the front and from the back.\<close>

fun map_res :: "('a \<Rightarrow> 's \<Rightarrow> fault + 'a \<times> 's) \<Rightarrow> 'a list \<Rightarrow> 's \<Rightarrow> fault + 'a list \<times> 's" where
  "map_res body [] s = Inr ([], s)"
| "map_res body (x # xs) s =
     and_then (body x s) (\<lambda>(y, s1). and_then (map_res body xs s1) (\<lambda>(ys, s2). Inr (y # ys, s2)))"

lemma write_cell_rep:
  assumes "vec_rep v xs" "i < length xs"
  obtains v' where "write_cell (int i) y v = Inr v'" "vec_rep v' (xs[i := y])"
proof -
  from assms(1) obtain rest where v: "vdata v = map Some xs @ rest" "vlength v = int (length xs)"
    "vcapacity v = int (length xs + length rest)" by (rule vec_repE)
  let ?v = "v\<lparr>vdata := (vdata v)[i := Some y]\<rparr>"
  have "vdata ?v = map Some (xs[i := y]) @ rest"
    using assms(2) by (simp add: v(1) list_update_append map_update)
  then have "vec_rep ?v (xs[i := y])"
    using v by (intro vec_repI [where rest = rest]) simp_all
  moreover have "write_cell (int i) y v = Inr ?v"
    using assms(2) by (simp add: write_cell_def v(1))
  ultimately show thesis using that by blast
qed

lemma at_pointer_rep:
  assumes "vec_rep v (xs @ x # ys)"
  shows "body x s = Inl e \<Longrightarrow> at_pointer body (int (length xs)) (v, s) = Inl e"
    and "body x s = Inr (y, s') \<Longrightarrow>
      \<exists>v'. at_pointer body (int (length xs)) (v, s) = Inr (v', s') \<and> vec_rep v' (xs @ y # ys)"
proof -
  have rd: "read_cell (int (length xs)) v = Inr x" by (simp add: read_cell_rep [OF assms])
  obtain v' where wr: "write_cell (int (length xs)) y v = Inr v'" "vec_rep v' ((xs @ x # ys)[length xs := y])"
    by (rule write_cell_rep [OF assms, of "length xs" y]) simp
  show "at_pointer body (int (length xs)) (v, s) = Inl e" if "body x s = Inl e"
    using that rd by (simp add: at_pointer_def)
  show "\<exists>v'. at_pointer body (int (length xs)) (v, s) = Inr (v', s') \<and> vec_rep v' (xs @ y # ys)"
    if "body x s = Inr (y, s')"
    using that rd wr by (simp add: at_pointer_def)
qed

text \<open>By pointer, forwards: every element is replaced, in the order of the list.\<close>

lemma vec_foreach_ptr_from_rep:
  assumes "vec_rep v (xs @ ys)"
  shows "case map_res body ys s of
      Inl e \<Rightarrow> vec_foreach_ptr_from (length ys) (int (length xs)) body (v, s) = Inl e
    | Inr (zs, s') \<Rightarrow> \<exists>v'. vec_foreach_ptr_from (length ys) (int (length xs)) body (v, s) = Inr (v', s') \<and> vec_rep v' (xs @ zs)"
  using assms
proof (induction ys arbitrary: xs v s)
  case (Cons y ys)
  show ?case
  proof (cases "body y s")
    case (Inl e)
    with at_pointer_rep(1) [OF Cons.prems, where body = body and s = s and e = e, OF Inl] show ?thesis by simp
  next
    case (Inr r)
    obtain z s1 where r: "r = (z, s1)" by force
    from at_pointer_rep(2) [OF Cons.prems, where body = body and s = s, OF Inr [unfolded r]] obtain v1 where
      v1: "at_pointer body (int (length xs)) (v, s) = Inr (v1, s1)" "vec_rep v1 ((xs @ [z]) @ ys)" by auto
    from Cons.IH [OF v1(2), of s1] v1(1) Inr r show ?thesis
      by (auto split: sum.splits simp: add.commute)
  qed
qed simp

lemma vec_foreach_ptr_rep:
  assumes "vec_rep v xs"
  shows "case map_res body xs s of
      Inl e \<Rightarrow> vec_foreach_ptr v body s = Inl e
    | Inr (ys, s') \<Rightarrow> \<exists>v'. vec_foreach_ptr v body s = Inr (v', s') \<and> vec_rep v' ys"
proof -
  have "vlength v = int (length xs)" using assms by (simp add: vec_rep_def)
  then have "vec_foreach_ptr v body s = vec_foreach_ptr_from (length xs) 0 body (v, s)"
    by (cases xs) (simp_all add: vec_foreach_ptr_def nat_add_distrib)
  with vec_foreach_ptr_from_rep [of v "[]" xs body s] assms show ?thesis
    by (auto split: sum.splits)
qed

text \<open>Backwards: the elements are replaced from the last to the first.\<close>

lemma vec_foreach_ptr_rev_from_rep:
  assumes "vec_rep v (xs @ ys)"
  shows "case map_res body (rev xs) s of
      Inl e \<Rightarrow> vec_foreach_ptr_rev_from (length xs) body (v, s) = Inl e
    | Inr (zs, s') \<Rightarrow> \<exists>v'. vec_foreach_ptr_rev_from (length xs) body (v, s) = Inr (v', s') \<and> vec_rep v' (rev zs @ ys)"
  using assms
proof (induction xs arbitrary: ys v s rule: rev_induct)
  case (snoc x xs)
  then have rep: "vec_rep v (xs @ x # ys)" by simp
  show ?case
  proof (cases "body x s")
    case (Inl e)
    with at_pointer_rep(1) [OF rep, where body = body and s = s and e = e, OF Inl] show ?thesis by simp
  next
    case (Inr r)
    obtain z s1 where r: "r = (z, s1)" by force
    from at_pointer_rep(2) [OF rep, where body = body and s = s, OF Inr [unfolded r]] obtain v1 where
      v1: "at_pointer body (int (length xs)) (v, s) = Inr (v1, s1)" "vec_rep v1 (xs @ z # ys)" by auto
    from snoc.IH [OF v1(2), of s1] v1(1) Inr r show ?thesis
      by (auto split: sum.splits)
  qed
qed simp

lemma vec_foreach_ptr_rev_rep:
  assumes "vec_rep v xs"
  shows "case map_res body (rev xs) s of
      Inl e \<Rightarrow> vec_foreach_ptr_rev v body s = Inl e
    | Inr (ys, s') \<Rightarrow> \<exists>v'. vec_foreach_ptr_rev v body s = Inr (v', s') \<and> vec_rep v' (rev ys)"
proof -
  have "vlength v = int (length xs)" using assms by (simp add: vec_rep_def)
  then have "vec_foreach_ptr_rev v body s = vec_foreach_ptr_rev_from (length xs) body (v, s)"
    by (cases xs) (simp_all add: vec_foreach_ptr_rev_def nat_add_distrib)
  with vec_foreach_ptr_rev_from_rep [of v xs "[]" body s] assms show ?thesis
    by (auto split: sum.splits)
qed

text \<open>Sorting: what \<open>qsort\<close> promises of the cells holds of the elements.\<close>

lemma vec_sort_rep:
  assumes "vec_rep v xs" and q: "mset (qsort fn (map Some xs)) = mset (map Some xs)"
    "sorted_wrt (\<lambda>a b. fn (the a) (the b) \<le> 0) (qsort fn (map Some xs))"
  shows "\<exists>v' ys. vec_sort qsort fn v = Inr v' \<and> vec_rep v' ys \<and> mset ys = mset xs
    \<and> sorted_wrt (\<lambda>a b. fn a b \<le> 0) ys"
proof -
  from assms(1) obtain rest where v: "vdata v = map Some xs @ rest" "vlength v = int (length xs)"
    "vcapacity v = int (length xs + length rest)" by (rule vec_repE)
  let ?cs = "qsort fn (map Some xs)"
  have "set ?cs = Some ` set xs" using mset_eq_setD [OF q(1)] by simp
  then have cs: "map Some (map the ?cs) = ?cs" unfolding map_map by (intro map_idI) auto
  have ms: "mset (map the ?cs) = mset xs"
    using arg_cong [OF q(1), of "image_mset the"] mset_map [of the "map Some xs"] by (simp add: comp_def)
  have "length ?cs = length xs" using mset_eq_length [OF q(1)] by simp
  with cs have "vec_rep (v\<lparr>vdata := ?cs @ rest\<rparr>) (map the ?cs)"
    using v by (intro vec_repI [where rest = rest]) simp_all
  moreover have "vec_sort qsort fn v = Inr (v\<lparr>vdata := ?cs @ rest\<rparr>)"
    by (simp add: vec_sort_def v)
  moreover have "sorted_wrt (\<lambda>a b. fn a b \<le> 0) (map the ?cs)"
    using q(2) by (simp add: sorted_wrt_map)
  ultimately show ?thesis using ms by blast
qed

end
