(* ===== verification/Spec2Isabelle.thy ===== *)
theory Spec2Isabelle
  imports Demo Program_Properties Further_Facts Vec_Iter
begin

text \<open>
  \<^bold>\<open>A model of nbstftp, a TFTP server, and its correctness.\<close>

  \<^bold>\<open>The program.\<close> nbstftp is a single-threaded TFTP server in C. \<open>main\<close> (src/src/main.c)
  reads the command line (src/src/commandline.c) and the configuration (src/src/scanner.l,
  src/src/parser.y, src/src/config.c), writes its pid file, loads modules, binds a UDP socket for
  every listen block, changes user and group, goes to the background (src/src/misc.c) and then
  loops: \<open>ProcessSockets\<close> (src/src/multiplexers, one of four files is linked) waits for events,
  \<open>ReceivePackets\<close> (src/src/socket.c) takes a datagram into the buffer of the socket and finds or
  allocates the client it comes from (src/src/client.c), \<open>ProcessPacket\<close> (src/src/process.c)
  reacts to it, the functions of src/src/packet.c build the answers and \<open>QueuePacket\<close> puts
  them into the queue of the client, \<open>SendPackets\<close> sends the queues and removes the clients
  that are done, and \<open>CheckClients\<close> would resend what was not answered. Signals
  (src/src/signalhandler.c) end the loop or have the configuration read again. Clients, sockets,
  queues and modules are kept in the generic vectors of src/src/vec.c and src/include/vec.h;
  modules (src/src/module.c) register hooks that events raised by the handlers call.

  \<^bold>\<open>The theories.\<close> The foundation:
  \<^item> \<open>Prelude\<close>: the result type \<open>fault + 'a\<close> (every crash of the C program is a value of
    \<open>fault\<close>), sequencing with \<open>and_then\<close>, the judgements \<open>sat\<close>, \<open>partial\<close> and \<open>total\<close> on
    results, network byte order.
  \<^item> \<open>Memory\<close>: the C heap as numbered blocks of bytes that may run out (\<open>malloc\<close>, \<open>free\<close>,
    \<open>load\<close>, \<open>store\<close>, \<open>memset\<close>, \<open>strdup\<close>), and \<open>nmalloc\<close>, \<open>vasprintf\<close> and \<open>stringify\<close> of
    src/src/misc.c. The locale \<open>block_memory\<close> is what the packet builders rely on; it is
    interpreted on this heap.
  \<^item> \<open>Vec\<close>: src/src/reallocarray.c, src/src/vec.c and the macros of src/include/vec.h, at the level of
    cells, lengths and capacities, with failing allocation and \<open>errno\<close>; \<open>Vec_Iter\<close>: the macros the
    program does not use (backward and pointer iteration, sorting). The locale \<open>pool\<close>
    is the contract of a vector as a list; it is interpreted on the vectors and on the
    lists that the other theories use in their place.
  \<^item> \<open>Text\<close>: C strings, \<open>strcasecmp\<close>, \<open>strtol\<close>, decimal output, \<open>FixPath\<close>
    (src/src/filesystem.c), \<open>SizeReduce\<close> (src/src/misc.c), \<open>GetNext\<close> (src/src/process.c).
  \<^item> \<open>Files\<close>: the file system and C streams the handlers use, \<open>FileExists\<close> and
    \<open>IsDirectory\<close> (src/src/filesystem.c). The locale \<open>byte_source\<close> says how repeated reads
    cut a source into blocks; it is interpreted on \<open>fread\<close>.

  The server:
  \<^item> \<open>Module_Events\<close>: src/src/module.c and src/include/module.h.
  \<^item> \<open>Multiplexer\<close>: the contract of src/include/multiplexer.h as the locale \<open>multiplexer\<close>, and
    the locale \<open>two_multiplexers\<close>, in which two of them are shown to answer alike. \<open>Epoll\<close>,
    \<open>Poll\<close>, \<open>Select\<close> and \<open>Kqueue\<close> hold the four implementations (their functions are named with a
    prefix, e.g. \<open>poll_SetSocketStatus\<close>), \<open>Mux\<close> the choice between them that is made at
    build time. epoll keeps the cells of its vector of events, which grows with the sockets. The kqueue collects its changes in a growing vector of cells; it is shown to refine a list of
    changes, which satisfies the contract.
  \<^item> \<open>World\<close>: the structures of src/include/packets.h, client.h and socket.h, and the
    record \<open>world\<close>, the whole state of the server: memory, clients and the pool of pointers
    to them, sockets, \<open>errno\<close>, clock, multiplexer, network, file system, modules, and the
    members of the configuration that the handlers read.
  \<^item> \<open>Sockets\<close>: \<open>GetPort\<close>, \<open>AddSocket\<close>, \<open>FindSocket\<close>, \<open>DestroySocket\<close>, \<open>QueuePacket\<close> of
    src/src/socket.c.
  \<^item> \<open>Packets\<close>: \<open>SendData\<close>, \<open>Acknowledge\<close>, \<open>Error\<close>, \<open>OptionAcknowledge\<close> of src/src/packet.c;
    \<open>Packet_Frames\<close>: what they and \<open>ProcessPacket\<close> leave alone, with the memory and the streams that
    are not the client's.
  \<^item> \<open>Clients\<close>: all of src/src/client.c. The locale \<open>pool_body\<close> treats the loops that may
    remove the element they visit; it is interpreted on the bodies of \<open>CheckClients\<close> and
    (in \<open>Transport\<close>) of \<open>SendPackets\<close>.
  \<^item> \<open>Process_Packet\<close>: \<open>ProcessPacket\<close> of src/src/process.c, one definition for each case of its
    switch. \<open>Packet_Contracts\<close> and \<open>Read_Contracts\<close> state for every branch what is queued and
    what changes; \<open>File_Transfer\<close> composes them to whole transfers.
  \<^item> \<open>Transport\<close>: \<open>SendPackets\<close> and \<open>ReceivePackets\<close> of src/src/socket.c and \<open>ProcessSockets\<close>
    of the four multiplexers.
  \<^item> \<open>Server\<close>: one round of the loop of \<open>main\<close>, the step relation in which clock and network
    change arbitrarily between rounds, the reachable states and their invariant. The locale
    \<open>round_invariant\<close> proves once, for all four multiplexers, that a round keeps what sending and receiving keep;
    it is interpreted on the invariant of the pool and, in \<open>Isolation\<close>, on the one that no two
    clients share memory or a stream. \<open>Rounds\<close>: the loops of poll and select end. \<open>Exchange\<close>:
    from a datagram to the answer.
  \<^item> \<open>Ownership\<close>, \<open>Session\<close>, \<open>Conversation\<close>: a listening socket and the client it serves through
    as many rounds as its transfer takes. The first says which blocks of memory are whose and that packets keep
    them apart, so that removing the client frees each of its blocks once and none of the socket's. The second
    has the locale \<open>transfer\<close>, the contract between the rounds and the state of a transfer, and
    \<open>packet_step\<close>, which joins two such states; the third interprets them on sending and receiving.

  The process around it:
  \<^item> \<open>Config_Lexer\<close>, \<open>Config_Parser\<close>: src/src/scanner.l and the grammar of src/src/parser.y as
    functions from text to tokens to the actions of the grammar. \<open>Config_Print\<close>: a configuration
    written down, and that it is read back.
  \<^item> \<open>Config\<close>: the structures of src/include/config.h in a heap, the actions of src/src/parser.y, and
    \<open>ParseConfig\<close> and \<open>DeallocateConfig\<close> of src/src/config.c. \<open>Config_Inv\<close>: what is owned by
    whom, and the configuration as plain data with the meaning \<open>spec_act\<close> of every action;
    \<open>Config_Actions\<close>: every action keeps the invariant and implements its meaning;
    \<open>Config_Life\<close>: parsing, freeing, and the case of SIGHUP in src/src/signalhandler.c (\<open>rehash\<close>).
  \<^item> \<open>Commandline\<close>: src/src/commandline.c.
  \<^item> \<open>Startup\<close>: \<open>die\<close>, \<open>SwitchUserAndGroup\<close>, \<open>InTerm\<close>, \<open>Daemonize\<close> of src/src/misc.c,
    \<open>SetFilePermissions\<close> of src/src/filesystem.c, \<open>WritePID\<close> of src/src/main.c, on the record \<open>proc\<close>,
    the state of the process, and the record \<open>system\<close>, the answers of the kernel and C library.
    \<open>Program\<close>: \<open>BindToSocket\<close>, \<open>InitializeSockets\<close>, \<open>ShutdownSockets\<close>, \<open>SignalHandler\<close>, and \<open>main\<close>
    up to its loop (\<open>main_start\<close>), as steps (\<open>pstep\<close>) and from the label \<open>cleanup\<close>
    (\<open>main_cleanup\<close>). \<open>Program_Inv\<close>: what these keep.
  \<^item> \<open>Demo\<close>: a small concrete server, the input of the witnesses. \<open>Config_Properties\<close> and
    \<open>Program_Properties\<close> hold the properties of configuration and process, \<open>Further_Facts\<close>
    facts that are not numbered, and this theory the other properties.

  \<^bold>\<open>What is shown.\<close> C1 to C3 and C12: whole transfers of a client that keeps to the numbers of the protocol, block by block: C1 to C3 from
  datagram to datagram, through the rounds of the loop, until the client is gone from the pool (not all of its memory
  is freed: \<open>lastpacket_leaks\<close>); C12 in \<open>ProcessPacket\<close>, for any client. In C3 the answer to the option cannot be read, and the
  client goes on all the same. The numbers are not checked by the server: C13, where a repeated block is stored twice, and
  \<open>data_is_written\<close> and \<open>ack_sends_next_block\<close> in \<open>Further_Facts\<close>. C4: a datagram changes nothing that belongs to a client of another descriptor
  or port; the host is not looked at. C5 and C6: an invariant of all states the loop, and the started process, can reach.
  C7 to C10: the configuration file: meaning, round trip, well-formedness, freeing. C11 to C17: single
  packets, sending, the client pool, parsing of requests, and that resending never happens. C18 to C20: the
  multiplexers agree and the loops end. C21 to C27: reading the configuration again, listening
  sockets, command line, pid file, user and group. C28 and C29: packets that make the server read
  or write out of bounds. C30 to C35: requests that are refused or answered at once. C36 to C38:
  a port that is never found, and the wire format. C39 and C40: vectors and allocation. A statement
  \<open>total P r\<close> says that \<open>r\<close> is a result (no fault) with \<open>P\<close>; \<open>partial P r\<close> allows a
  fault.

  \<^bold>\<open>Loops and bounds.\<close> Loops are recursive functions with termination proofs. The loops over
  the client pool, whose length their bodies change, take the length of the pool at their
  start as the number of rounds; C19 shows that more rounds make no difference. The loops of
  \<open>ProcessSockets\<close> for poll and select take the number of entries, or of sockets and waiting
  datagrams; C20 shows the same for them. \<open>int\<close>
  counters of vectors are mathematical integers: the lemmas bound lengths by \<open>2 ^ 30\<close>, below
  which the doubling of a capacity does not overflow. Block numbers, port numbers, flags, the
  members of the configuration and \<open>size_t\<close> differences have their width.

  \<^bold>\<open>Environment.\<close> Which allocations succeed, which datagrams arrive, which \<open>sendto\<close> calls
  fail, which events the kernel reports, the permissions and contents of files, the texts of
  \<open>strerror\<close> and \<open>inet_ntop\<close>, the users and groups, the results of \<open>socket\<close>, \<open>bind\<close>, \<open>fork\<close>,
  \<open>isatty\<close> and \<open>kill\<close>, and the symbols of a shared object are data of the state or
  parameters. Streams opened with "t" and "b" are the same, as on POSIX systems. Reads and
  writes on an open stream do not fail with an I/O error. Signals arrive between the rounds of the
  loop.

  \<^bold>\<open>Not modelled.\<close> Output on the terminal and strings built only to be printed, and the line
  counter of the scanner. The limit of the generated parser's stack. The member \<open>ev->data.fd\<close> for which the
  kqueue multiplexer does not compile is taken for the descriptor of the event. Signals that interrupt a function in the middle.
  Module hooks are code outside the program: a call of a hook is recorded in \<open>evlog\<close>, its effects are not
  modelled.
\<close>

section \<open>Transfers\<close>

text \<open>
  A client that sends a plain read request for a readable file and then enough ACK
  packets is sent the file: \<open>ProcessPacket\<close> queues exactly the 512-byte blocks of the
  file, in order, in DATA packets numbered from 1, and their payloads put together are the
  file. The run succeeds.
\<close>

theorem read_transfer:
  assumes "serves c w buf path bs" "request_option buf = (opt, param)"
    and "strcasecmp opt ''blksize'' \<noteq> 0" "strcasecmp opt ''tsize'' \<noteq> 0"
    and "is_packet PACKET_RRQ (buf, len)" "\<forall>p \<in> set acks. is_packet PACKET_ACK p"
    and "length bs \<le> Suc (length acks) * 512"
  shows "\<exists>c' w' ps. process_all ((buf, len) # acks) (c, w) = Inr (c', w')
    \<and> queued c' w' = queued c w @ ps \<and> ps = map (data_of 512 bs) [0 ..< Suc (length acks)]
    \<and> concat (map payload ps) = bs"
  using read_run [OF assms(1-6)] payloads_data_of [of 512 bs "Suc (length acks)"] assms(7)
  by (auto simp: total_ex simp del: upt_Suc)

theorem read_transfer_witness:
  "\<exists>c' w' ps. process_all [(demo_request PACKET_RRQ ''a'' ''octet'' [NUL], 11), (demo_ack, 4)]
      (demo_client, demo_world) = Inr (c', w')
    \<and> queued c' w' = queued demo_client demo_world @ ps
    \<and> ps = map (data_of 512 ''hello'') [0 ..< Suc (length [(demo_ack, 4 :: nat)])]
    \<and> concat (map payload ps) = ''hello''"
proof -
  let ?buf = "demo_request PACKET_RRQ ''a'' ''octet'' [NUL]"
  have parsed: "parse_request ?buf = Inr (''a'', ''octet'', [], None)"
    by (rule demo_request_plain) simp_all
  have "serves demo_client demo_world ?buf ''/srv/a'' ''hello''"
    using demo_client_ok demo_fs_wf demo_file demo_path [of "''a''"]
    by (simp add: serves_def parsed lower_def) (simp add: demo_client_def zero_client_def)
  moreover have "request_option ?buf = ([], None)"
    by (simp add: request_option_def parsed)
  ultimately show ?thesis
    by (rule read_transfer [where acks = "[(demo_ack, 4)]"])
      (simp_all add: demo_is_packet demo_ack_packet MAX_PACKET_SIZE_def lower_def)
qed

text \<open>
  C12. A write request and the blocks of a file in DATA packets numbered from 1 (in 16 bits), each once and in order,
  full ones and a short one at the end, leave the file with exactly the blocks put together; the request is
  acknowledged with block 0 and every block with its number; the client is marked for removal; no other file changes. The run succeeds.
  Blocks that are repeated: C13.
\<close>

theorem write_transfer:
  assumes "accepts c w buf path" "is_packet PACKET_WRQ (buf, len)" "whole_file ds"
    and "list_all2 (\<lambda>(b, d) p. arrives b d p) (numbered ds) ps"
  shows "\<exists>c' w'. process_all ((buf, len) # ps) (c, w) = Inr (c', w')
    \<and> nodes (w_fs w') path = Some (Reg (concat ds))
    \<and> queued c' w' = queued c w @ map (\<lambda>i. ack_packet (of_nat i)) [0 ..< Suc (length ds)]
    \<and> c_destroy c' = 1 \<and> (\<forall>q. q \<noteq> path \<longrightarrow> nodes (w_fs w') q = nodes (w_fs w) q)"
proof -
  have "\<exists>(b, d) \<in> set (numbered ds). length d < 512"
    using assms(3) by (intro whole_file_short) simp
  with write_run [OF assms(1,2,4)] show ?thesis
    unfolding numbered_all_acks [symmetric] by (auto simp: total_ex)
qed

theorem write_transfer_witness:
  "\<exists>c' w'. process_all [(demo_request PACKET_WRQ ''b'' ''octet'' [NUL], 11),
        (data_packet 1 ''hey'', 7)] (demo_client, demo_world) = Inr (c', w')
    \<and> nodes (w_fs w') ''/srv/b'' = Some (Reg (concat [''hey'']))
    \<and> queued c' w' = queued demo_client demo_world @ map (\<lambda>i. ack_packet (of_nat i)) [0 ..< Suc (length [''hey''])]
    \<and> c_destroy c' = 1 \<and> (\<forall>q. q \<noteq> ''/srv/b'' \<longrightarrow> nodes (w_fs w') q = nodes (w_fs demo_world) q)"
proof (rule write_transfer [where ps = "[(data_packet 1 ''hey'', 7)]"])
  let ?buf = "demo_request PACKET_WRQ ''b'' ''octet'' [NUL]"
  have parsed: "parse_request ?buf = Inr (''b'', ''octet'', [], None)"
    by (rule demo_request_plain) simp_all
  have "writable ''/srv/b'' (w_fs demo_world)" "cf_directory (w_conf demo_world) = Some ''/srv''"
      "access_errno ''/srv/b'' ''/srv'' (w_fs demo_world) \<noteq> EACCES"
    by (simp_all add: demo_defs writable_def access_errno_def access_write_def ENOENT_def EACCES_def)
  then show "accepts demo_client demo_world ?buf ''/srv/b''"
    using demo_client_ok demo_fs_wf demo_path [of "''b''"]
    by (simp add: accepts_def parsed lower_def)
  show "is_packet PACKET_WRQ (?buf, 11)"
    by (simp add: demo_is_packet MAX_PACKET_SIZE_def)
  show "list_all2 (\<lambda>(b, d) p. arrives b d p) (numbered [''hey'']) [(data_packet 1 ''hey'', 7)]"
    by (simp add: numbered_def arrives_def MAX_PACKET_SIZE_def data_packet_def)
  show "whole_file [''hey'']" by simp
qed

text \<open>
  With the option \<open>blksize\<close> in range, a read request is answered by the packet of \<open>OptionAcknowledge\<close>, which
  a client cannot read (C37), and each following ACK by one block of the size that was asked for, from the
  first block on; the payloads put together are the file once there are enough.
\<close>

theorem read_blksize_transfer:
  assumes "serves c w buf path bs" "request_option buf = (opt, Some param)"
    and "strcasecmp opt ''blksize'' = 0" "strtol param = (b, False)" "8 \<le> b" "b \<le> 65464"
    and "is_packet PACKET_RRQ (buf, len)" "\<forall>p \<in> set acks. is_packet PACKET_ACK p"
    and "length bs \<le> length acks * nat b"
  shows "\<exists>c' w' ps. process_all ((buf, len) # acks) (c, w) = Inr (c', w')
    \<and> queued c' w' = queued c w @ oack_packet opt param # ps
    \<and> ps = map (data_of (nat b) bs) [0 ..< length acks] \<and> concat (map payload ps) = bs"
  using read_blksize_run [OF assms(1-8)] payloads_data_of [of "nat b" bs "length acks"] assms(9)
  by (auto simp: total_ex)

theorem read_blksize_transfer_witness:
  "\<exists>c' w' ps. process_all [(demo_request PACKET_RRQ ''a'' ''octet'' (''blksize'' @ NUL # ''8'' @ [NUL]), 20),
        (demo_ack, 4)] (demo_client, demo_world) = Inr (c', w')
    \<and> queued c' w' = queued demo_client demo_world @ oack_packet ''blksize'' ''8'' # ps
    \<and> ps = map (data_of (nat 8) ''hello'') [0 ..< length [(demo_ack, 4 :: nat)]]
    \<and> concat (map payload ps) = ''hello''"
proof -
  let ?buf = "demo_request PACKET_RRQ ''a'' ''octet'' (''blksize'' @ NUL # ''8'' @ [NUL])"
  have parsed: "parse_request ?buf = Inr (''a'', ''octet'', ''blksize'', Some ''8'')"
    by (rule demo_request_option) simp_all
  have "serves demo_client demo_world ?buf ''/srv/a'' ''hello''"
    using demo_client_ok demo_fs_wf demo_file demo_path [of "''a''"]
    unfolding serves_def parsed by (simp add: lower_def) (simp add: demo_client_def zero_client_def)
  moreover have "request_option ?buf = (''blksize'', Some ''8'')"
    unfolding request_option_def parsed by simp
  moreover have "strtol ''8'' = (8, False)"
    by code_simp
  ultimately show ?thesis
    by (intro read_blksize_transfer [where acks = "[(demo_ack, 4)]"])
      (simp_all add: demo_is_packet demo_ack_packet MAX_PACKET_SIZE_def)
qed

section \<open>The server as a state machine\<close>

text \<open>
  C5. In every state the main loop can reach from the start, through any sequence of
  rounds without a fault and any behaviour of clock and network, the client pool holds
  distinct live clients, each with the negated port as its id and no resend pending, and
  no two clients share a descriptor and a port other than 32768.
\<close>

theorem reachable_invariant:
  assumes "reachable w0 w" "initial w0"
  shows "pool_wf w \<and> all_at_rest w \<and> unique_keys w"
  using reachable_inv [OF assms] by (simp add: srv_inv_def)

theorem reachable_invariant_witness:
  "\<exists>w1. server_round (Some [(3, EPOLLIN)]) (error_waits (IPv4 1024 5) demo_small) = Inr w1 \<and> w_pool w1 = [3]
    \<and> pool_wf w1 \<and> all_at_rest w1 \<and> unique_keys w1"
proof -
  obtain w1 where w1: "server_round (Some [(3, EPOLLIN)]) (error_waits (IPv4 1024 5) demo_small) = Inr w1" "w_pool w1 = [3]"
    by (rule demo_two_clients)
  with reachable_invariant [OF demo_round_reachable [OF w1(1)] demo_small_initial(1)] show ?thesis by blast
qed

text \<open>
  C4. Clients of different ports do not disturb one another. In every state the main loop can reach, a datagram that
  is received on a socket of the pool leaves every client of the pool that has another descriptor or another port
  than the datagram as it was: its structure, the packets in its queue, the content of every block of memory it
  points to, and the file it has open. This holds whatever the datagram is and whether or not memory is
  available, if receiving it ends without a fault; the writes out of bounds of C28 and C29 are faults, of
  which nothing is said. A datagram from the same port of another host is not another client's: the
  server takes it for a packet of the client it has (C15).
\<close>

theorem other_clients_untouched:
  assumes "initial w0" "\<forall>t \<in> set (w_socks w0). sk_packet t < brk (w_mem w0)" "reachable w0 w"
    and "s \<in> set (w_socks w)" "recvfrom (sk_fd s) (w_net w) = (Recv_packet data a, net)"
    and "ReceivePackets s w = Inr (r, w')"
    and "d \<in> set (w_pool w)" "w_clients w d = Some dl"
    and "(sk_fd (c_s dl), GetPort (sk_addr (c_s dl))) \<noteq> (sk_fd s, GetPort a)"
  shows "w_clients w' d = Some dl \<and> queued dl w' = queued dl w
    \<and> (\<forall>p. p \<in> owns dl \<longrightarrow> blocks (w_mem w') p = blocks (w_mem w) p)
    \<and> (c_f dl = 0 \<or> handles (w_fs w') (c_f dl) = handles (w_fs w) (c_f dl))"
  using ReceivePackets_untouched [OF reachable_isolated [OF assms(1-3)] assms(4-6,8)
      srv_inv_other_peer [OF reachable_inv [OF assms(3,1)] assms(7-9)]]
  by (auto simp: untouched_def)

theorem other_clients_untouched_witness:
  "\<exists>w1 w2 cl. server_round (Some [(3, EPOLLIN)]) (error_waits (IPv4 1024 5) demo_small) = Inr w1
    \<and> ReceivePackets small_sock (error_waits (IPv4 2048 6) w1) = Inr (0, w2)
    \<and> w_clients w2 3 = Some cl \<and> queued cl w2 = [ack_packet 1]"
proof -
  obtain w1 w2 cl where run: "server_round (Some [(3, EPOLLIN)]) (error_waits (IPv4 1024 5) demo_small) = Inr w1"
    "ReceivePackets small_sock (error_waits (IPv4 2048 6) w1) = Inr (0, w2)" "small_sock \<in> set (w_socks w1)"
    and cl: "w_pool w1 = [3]" "w_clients w1 3 = Some cl" "c_s cl = c_s cl\<lparr>sk_fd := 3, sk_addr := IPv4 1024 5\<rparr>"
      "queued cl w1 = [ack_packet 1]"
    by (rule demo_two_clients)
  let ?w = "error_waits (IPv4 2048 6) w1"
  have "sk_addr (c_s cl) = IPv4 1024 5" by (subst cl(3)) simp
  then have peer: "(sk_fd (c_s cl), GetPort (sk_addr (c_s cl))) \<noteq> (sk_fd small_sock, GetPort (IPv4 2048 6))"
    by (simp add: GetPort_def)
  have "recvfrom (sk_fd small_sock) (w_net ?w)
      = (Recv_packet error_datagram (IPv4 2048 6), (w_net ?w)\<lparr>inq := (inq (w_net ?w))(3 := [])\<rparr>)"
    by (simp add: error_waits_def small_sock_def recvfrom_def)
  from other_clients_untouched [OF demo_small_initial reachable.more [OF demo_round_reachable [OF run(1)] error_waits_step]
      _ this run(2) _ _ peer] run(3) cl
  have "w_clients w2 3 = Some cl \<and> queued cl w2 = queued cl ?w" by (simp add: error_waits_def)
  with run cl show ?thesis by (auto simp: error_waits_def queued_def)
qed

text \<open>
  C11. The resend machinery never runs: in every reachable state \<open>CheckClients\<close> succeeds
  and changes nothing, because no code marks a client as waiting.
\<close>

theorem no_retransmission:
  assumes "reachable w0 w" "initial w0"
  shows "CheckClients w = Inr w"
  by (rule srv_inv_quiet [OF reachable_inv [OF assms]])

theorem no_retransmission_witness:
  "\<exists>w1. server_round (Some [(3, EPOLLIN)]) (error_waits (IPv4 1024 5) demo_small) = Inr w1 \<and> w_pool w1 = [3]
    \<and> CheckClients w1 = Inr w1"
proof -
  obtain w1 where w1: "server_round (Some [(3, EPOLLIN)]) (error_waits (IPv4 1024 5) demo_small) = Inr w1" "w_pool w1 = [3]"
    by (rule demo_two_clients)
  with no_retransmission [OF demo_round_reachable [OF w1(1)] demo_small_initial(1)] show ?thesis by blast
qed

section \<open>Single packets\<close>

text \<open>
  C13. A full block that arrives twice during a write transfer, as it does when its acknowledgement was lost, is
  stored twice: the number of a DATA packet is not looked at but to acknowledge it. RFC 783 (src/doc/rfc783.txt)
  has the number so that a duplicate can be told from a new packet.
\<close>

theorem duplicate_block_stored_twice:
  assumes "receiving path bs c w" "arrives b d (buf, len)" "length d = 512"
  shows "\<exists>c' w'. process_all [(buf, len), (buf, len)] (c, w) = Inr (c', w')
    \<and> nodes (w_fs w') path = Some (Reg (bs @ d @ d)) \<and> receiving path (bs @ d @ d) c' w'
    \<and> queued c' w' = queued c w @ [ack_packet b, ack_packet b] \<and> c_destroy c' = c_destroy c"
proof -
  obtain c1 w1 where 1: "ProcessPacket c buf len w = Inr (c1, w1)" "receiving path (bs @ d) c1 w1"
    "queued c1 w1 = queued c w @ [ack_packet b]" "c_destroy c1 = c_destroy c"
    using data_step [OF assms(1,2)] assms(3) by (auto simp: total_ex)
  obtain c2 w2 where 2: "ProcessPacket c1 buf len w1 = Inr (c2, w2)" "receiving path ((bs @ d) @ d) c2 w2"
    "queued c2 w2 = queued c1 w1 @ [ack_packet b]" "c_destroy c2 = c_destroy c1"
    using data_step [OF 1(2) assms(2)] assms(3) by (auto simp: total_ex)
  from 2(2) have "nodes (w_fs w2) path = Some (Reg (bs @ d @ d))"
    by (simp add: receiving_def appending_def)
  with 1 2 show ?thesis by simp
qed

theorem duplicate_block_stored_twice_witness:
  "\<exists>c' w'. process_all (replicate 2 (data_packet 2 (replicate 512 (CHR ''x'')), 516)) demo_receiving = Inr (c', w')
    \<and> nodes (w_fs w') ''/srv/a'' = Some (Reg (''hello'' @ replicate 512 (CHR ''x'') @ replicate 512 (CHR ''x'')))"
proof -
  have "arrives 2 (replicate 512 (CHR ''x'')) (data_packet 2 (replicate 512 (CHR ''x'')), 516)"
    by (simp add: arrives_def MAX_PACKET_SIZE_def data_packet_def)
  from duplicate_block_stored_twice [OF demo_receiving_ok this] show ?thesis
    by (auto simp: numeral_2_eq_2)
qed

section \<open>Sending and the client pool\<close>

text \<open>
  C14. The turn in \<open>SendPackets\<close> of a client that is not marked for removal, when no \<open>sendto\<close> fails: every packet
  of its queue goes out, in order, to the client's address; the queue is then empty and
  the blocks of the packets, and no others, are freed.
\<close>

theorem queue_is_sent:
  assumes "c \<noteq> 0" "w_clients w c = Some cl" "queue_owned cl (w_mem w)"
    and "\<forall>n. \<not> send_fail (w_net w) n" "c_destroy cl = 0" "mux_ok (sk_fd (c_s cl)) (w_mux w)"
  shows "\<exists>w' cl'. send_client c w = Inr (0, w') \<and> w_clients w' c = Some cl' \<and> c_queue cl' = []
    \<and> sent (w_net w') = sent (w_net w)
        @ map (\<lambda>bytes. (sk_fd (c_s cl), sk_addr (c_s cl), bytes)) (queued cl w)
    \<and> w_mem w' = freed (pq_p ` set (c_queue cl)) (w_mem w)"
  using send_client_sends [OF assms(1-3) _ assms(5,6)] assms(4) by blast

theorem queue_is_sent_witness:
  "\<exists>w' cl'. send_client 1 demo_queue_world = Inr (0, w') \<and> w_clients w' 1 = Some cl' \<and> c_queue cl' = []
    \<and> sent (w_net w') = [(0, Other_family, ack_packet 0)]"
proof -
  let ?cl = "demo_client\<lparr>c_queue := [\<lparr>pq_p = 2, pq_len = 4, pq_allocated = 1\<rparr>]\<rparr>"
  have q: "queued ?cl demo_queue_world = [ack_packet 0]"
    by (simp add: queued_def pq_bytes_def demo_queue_world_def ack_packet_def)
  have "\<exists>w' cl'. send_client 1 demo_queue_world = Inr (0, w') \<and> w_clients w' 1 = Some cl' \<and> c_queue cl' = []
    \<and> sent (w_net w') = sent (w_net demo_queue_world)
        @ map (\<lambda>bytes. (sk_fd (c_s ?cl), sk_addr (c_s ?cl), bytes)) (queued ?cl demo_queue_world)
    \<and> w_mem w' = freed (pq_p ` set (c_queue ?cl)) (w_mem demo_queue_world)"
    by (rule queue_is_sent)
      (simp_all add: demo_queue_world_def queue_owned_def pq_live_def ack_packet_def mux_ok_def demo_defs)
  moreover have "sent (w_net demo_queue_world) = []" "sk_fd (c_s ?cl) = 0" "sk_addr (c_s ?cl) = Other_family"
    by (simp_all add: demo_queue_world_def demo_defs zero_socket_def)
  ultimately show ?thesis unfolding q by auto
qed

text \<open>
  C15. The client that \<open>FindOrAllocateClient\<close> gives to a packet is the one \<open>FindClient\<close>
  finds for the next packet from the same port, on the same descriptor, of any host; for the port 32768 it is not (C36).
\<close>

theorem same_client_next_time:
  assumes "pool_wf w" "FindOrAllocateClient fd a w = Inr (c, w')" "c \<noteq> 0"
    and "GetPort a \<noteq> 0x8000" "GetPort b = GetPort a"
  shows "FindClient fd b w' = Inr c"
  by (rule FindOrAllocateClient_again [OF assms])

theorem same_client_next_time_witness:
  "\<exists>c w'. FindOrAllocateClient 3 (IPv4 1024 1) demo_world = Inr (c, w')
    \<and> FindClient 3 (IPv4 1024 2) w' = Inr c"
proof -
  obtain c w' where run: "FindOrAllocateClient 3 (IPv4 1024 1) demo_world = Inr (c, w')" "c \<noteq> 0"
    by (simp add: FindOrAllocateClient_def FindClient_def new_client_def AddSocket_def AddClient_def
        strdup_eq nmalloc_eq list_push_def set_client_def client_at_def demo_defs Let_def ENOMEM_def)
  from same_client_next_time [OF demo_pool_wf run, of "IPv4 1024 2"] run(1) show ?thesis
    by (auto simp: GetPort_def)
qed

section \<open>Parsing of requests\<close>

text \<open>
  C16. The four strings of a request with an option are parsed back exactly.
\<close>

theorem request_round_trip:
  assumes "drop 2 buf = fn @ NUL # mode @ NUL # opt @ NUL # param @ NUL # rest"
    and "cstring fn" "cstring mode" "cstring opt" "cstring param" "opt \<noteq> []"
  shows "parse_request buf = Inr (fn, mode, opt, Some param)"
  by (rule parse_request_option [OF assms])

theorem request_round_trip_witness:
  "parse_request (be16 PACKET_RRQ @ ''f'' @ NUL # ''octet'' @ NUL # ''tsize'' @ NUL # ''0'' @ NUL # [])
     = Inr (''f'', ''octet'', ''tsize'', Some ''0'')"
  by (rule request_round_trip) simp_all

text \<open>
  C17. Parsing a request never reads outside the receive buffer, whatever the sender put
  into the packet: behind the packet the buffer is zero.
\<close>

theorem request_parsing_safe:
  assumes "\<forall>i. n \<le> i \<longrightarrow> i < length buf \<longrightarrow> buf ! i = NUL" "n + 6 \<le> length buf"
  shows "\<exists>r. parse_request buf = Inr r"
  using parse_request_safe [of n buf] assms by blast

theorem request_parsing_safe_witness:
  "\<exists>r. parse_request [CHR 0x01, CHR 0x01, NUL, NUL, NUL, NUL, NUL, NUL] = Inr r"
  by (rule request_parsing_safe [of 2])
    (auto simp: nth_Cons numeral_2_eq_2 numeral_3_eq_3 split: nat.splits)

section \<open>Multiplexers and loops\<close>

text \<open>
  C18. The multiplexers for epoll and poll cannot be told apart by a caller that adds only open descriptors that are not watched,
  while memory is available: from states that watch the
  same descriptors, every sequence of additions, removals and changes of status that does so runs without a fault on both,
  gives the same answers, those of the specification, and ends in states that watch the
  same descriptors for the same events. A descriptor that is watched or closed is refused by epoll
  (- 1) and added by poll (0).
\<close>

theorem epoll_poll_equivalent:
  assumes "epoll_watch k = poll_watch m" "poll_ok m" "mem_ok (snd m)"
    and "adds_fresh cmds (\<lambda>fd. fd \<in> open_fds k) (epoll_watch k)"
  shows "\<exists>rs k' m'. epoll_run cmds k = Inr (rs, k') \<and> poll_run cmds m = Inr (rs, m')
    \<and> spec_run cmds (epoll_watch k) = (rs, epoll_watch k') \<and> epoll_watch k' = poll_watch m'"
  using epoll_poll.same_answers [OF _ assms(2,1,4)] adds_fresh_mono [OF assms(4), of "\<lambda>_. mem_ok (snd m)"] assms(1,3)
  by (simp add: epoll_run_def poll_run_def)

theorem epoll_poll_equivalent_witness:
  "\<exists>k' m'. epoll_run [Add 3, Status 3 (SF_WRITABLE OR SF_READABLE), Remove 4] demo_epoll = Inr ([0, 0, - 1], k')
    \<and> poll_run [Add 3, Status 3 (SF_WRITABLE OR SF_READABLE), Remove 4] ([], demo_heap) = Inr ([0, 0, - 1], m')
    \<and> epoll_watch k' = poll_watch m'"
proof -
  let ?cmds = "[Add 3, Status 3 (SF_WRITABLE OR SF_READABLE), Remove 4]"
  have w: "epoll_watch demo_epoll = Map.empty" "poll_watch ([], demo_heap) = Map.empty" "poll_ok ([], demo_heap)" "mem_ok demo_heap"
    by (simp_all add: epoll_watch_def poll_watch_def poll_ok_def demo_heap_def mem_ok_def fun_eq_iff)
  obtain rs k' m' where run: "epoll_run ?cmds demo_epoll = Inr (rs, k')" "poll_run ?cmds ([], demo_heap) = Inr (rs, m')"
    "spec_run ?cmds Map.empty = (rs, epoll_watch k')" "epoll_watch k' = poll_watch m'"
    using epoll_poll_equivalent [of demo_epoll "([], demo_heap)" ?cmds] w by auto
  have "rs = [0, 0, - 1]" using run(3) by auto
  with run show ?thesis by blast
qed

text \<open>
  C19. The loops over the client pool end by themselves: more rounds than the pool has
  clients change neither the result of \<open>SendPackets\<close> nor that of \<open>CheckClients\<close>.
\<close>

theorem pool_loops_terminate:
  assumes "length (w_pool w) \<le> n"
  shows "SendPackets w = pool_loop send_client n 0 w
    \<and> CheckClients w = and_then (pool_loop check_client n 0 w) (\<lambda>(_, w'). Inr w')"
proof -
  obtain k where "n = length (w_pool w) + k" using assms le_Suc_ex by blast
  then show ?thesis
    by (simp add: SendPackets_def CheckClients_def send.pool_loop_fuel check.pool_loop_fuel)
qed

theorem pool_loops_terminate_witness:
  "SendPackets demo_queue_world = pool_loop send_client 5 0 demo_queue_world
    \<and> CheckClients demo_queue_world
      = and_then (pool_loop check_client 5 0 demo_queue_world) (\<lambda>(_, w'). Inr w')"
  by (rule pool_loops_terminate) (simp add: demo_queue_world_def)

section \<open>Packets out of bounds\<close>

text \<open>
  C28. A DATA packet of fewer than four bytes during a transfer makes the payload length
  wrap around: the write reads outside the receive buffer.
\<close>

theorem short_data_out_of_bounds:
  assumes "client_ok c w" "c_sendingfile c \<noteq> 0" "is_packet PACKET_DATA (buf, len)" "len < 4"
    and "length buf < 2 ^ 63"
  shows "ProcessPacket c buf len w = Inl Out_of_bounds"
proof -
  have "payload_len len = 2 ^ 64 + len - 4"
    using assms(4) by (simp add: payload_len_short)
  then show ?thesis
    using assms by (simp add: ProcessPacket_cases(1) process_data_def end_resend_plain Let_def)
qed

theorem short_data_out_of_bounds_witness:
  "ProcessPacket (fst demo_receiving) (be16 PACKET_DATA @ [NUL, NUL]) 2 (snd demo_receiving)
     = Inl Out_of_bounds"
  using demo_receiving_ok
  by (intro short_data_out_of_bounds)
    (simp_all add: receiving_def is_packet_def field16_def be16_def MAX_PACKET_SIZE_def)

text \<open>
  C29. An ACK for a client whose block buffer is smaller than its block size (a second
  request with a larger \<open>blksize\<close> during a transfer leads there) writes outside the
  buffer.
\<close>

theorem small_block_buffer_overflow:
  assumes "pq_allocated (c_lastpacket c) \<noteq> 2" "c_sendingfile c \<noteq> 0" "is_packet PACKET_ACK (buf, len)"
    and "c_blk c \<noteq> 0" "blocks (w_mem w) (c_blk c) = Some b" "length b < unat (c_blksize c)"
  shows "ProcessPacket c buf len w = Inl Out_of_bounds"
  using assms
  by (simp add: ProcessPacket_cases(3) process_ack_def end_resend_def Let_def memset_def store_def)

theorem small_block_buffer_overflow_witness:
  "ProcessPacket (demo_client\<lparr>c_sendingfile := 1, c_blk := 1\<rparr>) demo_ack 4
     (demo_world\<lparr>w_mem := demo_heap\<lparr>blocks := [1 \<mapsto> ''ab'']\<rparr>\<rparr>) = Inl Out_of_bounds"
  by (rule small_block_buffer_overflow [where b = "''ab''"])
    (simp_all add: demo_ack_packet, simp_all add: demo_client_def zero_client_def)

section \<open>Requests that are refused or answered at once\<close>

text \<open>
  C30. Read and write requests in mail mode are refused with error 4, whatever the case of
  the letters; the client is removed after the error is sent.
\<close>

theorem mail_mode_refused:
  assumes "client_ok c w" "opcode = PACKET_RRQ \<or> opcode = PACKET_WRQ" "is_packet opcode (buf, len)"
    and "parse_request buf = Inr (fn, mode, opt, param)" "map lower mode = ''mail''" "cstring mode"
  shows "total (handled c w [error_packet ERROR_ILLEGAL ''Mail mode not supported by NBSTFTP'']
      (c\<lparr>c_waiting := 0, c_destroy := 1\<rparr>) w) (ProcessPacket c buf len w)"
proof -
  have "map lower ''mail'' = ''mail''" by (simp add: lower_def)
  then have "strcasecmp mode ''mail'' = 0"
    using assms(5,6) by (subst strcasecmp_0_iff) simp_all
  with assms process_rrq_mail [of c w buf fn mode opt param len]
    process_wrq_mail [of c w buf fn mode opt param len] show ?thesis
    by (auto simp: ProcessPacket_cases)
qed

theorem mail_mode_refused_witness:
  "total (handled demo_client demo_world
      [error_packet ERROR_ILLEGAL ''Mail mode not supported by NBSTFTP'']
      (demo_client\<lparr>c_waiting := 0, c_destroy := 1\<rparr>) demo_world)
    (ProcessPacket demo_client (demo_request PACKET_WRQ ''a'' ''MAil'' [NUL]) 10 demo_world)"
proof (rule mail_mode_refused [OF demo_client_ok, where opcode = PACKET_WRQ])
  show "parse_request (demo_request PACKET_WRQ ''a'' ''MAil'' [NUL]) = Inr (''a'', ''MAil'', [], None)"
    by (rule demo_request_plain) simp_all
  show "map lower ''MAil'' = ''mail''" by code_simp
qed (simp_all add: demo_is_packet MAX_PACKET_SIZE_def)

text \<open>
  C31. A write request for a path that \<open>access\<close> refuses for lack of permission is answered
  with error 7; the file system is not touched.
\<close>

theorem wrq_no_permission:
  assumes "client_ok c w" "is_packet PACKET_WRQ (buf, len)"
    and "parse_request buf = Inr (fn, mode, opt, param)" "strcasecmp mode ''mail'' \<noteq> 0"
    and "cf_directory (w_conf w) = Some dir" "request_path fn (w_conf w) = Inr path"
    and "access_errno path dir (w_fs w) = EACCES" "\<forall>n. length (w_strerror w n) \<le> 400"
  shows "total (handled c w
        [error_packet ERROR_NOUSER (''Cannot access file: '' @ w_strerror w EACCES)]
        (c\<lparr>c_waiting := 0, c_destroy := 1\<rparr>) (w\<lparr>w_errno := EACCES\<rparr>)) (ProcessPacket c buf len w)"
  using process_wrq_refused(1) [OF assms(1,3-6) refl, of len] assms(7,8)
  by (simp add: ProcessPacket_cases(4) [OF assms(2)])

theorem wrq_no_permission_witness:
  "total (handled demo_client demo_world
        [error_packet ERROR_NOUSER (''Cannot access file: '' @ w_strerror demo_world EACCES)]
        (demo_client\<lparr>c_waiting := 0, c_destroy := 1\<rparr>) (demo_world\<lparr>w_errno := EACCES\<rparr>))
    (ProcessPacket demo_client (demo_request PACKET_WRQ ''a'' ''octet'' [NUL]) 11 demo_world)"
proof (rule wrq_no_permission [OF demo_client_ok, where path = "''/srv/a''" and dir = "''/srv''"])
  show "parse_request (demo_request PACKET_WRQ ''a'' ''octet'' [NUL]) = Inr (''a'', ''octet'', [], None)"
    by (rule demo_request_plain) simp_all
  show "access_errno ''/srv/a'' ''/srv'' (w_fs demo_world) = EACCES"
    by (simp add: access_errno_def access_write_def demo_defs EACCES_def)
  show "request_path ''a'' (w_conf demo_world) = Inr ''/srv/a''"
    using demo_path [of "''a''"] by simp
qed (simp_all add: demo_is_packet MAX_PACKET_SIZE_def lower_def, simp_all add: demo_defs)



text \<open>
  C33. A read request with the option \<open>tsize\<close> is answered, no transfer is started and the file is closed again.
  The answer does not say the size: it is built from the decimal digits of the size, but the first of them
  is replaced by a NUL, so a client reads an empty value, where RFC 2349 has the size (C37).
\<close>

theorem tsize_answered:
  assumes "client_ok c w" "is_packet PACKET_RRQ (buf, len)"
    and "parse_request buf = Inr (fn, mode, opt, param)" "strcasecmp mode ''mail'' \<noteq> 0"
    and "strcasecmp opt ''blksize'' \<noteq> 0" "strcasecmp opt ''tsize'' = 0"
    and "request_path fn (w_conf w) = Inr path" "fs_wf (w_fs w)"
    and "nodes (w_fs w) path = Some (Reg bs)" "r_perm (w_fs w) path = 0"
  shows "total (\<lambda>r. \<exists>e fs. nodes fs = nodes (w_fs w) \<and> handles fs = handles (w_fs w)
      \<and> handled c w [be16 6 @ opt @ [NUL] @ (NUL # tl (dec_nat (length bs))) @ [NUL] @ [NUL, NUL]] (c\<lparr>c_waiting := 0\<rparr>)
          (w\<lparr>w_errno := e, w_fs := fs\<rparr>) r)
    (ProcessPacket c buf len w)"
proof -
  have "oack_packet opt (dec_nat (length bs)) = be16 6 @ opt @ [NUL] @ (NUL # tl (dec_nat (length bs))) @ [NUL] @ [NUL, NUL]"
    by (rule oack_packet_nonempty) simp
  with process_rrq_tsize [OF assms(1,3-10), of len] show ?thesis by (simp add: ProcessPacket_cases(5) [OF assms(2)])
qed

theorem tsize_answered_witness:
  "total (\<lambda>r. \<exists>e fs. nodes fs = nodes (w_fs demo_world) \<and> handles fs = handles (w_fs demo_world)
      \<and> handled demo_client demo_world [be16 6 @ ''tsize'' @ [NUL] @ (NUL # tl (dec_nat (length ''hello''))) @ [NUL] @ [NUL, NUL]]
          (demo_client\<lparr>c_waiting := 0\<rparr>) (demo_world\<lparr>w_errno := e, w_fs := fs\<rparr>) r)
    (ProcessPacket demo_client
      (demo_request PACKET_RRQ ''a'' ''octet'' (''tsize'' @ NUL # ''0'' @ [NUL])) 18 demo_world)"
proof (rule tsize_answered [OF demo_client_ok, where path = "''/srv/a''"])
  show "parse_request (demo_request PACKET_RRQ ''a'' ''octet'' (''tsize'' @ NUL # ''0'' @ [NUL]))
      = Inr (''a'', ''octet'', ''tsize'', Some ''0'')"
    by (rule demo_request_option) simp_all
  show "request_path ''a'' (w_conf demo_world) = Inr ''/srv/a''"
    using demo_path [of "''a''"] by simp
qed (simp_all add: demo_is_packet MAX_PACKET_SIZE_def lower_def demo_fs_wf demo_file)

text \<open>
  C34. A read request for a file that does not exist is answered with two error packets,
  because the first error does not end the handling of the request.
\<close>

theorem missing_file_two_errors:
  assumes "client_ok c w" "is_packet PACKET_RRQ (buf, len)"
    and "parse_request buf = Inr (fn, mode, opt, param)" "strcasecmp mode ''mail'' \<noteq> 0"
    and "strcasecmp opt ''blksize'' \<noteq> 0" "strcasecmp opt ''tsize'' \<noteq> 0"
    and "request_path fn (w_conf w) = Inr path" "nodes (w_fs w) path = None"
    and "length (missing_text path) \<le> 512" "length (w_strerror w ENOENT) \<le> 400"
  shows "total (handled c w
      [error_packet ERROR_NOFILE (missing_text path),
       error_packet ERROR_NOFILE (''Cannot open file: '' @ w_strerror w ENOENT)]
      (c\<lparr>c_waiting := 0, c_destroy := 1\<rparr>) (w\<lparr>w_errno := ENOENT\<rparr>)) (ProcessPacket c buf len w)"
  using process_rrq_missing [OF assms(1,3-10), of len] by (simp add: ProcessPacket_cases(5) [OF assms(2)])

theorem missing_file_two_errors_witness:
  "total (handled demo_client demo_world
      [error_packet ERROR_NOFILE (missing_text ''/srv/x''),
       error_packet ERROR_NOFILE (''Cannot open file: '' @ w_strerror demo_world ENOENT)]
      (demo_client\<lparr>c_waiting := 0, c_destroy := 1\<rparr>) (demo_world\<lparr>w_errno := ENOENT\<rparr>))
    (ProcessPacket demo_client (demo_request PACKET_RRQ ''x'' ''octet'' [NUL]) 11 demo_world)"
proof (rule missing_file_two_errors [OF demo_client_ok])
  show "parse_request (demo_request PACKET_RRQ ''x'' ''octet'' [NUL]) = Inr (''x'', ''octet'', [], None)"
    by (rule demo_request_plain) simp_all
  show "request_path ''x'' (w_conf demo_world) = Inr ''/srv/x''"
    using demo_path [of "''x''"] by simp
qed (simp_all add: demo_is_packet MAX_PACKET_SIZE_def lower_def missing_text_def, simp_all add: demo_defs)

text \<open>
  C35. If the name of the missing file is too long for the error text, the assertion in
  \<open>Error\<close> fails and the server stops.
\<close>

theorem long_missing_file_asserts:
  assumes "client_ok c w" "is_packet PACKET_RRQ (buf, len)"
    and "parse_request buf = Inr (fn, mode, opt, param)" "strcasecmp mode ''mail'' \<noteq> 0"
    and "strcasecmp opt ''blksize'' \<noteq> 0" "strcasecmp opt ''tsize'' \<noteq> 0"
    and "request_path fn (w_conf w) = Inr path" "nodes (w_fs w) path = None"
    and "512 < length (missing_text path)"
  shows "ProcessPacket c buf len w = Inl Assert_failed"
  using process_rrq_missing_assert [OF assms(1,3-9), of len]
  by (simp add: ProcessPacket_cases(5) [OF assms(2)])

theorem long_missing_file_asserts_witness:
  "ProcessPacket demo_client (demo_request PACKET_RRQ (replicate 500 CHR ''x'') ''octet'' [NUL]) 510
     demo_world = Inl Assert_failed"
proof (rule long_missing_file_asserts [OF demo_client_ok])
  let ?fn = "replicate 500 CHR ''x''"
  show "parse_request (demo_request PACKET_RRQ ?fn ''octet'' [NUL]) = Inr (?fn, ''octet'', [], None)"
    by (rule demo_request_plain) (simp_all add: cstring_def)
  show "request_path ?fn (w_conf demo_world) = Inr (''/srv/'' @ ?fn)"
    by (rule demo_path)
  have "length (''/srv/'' @ ?fn) = 505" by simp
  then have "''/srv/'' @ ?fn \<noteq> s" if "length s < 100" for s
    using that by (cases "''/srv/'' @ ?fn = s") (auto simp del: append.simps)
  then show "nodes (w_fs demo_world) (''/srv/'' @ ?fn) = None"
    by (simp add: demo_world_def demo_fs_def del: append.simps)
  show "512 < length (missing_text (''/srv/'' @ ?fn))"
    by (simp add: missing_text_def)
qed (simp_all add: demo_is_packet MAX_PACKET_SIZE_def lower_def)

section \<open>The client of a port\<close>

text \<open>
  C36. For the port 32768 no client is ever found, since the negated port and the stored
  id are compared as int: every packet from that port gets a new client.
\<close>

theorem port_32768_never_found:
  assumes "pool_wf w" "GetPort a = 0x8000"
  shows "FindClient fd a w = Inr 0"
  by (rule FindClient_8000 [OF pool_wf_live [OF assms(1)] assms(2)])

theorem port_32768_never_found_witness: "FindClient 3 (IPv4 0x8000 1) demo_world = Inr 0"
  by (rule port_32768_never_found [OF demo_pool_wf]) (simp add: GetPort_def)

section \<open>The wire format\<close>

text \<open>
  C37. \<open>OptionAcknowledge\<close> queues a packet that is not the OACK of RFC 2347: the first byte
  of the value is replaced by a NUL, and two NUL bytes follow its end.
\<close>

theorem oack_format:
  assumes "client_ok c w" "v = x # xs"
  shows "total (\<lambda>(c', w'). enqueued c w
      [(be16 6 @ opt @ [NUL] @ (NUL # xs) @ [NUL]) @ [NUL, NUL]] c' w') (OptionAcknowledge c opt v w)"
  using OptionAcknowledge_total [OF assms(1), of opt v]
  by (simp add: oack_packet_def zap_first_def assms(2) PACKET_OACK_def)

theorem oack_format_witness:
  "total (\<lambda>(c', w'). enqueued demo_client demo_world
      [(be16 6 @ ''tsize'' @ [NUL] @ (NUL # ''2'') @ [NUL]) @ [NUL, NUL]] c' w')
    (OptionAcknowledge demo_client ''tsize'' ''42'' demo_world)"
  by (rule oack_format [OF demo_client_ok]) simp

text \<open>
  C38. \<open>Error\<close> queues an ERROR packet with the code, the text and a NUL, and marks the client
  for removal, if the packet fits into 516 bytes; otherwise its assertion fails.
\<close>

theorem error_format:
  assumes "client_ok c w"
  shows "(length m \<le> 512 \<longrightarrow>
      total (\<lambda>(c', w'). enqueued (c\<lparr>c_destroy := 1\<rparr>) w [be16 5 @ be16 e @ m @ [NUL]] c' w') (Error c e m w))
    \<and> (512 < length m \<longrightarrow> Error c e m w = Inl Assert_failed)"
  using Error_total [OF assms, of m e] Error_assert [OF client_okD(3) [OF assms] client_okD(2) [OF assms], of m c e]
  by (auto simp: MAX_PACKET_SIZE_def error_packet_def PACKET_ERROR_def)

theorem error_format_witness:
  "total (\<lambda>(c', w'). enqueued (demo_client\<lparr>c_destroy := 1\<rparr>) demo_world
      [be16 5 @ be16 1 @ ''no'' @ [NUL]] c' w') (Error demo_client 1 ''no'' demo_world)"
  using error_format [OF demo_client_ok, of "''no''" 1] by simp

section \<open>Vectors\<close>

text \<open>
  C39. \<open>vec_remove\<close> removes the first occurrence of the value and keeps the others in order.
\<close>

theorem vec_remove_first:
  assumes "vec_rep v xs" "memsz \<noteq> 0"
  shows "\<exists>v'. vec_remove memsz x v = Inr v' \<and> vec_rep v' (remove1 x xs)"
  by (rule vec_remove_rep [OF assms])

theorem vec_remove_first_witness:
  "\<exists>v'. vec_remove 8 (1 :: nat) \<lparr>vdata = [Some 1, Some 2, None], vlength = 2, vcapacity = 3\<rparr> = Inr v'
    \<and> vec_rep v' (remove1 1 [1, 2])"
  by (rule vec_remove_first) (simp_all add: vec_rep_iff vec_wf_def contents_def)

text \<open>
  C40. \<open>reallocarray\<close> never allocates less than the product of count and size: where the
  64-bit product would wrap around it returns a null pointer.
\<close>

theorem reallocarray_no_wrap:
  assumes "reallocarray avail nmemb sz = Some b"
  shows "unat b = unat nmemb * unat sz"
  by (rule reallocarray_bytes [OF assms])

theorem reallocarray_no_wrap_witness:
  "reallocarray (\<lambda>_. True) 3 8 = Some 24 \<and> unat (24 :: 64 word) = unat (3 :: 64 word) * unat (8 :: 64 word)"
proof -
  have r: "reallocarray (\<lambda>_. True) 3 8 = Some 24" by (simp add: reallocarray_def MUL_NO_OVERFLOW_def)
  with reallocarray_no_wrap [OF r] show ?thesis by blast
qed

end
